(* ===== verification/Prelude.thy ===== *)
theory Prelude
  imports Complex_Main "HOL-Library.Sublist" "HOL-Library.Multiset"
begin

text \<open>
  Shared ground of the development.  A Go \<^verbatim>\<open>rune\<close> is an \<^typ>\<open>int\<close> code point and a Go string is the
  list of its code points: the modelled packages walk strings by \<^verbatim>\<open>range\<close>, so what they see of a
  string is its runes, and the functions that count bytes use \<open>byteLen\<close>.  The first half of the theory
  models the functions of Go's \<^verbatim>\<open>strings\<close>, \<^verbatim>\<open>slices\<close> and \<^verbatim>\<open>fmt\<close> packages the sources call; the
  second half holds generic lemmas on them.  The collections \<open>text_simps\<close> and \<open>join_simps\<close> gather
  the rewrite rules component proofs use.
\<close>

named_theorems text_simps
named_theorems join_simps

type_synonym rune = int
type_synonym gostring = "rune list"

subsection \<open>Literals and decimal numerals\<close>

definition lit :: "string \<Rightarrow> gostring" where
  "lit s = map of_char s"

definition ch :: "char \<Rightarrow> rune" where
  "ch c = of_char c"

fun show_nat :: "nat \<Rightarrow> gostring" where
  "show_nat n = (if n < 10 then [48 + int n] else show_nat (n div 10) @ [48 + int (n mod 10)])"

declare show_nat.simps [simp del]

definition show_int :: "int \<Rightarrow> gostring" where
  "show_int i = (if i < 0 then 45 # show_nat (nat (- i)) else show_nat (nat i))"

subsection \<open>The strings package\<close>

definition has_prefix :: "'a list \<Rightarrow> 'a list \<Rightarrow> bool" where
  "has_prefix s p = (take (length p) s = p)"

definition has_suffix :: "'a list \<Rightarrow> 'a list \<Rightarrow> bool" where
  "has_suffix s p = (length p \<le> length s \<and> drop (length s - length p) s = p)"

fun join :: "'a list \<Rightarrow> 'a list list \<Rightarrow> 'a list" where
  "join sep [] = []"
| "join sep [x] = x"
| "join sep (x # y # xs) = x @ sep @ join sep (y # xs)"

function split_from :: "'a list \<Rightarrow> 'a list \<Rightarrow> 'a list \<Rightarrow> 'a list list" where
  "split_from sep cur s =
     (if s = [] then [cur]
      else if sep \<noteq> [] \<and> has_prefix s sep then cur # split_from sep [] (drop (length sep) s)
      else split_from sep (cur @ [hd s]) (tl s))"
  by pat_completeness auto
termination
  by (relation "measure (\<lambda>(sep, cur, s). length s)") auto

declare split_from.simps [simp del]

definition split :: "'a list \<Rightarrow> 'a list \<Rightarrow> 'a list list" where
  "split sep s = split_from sep [] s"

fun last_index :: "'a list \<Rightarrow> 'a list \<Rightarrow> nat option" where
  "last_index [] sub = (if sub = [] then Some 0 else None)"
| "last_index (c # s) sub =
     (case last_index s sub of
        Some i \<Rightarrow> Some (Suc i)
      | None \<Rightarrow> if has_prefix (c # s) sub then Some 0 else None)"

definition contains :: "'a list \<Rightarrow> 'a list \<Rightarrow> bool" where
  "contains s sub = (last_index s sub \<noteq> None)"

definition trim_func :: "('a \<Rightarrow> bool) \<Rightarrow> 'a list \<Rightarrow> 'a list" where
  "trim_func P s = rev (dropWhile P (rev (dropWhile P s)))"

definition trim_suffix :: "'a list \<Rightarrow> 'a list \<Rightarrow> 'a list" where
  "trim_suffix s p = (if has_suffix s p then take (length s - length p) s else s)"

text \<open>The bytes a rune takes in UTF-8, and the byte length Go's \<^verbatim>\<open>len\<close> gives a string.\<close>

definition runeLen :: "rune \<Rightarrow> nat" where
  "runeLen r = (if r < 128 then 1 else if r < 2048 then 2 else if r < 65536 then 3 else 4)"

definition byteLen :: "gostring \<Rightarrow> nat" where
  "byteLen s = sum_list (map runeLen s)"

definition in_table :: "(rune \<times> rune) list \<Rightarrow> rune \<Rightarrow> bool" where
  "in_table rs r = list_ex (\<lambda>(lo, hi). lo \<le> r \<and> r \<le> hi) rs"

text \<open>A maximal run of a predicate replaced by one piece of text, as a regular expression
  \<^verbatim>\<open>[class]+\<close> is by \<^verbatim>\<open>ReplaceAllString\<close>.\<close>

function replace_runs :: "('a \<Rightarrow> bool) \<Rightarrow> 'a list \<Rightarrow> 'a list \<Rightarrow> 'a list" where
  "replace_runs P w [] = []"
| "replace_runs P w (c # s) =
     (if P c then w @ replace_runs P w (dropWhile P s) else c # replace_runs P w s)"
  by pat_completeness auto
termination
  by (relation "measure (\<lambda>(P, w, s). length s)") (auto simp: length_dropWhile_le le_imp_less_Suc)

function replace_all :: "'a list \<Rightarrow> 'a list \<Rightarrow> 'a list \<Rightarrow> 'a list" where
  "replace_all old new s =
     (if s = [] then []
      else if old \<noteq> [] \<and> has_prefix s old then new @ replace_all old new (drop (length old) s)
      else hd s # replace_all old new (tl s))"
  by pat_completeness auto
termination
  by (relation "measure (\<lambda>(old, new, s). length s)") auto

declare replace_all.simps [simp del]

text \<open>Go's \<^verbatim>\<open>int\<close> is 64 bits wide and wraps around.\<close>

definition wrap64 :: "int \<Rightarrow> int" where
  "wrap64 x = (x + 2 ^ 63) mod 2 ^ 64 - 2 ^ 63"

text \<open>Byte-wise order on Go strings.  UTF-8 keeps the order of code points, so it is the
  lexicographic order of the runes.\<close>

fun text_le :: "gostring \<Rightarrow> gostring \<Rightarrow> bool" where
  "text_le [] ys = True"
| "text_le (x # xs) [] = False"
| "text_le (x # xs) (y # ys) = (x < y \<or> (x = y \<and> text_le xs ys))"

fun insert_text :: "gostring \<Rightarrow> gostring list \<Rightarrow> gostring list" where
  "insert_text x [] = [x]"
| "insert_text x (y # ys) = (if text_le x y then x # y # ys else y # insert_text x ys)"

definition sort_texts :: "gostring list \<Rightarrow> gostring list" where
  "sort_texts xs = foldr insert_text xs []"

subsection \<open>Counting and grouping, as the sources' maps do\<close>

definition count_of :: "'a list \<Rightarrow> 'a \<Rightarrow> nat" where
  "count_of xs x = count_list xs x"

lemma show_nat_small: "n < 10 \<Longrightarrow> show_nat n = [48 + int n]"
  by (subst show_nat.simps) simp

lemma show_nat_ge: "10 \<le> n \<Longrightarrow> show_nat n = show_nat (n div 10) @ [48 + int (n mod 10)]"
  by (subst show_nat.simps) simp

lemma show_nat_inj: "show_nat m = show_nat n \<Longrightarrow> m = n"
proof (induction m arbitrary: n rule: show_nat.induct)
  case (1 m)
  show ?case
  proof (cases "m < 10 \<or> n < 10")
    case True
    have len: "show_nat k = [c] \<Longrightarrow> k < 10" for k c
      by (rule ccontr) (auto simp: show_nat_ge show_nat.simps[of "k div 10"] split: if_splits)
    have "m < 10 \<and> n < 10"
      using True "1.prems" len by (metis show_nat_small)
    with "1.prems" show ?thesis by (simp add: show_nat_small)
  next
    case False
    with "1.prems" have "show_nat (m div 10) = show_nat (n div 10)" "m mod 10 = n mod 10"
      by (auto simp: show_nat_ge)
    with "1.IH" False have "m div 10 = n div 10" by simp
    with \<open>m mod 10 = n mod 10\<close> show ?thesis by (metis div_mult_mod_eq)
  qed
qed

lemma has_prefix_iff: "has_prefix s p \<longleftrightarrow> (\<exists>t. s = p @ t)"
  unfolding has_prefix_def by (metis append_eq_conv_conj)

lemma has_prefix_append [simp]: "has_prefix (p @ s) p"
  by (simp add: has_prefix_def)

lemma has_suffix_iff: "has_suffix s p \<longleftrightarrow> (\<exists>t. s = t @ p)"
proof
  assume "has_suffix s p"
  then show "\<exists>t. s = t @ p" unfolding has_suffix_def by (metis append_take_drop_id)
qed (auto simp: has_suffix_def)

lemma join_Cons: "xs \<noteq> [] \<Longrightarrow> join sep (x # xs) = x @ sep @ join sep xs"
  by (cases xs) auto

lemma join_append:
  "xs \<noteq> [] \<Longrightarrow> ys \<noteq> [] \<Longrightarrow> join sep (xs @ ys) = join sep xs @ sep @ join sep ys"
  by (induction sep xs rule: join.induct) (auto simp: join_Cons)

lemma split_from_nonempty: "split_from sep cur s \<noteq> []"
  by (induction sep cur s rule: split_from.induct) (subst split_from.simps, auto)

lemma split_nonempty [simp]: "split sep s \<noteq> []"
  by (simp add: split_def split_from_nonempty)

lemma join_split_from: "join sep (split_from sep cur s) = cur @ s"
proof (induction sep cur s rule: split_from.induct)
  case (1 sep cur s)
  show ?case
  proof (cases "s = []")
    case True then show ?thesis by (subst split_from.simps) simp
  next
    case ne: False
    show ?thesis
    proof (cases "sep \<noteq> [] \<and> has_prefix s sep")
      case True
      with ne 1 have "join sep (split_from sep [] (drop (length sep) s)) = drop (length sep) s" by simp
      moreover from True have "s = sep @ drop (length sep) s"
        unfolding has_prefix_def by (metis append_take_drop_id)
      ultimately show ?thesis
        using True ne by (subst split_from.simps) (simp add: join_Cons split_from_nonempty)
    next
      case False
      with ne 1 have "join sep (split_from sep (cur @ [hd s]) (tl s)) = (cur @ [hd s]) @ tl s" by simp
      with ne False show ?thesis by (subst split_from.simps) auto
    qed
  qed
qed

lemma join_split: "join sep (split sep s) = s"
  by (simp add: split_def join_split_from)

lemma trim_func_Nil [simp]: "trim_func P [] = []"
  by (simp add: trim_func_def)

lemma dropWhile_rev_all: "dropWhile P xs = [] \<longleftrightarrow> (\<forall>x\<in>set xs. P x)"
  by (simp add: dropWhile_eq_Nil_conv)

lemma trim_func_empty_iff: "trim_func P s = [] \<longleftrightarrow> (\<forall>c\<in>set s. P c)"
proof
  assume "trim_func P s = []"
  then have "\<forall>c\<in>set (dropWhile P s). P c"
    by (simp add: trim_func_def dropWhile_rev_all)
  then have "dropWhile P s = []" by (cases "dropWhile P s") (auto simp: dropWhile_eq_Cons_conv)
  then show "\<forall>c\<in>set s. P c" by (simp add: dropWhile_rev_all)
next
  assume "\<forall>c\<in>set s. P c"
  then have "dropWhile P s = []" by (simp add: dropWhile_rev_all)
  then show "trim_func P s = []" unfolding trim_func_def by (simp only: rev.simps dropWhile.simps)
qed

lemma trim_func_ends:
  assumes "trim_func P s \<noteq> []"
  shows "\<not> P (hd (trim_func P s))" "\<not> P (last (trim_func P s))"
proof -
  let ?d = "dropWhile P s" let ?e = "dropWhile P (rev ?d)"
  have e: "?e \<noteq> []" using assms by (simp add: trim_func_def)
  then have "\<not> P (hd ?e)" by (rule hd_dropWhile)
  with e show "\<not> P (last (trim_func P s))" by (simp add: trim_func_def last_rev)
  from e have d: "?d \<noteq> []" by (metis dropWhile.simps(1) rev.simps(1))
  then have hd: "\<not> P (hd ?d)" by (rule hd_dropWhile)
  have "last (rev ?d) = hd ?d" using d by (simp add: last_rev)
  moreover have "last ?e = last (rev ?d)" using e by (metis dropWhile_append3 last_appendR takeWhile_dropWhile_id)
  ultimately have "last ?e = hd ?d" by simp
  with e hd show "\<not> P (hd (trim_func P s))" by (simp add: trim_func_def hd_rev)
qed

lemma trim_func_idem: "trim_func P (trim_func P s) = trim_func P s"
proof (cases "trim_func P s")
  case (Cons c t)
  let ?t = "trim_func P s"
  have ne: "?t \<noteq> []" using Cons by simp
  have "dropWhile P ?t = ?t" using trim_func_ends(1)[OF ne] ne by (cases ?t) auto
  moreover have "dropWhile P (rev ?t) = rev ?t"
    using trim_func_ends(2)[OF ne] ne by (cases "rev ?t") (auto simp: last_rev hd_rev simp flip: hd_rev)
  ultimately show ?thesis by (simp add: trim_func_def[of P ?t])
qed simp

lemma text_le_refl [simp]: "text_le x x"
  by (induction x) auto

lemma text_le_total: "text_le x y \<or> text_le y x"
  by (induction x y rule: text_le.induct) auto

lemma text_le_trans: "text_le x y \<Longrightarrow> text_le y z \<Longrightarrow> text_le x z"
  by (induction x y arbitrary: z rule: text_le.induct) (auto elim: text_le.elims)

lemma text_le_antisym: "text_le x y \<Longrightarrow> text_le y x \<Longrightarrow> x = y"
  by (induction x y rule: text_le.induct) (auto elim: text_le.elims)

lemma mset_insert_text: "mset (insert_text x xs) = {#x#} + mset xs"
  by (induction xs) auto

lemma mset_sort_texts [simp]: "mset (sort_texts xs) = mset xs"
  by (induction xs) (auto simp: sort_texts_def mset_insert_text)

lemma set_sort_texts [simp]: "set (sort_texts xs) = set xs"
  by (metis mset_sort_texts set_mset_mset)

lemma set_insert_text: "set (insert_text x xs) = insert x (set xs)"
  by (induction xs) auto

lemma sorted_insert_text:
  "sorted_wrt text_le xs \<Longrightarrow> sorted_wrt text_le (insert_text x xs)"
proof (induction xs)
  case (Cons y ys)
  then show ?case
    using text_le_total[of x y] by (auto simp: set_insert_text intro: text_le_trans)
qed simp

lemma sorted_sort_texts: "sorted_wrt text_le (sort_texts xs)"
  by (induction xs) (auto simp: sort_texts_def sorted_insert_text)

lemma wrap64_small: "- (2 ^ 63) \<le> x \<Longrightarrow> x < 2 ^ 63 \<Longrightarrow> wrap64 x = x"
  by (simp add: wrap64_def)

lemma in_table_Nil [simp]: "\<not> in_table [] r"
  by (simp add: in_table_def)

lemma in_table_Cons [simp]: "in_table ((lo, hi) # rs) r \<longleftrightarrow> (lo \<le> r \<and> r \<le> hi) \<or> in_table rs r"
  by (simp add: in_table_def)

lemma replace_all_Nil [simp]: "replace_all old new [] = []"
  by (subst replace_all.simps) simp

lemma replace_all_Cons:
  "replace_all old new (c # s) =
     (if old \<noteq> [] \<and> has_prefix (c # s) old then new @ replace_all old new (drop (length old) (c # s))
      else c # replace_all old new s)"
  by (subst replace_all.simps) simp

text \<open>Splitting at one character: no part holds it, and splitting undoes joining such parts.\<close>

lemma split_from_step:
  "split_from [c] cur [] = [cur]"
  "split_from [c] cur (c # s) = cur # split_from [c] [] s"
  "x \<noteq> c \<Longrightarrow> split_from [c] cur (x # s) = split_from [c] (cur @ [x]) s"
  by (subst split_from.simps, simp add: has_prefix_def)+

lemma split_from_no_sep: "c \<notin> set cur \<Longrightarrow> x \<in> set (split_from [c] cur s) \<Longrightarrow> c \<notin> set x"
proof (induction s arbitrary: cur)
  case (Cons a s)
  show ?case
  proof (cases "a = c")
    case True
    with Cons show ?thesis using Cons.IH[of "[]"] by (auto simp: split_from_step)
  next
    case False
    with Cons show ?thesis using Cons.IH[of "cur @ [a]"] by (simp add: split_from_step)
  qed
qed (simp add: split_from_step)

lemma split_no_sep: "x \<in> set (split [c] s) \<Longrightarrow> c \<notin> set x"
  unfolding split_def by (erule split_from_no_sep[rotated]) simp

lemma split_from_part: "c \<notin> set x \<Longrightarrow> split_from [c] cur (x @ s) = split_from [c] (cur @ x) s"
  by (induction x arbitrary: cur) (auto simp: split_from_step)

lemma split_from_join:
  "xs \<noteq> [] \<Longrightarrow> \<forall>x\<in>set xs. c \<notin> set x \<Longrightarrow> split_from [c] cur (join [c] xs) = (cur @ hd xs) # tl xs"
proof (induction xs arbitrary: cur)
  case (Cons x xs)
  note ih = Cons.IH and pr = Cons.prems
  show ?case
  proof (cases xs)
    case Nil
    with pr show ?thesis using split_from_part[of c x cur "[]"] by (simp add: split_from_step)
  next
    case (Cons y ys)
    have "split_from [c] cur (x @ c # join [c] xs) = (cur @ x) # split_from [c] [] (join [c] xs)"
      using pr by (simp add: split_from_part split_from_step)
    with ih[of "[]"] pr Cons show ?thesis by simp
  qed
qed simp

lemma split_join: "xs \<noteq> [] \<Longrightarrow> \<forall>x\<in>set xs. c \<notin> set x \<Longrightarrow> split [c] (join [c] xs) = xs"
  using split_from_join[of xs c "[]"] by (simp add: split_def)

lemma split_last: "c \<notin> set x \<Longrightarrow> split [c] (t @ c # x) = split [c] t @ [x]"
proof -
  assume x: "c \<notin> set x"
  have "join [c] (split [c] t @ [x]) = t @ c # x" by (simp add: join_append join_split)
  then show ?thesis using split_join[of "split [c] t @ [x]" c] x split_no_sep[of _ c t] by fastforce
qed

text \<open>Every maximal run of a class, as \<^verbatim>\<open>[class]+\<close> finds them.\<close>

function find_runs :: "('a \<Rightarrow> bool) \<Rightarrow> 'a list \<Rightarrow> 'a list list" where
  "find_runs P [] = []"
| "find_runs P (c # s) =
     (if P c then (c # takeWhile P s) # find_runs P (dropWhile P s) else find_runs P s)"
  by pat_completeness auto
termination
  by (relation "measure (\<lambda>(P, s). length s)") (auto simp: length_dropWhile_le le_imp_less_Suc)

end
