(* ===== verification/Enums.thy ===== *)
theory Enums
  imports Prelude "HOL-Library.Word"
begin

text \<open>
  \<^verbatim>\<open>internal/domain/enums.go\<close>: the closed sets a document is described in, as the \<^verbatim>\<open>uint8\<close> values
  they are, and the text each value persists as.  The locale \<open>enum_table\<close> states what a table of
  names owes its readers and is interpreted on every table of the package.
\<close>

subsection \<open>Values\<close>

type_synonym Quality = "8 word"
type_synonym ChunkKind = "8 word"
type_synonym SourceKind = "8 word"
type_synonym StructureSource = "8 word"

definition QualityOK :: Quality where "QualityOK = 1"
definition QualityDegraded :: Quality where "QualityDegraded = 2"
definition QualityFailed :: Quality where "QualityFailed = 3"

definition KindProse :: ChunkKind where "KindProse = 1"
definition KindKeywordReference :: ChunkKind where "KindKeywordReference = 2"

definition SourceKindFile :: SourceKind where "SourceKindFile = 1"
definition SourceKindSite :: SourceKind where "SourceKindSite = 2"
definition SourceKindUpload :: SourceKind where "SourceKindUpload = 3"

definition SourceOutline :: StructureSource where "SourceOutline = 1"
definition SourceFrontTOC :: StructureSource where "SourceFrontTOC = 2"
definition SourceSidebarDOM :: StructureSource where "SourceSidebarDOM = 3"
definition SourceIndexPage :: StructureSource where "SourceIndexPage = 4"
definition SourceFontHeuristic :: StructureSource where "SourceFontHeuristic = 5"
definition SourceURLPath :: StructureSource where "SourceURLPath = 6"
definition SourceATXHeadings :: StructureSource where "SourceATXHeadings = 7"
definition SourceHTMLNesting :: StructureSource where "SourceHTMLNesting = 8"
definition SourceHeadingStyles :: StructureSource where "SourceHeadingStyles = 9"
definition SourceBlankLines :: StructureSource where "SourceBlankLines = 10"
definition SourceUnknown :: StructureSource where "SourceUnknown = 11"

lemmas quality_defs = QualityOK_def QualityDegraded_def QualityFailed_def
lemmas kind_defs = KindProse_def KindKeywordReference_def
lemmas sourceKind_defs = SourceKindFile_def SourceKindSite_def SourceKindUpload_def
lemmas source_defs = SourceOutline_def SourceFrontTOC_def SourceSidebarDOM_def SourceIndexPage_def
  SourceFontHeuristic_def SourceURLPath_def SourceATXHeadings_def SourceHTMLNesting_def
  SourceHeadingStyles_def SourceBlankLines_def SourceUnknown_def

definition MarkedUp :: "StructureSource \<Rightarrow> bool" where
  "MarkedUp s = (s = SourceATXHeadings \<or> s = SourceHTMLNesting \<or> s = SourceHeadingStyles)"

subsection \<open>Text tables\<close>

text \<open>A table's \<^verbatim>\<open>names\<close> map is an association list in the order it is written, and its \<^verbatim>\<open>values\<close>
  map the inverse that \<^verbatim>\<open>newEnumText\<close> builds.\<close>

record enumText =
  enumNames :: "(8 word \<times> gostring) list"
  enumValues :: "(gostring \<times> 8 word) list"
  enumKind :: gostring

datatype enum_error = UnknownValue gostring "8 word" | UnknownText gostring gostring

definition newEnumText :: "gostring \<Rightarrow> (8 word \<times> gostring) list \<Rightarrow> enumText" where
  "newEnumText kind names =
     \<lparr>enumNames = names, enumValues = map (\<lambda>(value, name). (name, value)) names, enumKind = kind\<rparr>"

definition enum_name :: "enumText \<Rightarrow> 8 word \<Rightarrow> gostring" where
  "enum_name e value =
     (case map_of (enumNames e) value of
        Some name \<Rightarrow> name
      | None \<Rightarrow> enumKind e @ lit ''('' @ show_nat (unat value) @ lit '')'')"

definition enum_marshal :: "enumText \<Rightarrow> 8 word \<Rightarrow> enum_error + gostring" where
  "enum_marshal e value =
     (case map_of (enumNames e) value of
        Some name \<Rightarrow> Inr name
      | None \<Rightarrow> Inl (UnknownValue (enumKind e) value))"

definition enum_parse :: "enumText \<Rightarrow> gostring \<Rightarrow> enum_error + 8 word" where
  "enum_parse e t =
     (case map_of (enumValues e) t of
        Some value \<Rightarrow> Inr value
      | None \<Rightarrow> Inl (UnknownText (enumKind e) t))"

text \<open>\<^verbatim>\<open>unmarshal\<close> writes through a pointer: the second component is what the target holds after.\<close>

definition enum_unmarshal :: "enumText \<Rightarrow> gostring \<Rightarrow> 8 word \<Rightarrow> enum_error option \<times> 8 word" where
  "enum_unmarshal e t into =
     (case enum_parse e t of Inl err \<Rightarrow> (Some err, into) | Inr value \<Rightarrow> (None, value))"

definition FormatSite :: gostring where
  "FormatSite = lit ''site''"

definition qualityText :: enumText where
  "qualityText = newEnumText (lit ''quality'')
     [(QualityOK, lit ''ok''), (QualityDegraded, lit ''degraded''), (QualityFailed, lit ''failed'')]"

definition chunkKindText :: enumText where
  "chunkKindText = newEnumText (lit ''chunk kind'')
     [(KindProse, lit ''prose''), (KindKeywordReference, lit ''keyword-reference'')]"

definition sourceKindText :: enumText where
  "sourceKindText = newEnumText (lit ''source kind'')
     [(SourceKindFile, lit ''file''), (SourceKindSite, FormatSite), (SourceKindUpload, lit ''upload'')]"

definition structureSourceText :: enumText where
  "structureSourceText = newEnumText (lit ''structure source'')
     [(SourceOutline, lit ''outline''), (SourceFrontTOC, lit ''front_toc''),
      (SourceSidebarDOM, lit ''sidebar_dom''), (SourceIndexPage, lit ''index_page''),
      (SourceFontHeuristic, lit ''font_heuristic''), (SourceURLPath, lit ''url_path''),
      (SourceATXHeadings, lit ''atx_headings''), (SourceHTMLNesting, lit ''h1_h6_nesting''),
      (SourceHeadingStyles, lit ''heading_styles''),
      (SourceBlankLines, lit ''none (blank-line paragraphs)''), (SourceUnknown, lit ''unknown'')]"

definition StructureSource_String :: "StructureSource \<Rightarrow> gostring" where
  "StructureSource_String s = enum_name structureSourceText s"

definition ParseStructureSource :: "gostring \<Rightarrow> enum_error + StructureSource" where
  "ParseStructureSource t = enum_parse structureSourceText t"

definition Quality_String :: "Quality \<Rightarrow> gostring" where
  "Quality_String q = enum_name qualityText q"

definition Quality_UnmarshalText :: "gostring \<Rightarrow> Quality \<Rightarrow> enum_error option \<times> Quality" where
  "Quality_UnmarshalText t q = enum_unmarshal qualityText t q"

subsection \<open>What a table of names owes its readers\<close>

locale enum_table =
  fixes e :: enumText
  assumes built: "enumValues e = map (\<lambda>(value, name). (name, value)) (enumNames e)"
    and distinct_values: "distinct (map fst (enumNames e))"
    and distinct_names: "distinct (map snd (enumNames e))"
begin

lemma value_of_name: "map_of (enumNames e) v = Some t \<longleftrightarrow> map_of (enumValues e) t = Some v"
proof -
  have "distinct (map fst (enumValues e))"
    using distinct_names by (simp add: built comp_def case_prod_unfold)
  then have "map_of (enumValues e) t = Some v \<longleftrightarrow> (t, v) \<in> set (enumValues e)"
    by (rule map_of_eq_Some_iff)
  moreover have "map_of (enumNames e) v = Some t \<longleftrightarrow> (v, t) \<in> set (enumNames e)"
    using distinct_values by (rule map_of_eq_Some_iff)
  ultimately show ?thesis by (auto simp: built)
qed

lemma parse_marshal: "enum_marshal e v = Inr t \<longleftrightarrow> enum_parse e t = Inr v"
  unfolding enum_marshal_def enum_parse_def
  using value_of_name[of v t] by (auto split: option.splits)

lemma marshal_name: "enum_marshal e v = Inr t \<Longrightarrow> enum_name e v = t"
  by (auto simp: enum_marshal_def enum_name_def split: option.splits)

lemma marshal_inj: "enum_marshal e v = Inr t \<Longrightarrow> enum_marshal e w = Inr t \<Longrightarrow> v = w"
  by (simp add: parse_marshal)

end

lemma newEnumText_sel [simp]:
  "enumNames (newEnumText k ns) = ns"
  "enumValues (newEnumText k ns) = map (\<lambda>(value, name). (name, value)) ns"
  "enumKind (newEnumText k ns) = k"
  by (simp_all add: newEnumText_def)

interpretation quality: enum_table qualityText
  by unfold_locales (simp_all add: qualityText_def quality_defs lit_def)

interpretation chunkKind: enum_table chunkKindText
  by unfold_locales (simp_all add: chunkKindText_def kind_defs lit_def)

interpretation sourceKind: enum_table sourceKindText
  by unfold_locales (simp_all add: sourceKindText_def sourceKind_defs FormatSite_def lit_def)

interpretation structureSource: enum_table structureSourceText
  by unfold_locales (simp_all add: structureSourceText_def source_defs lit_def)

end
