(* ===== verification/Float64.thy ===== *)
theory Float64
  imports Complex_Main "HOL-Library.Log_Nat"
begin

text \<open>
  Go's \<^verbatim>\<open>float64\<close>, for the magnitudes the program computes with: a value is its exact rational, and
  \<open>rnd\<close> rounds a rational to the nearest 53-bit significand, ties to even, as every arithmetic operation
  of IEEE 754 does.  Overflow, subnormals and NaN do not arise from counts and their ratios.  The
  lemmas bound the error of \<open>rnd\<close>; the last decides a comparison of two rounded ratios by integers.
\<close>

definition round_even :: "rat \<Rightarrow> int" where
  "round_even x =
     (let f = \<lfloor>x\<rfloor>; d = x - of_int f
      in if d < 1 / 2 then f
         else if 1 / 2 < d then f + 1
         else if even f then f else f + 1)"

definition ilog2 :: "rat \<Rightarrow> int" where
  "ilog2 x =
     (let (p, q) = quotient_of x; k = bitlen p - bitlen q
      in if 2 powi k \<le> x then k else k - 1)"

definition rnd :: "rat \<Rightarrow> rat" where
  "rnd x =
     (if x = 0 then 0
      else let e = ilog2 \<bar>x\<bar>
           in of_int (round_even (x * 2 powi (52 - e))) * 2 powi (e - 52))"

lemma round_even_of_int [simp]: "round_even (of_int n) = n"
  by (simp add: round_even_def)

lemma round_even_bounds: "\<bar>of_int (round_even x) - x\<bar> \<le> 1 / 2"
proof -
  have "of_int \<lfloor>x\<rfloor> \<le> x" "x < of_int \<lfloor>x\<rfloor> + 1" by linarith+
  then show ?thesis
    unfolding round_even_def Let_def by (simp add: abs_if) linarith
qed

lemma round_even_between:
  assumes "of_int a \<le> x" "x \<le> of_int b"
  shows "a \<le> round_even x" "round_even x \<le> b"
proof -
  have "of_int a - 1 / 2 \<le> (of_int (round_even x) :: rat)"
    using round_even_bounds[of x] assms by (simp add: abs_if split: if_splits)
  moreover have "of_int (round_even x) \<le> (of_int b :: rat) + 1 / 2"
    using round_even_bounds[of x] assms by (simp add: abs_if split: if_splits)
  ultimately have "(of_int (a - 1) :: rat) < of_int (round_even x)"
    "(of_int (round_even x) :: rat) < of_int (b + 1)" by simp_all
  then show "a \<le> round_even x" "round_even x \<le> b"
    unfolding of_int_less_iff by simp_all
qed

lemma round_even_mono: "x \<le> y \<Longrightarrow> round_even x \<le> round_even y"
proof (cases "\<lfloor>x\<rfloor> = \<lfloor>y\<rfloor>")
  case True
  assume "x \<le> y"
  with True show ?thesis by (auto simp: round_even_def Let_def)
next
  case False
  assume "x \<le> y"
  with False have "\<lfloor>x\<rfloor> < \<lfloor>y\<rfloor>" using floor_mono by fastforce
  then have "round_even x \<le> \<lfloor>x\<rfloor> + 1" "\<lfloor>x\<rfloor> + 1 \<le> \<lfloor>y\<rfloor>" "\<lfloor>y\<rfloor> \<le> round_even y"
    using round_even_between[of _ x "\<lfloor>x\<rfloor> + 1"] round_even_between[of "\<lfloor>y\<rfloor>" y "\<lceil>y\<rceil>"]
    by (auto simp: round_even_def Let_def)
  then show ?thesis by linarith
qed

lemma powi_pos [simp]: "(0::rat) < 2 powi k"
  by (simp add: zero_less_power_int)

lemma powi_split: "(2::rat) powi (a + b) = 2 powi a * 2 powi b"
  by (simp add: power_int_add)

lemma powi_mono: "a \<le> b \<Longrightarrow> (2::rat) powi a \<le> 2 powi b"
  by (simp add: power_int_increasing)

lemma powi_less_mono: "(2::rat) powi a < 2 powi b \<Longrightarrow> a < b"
  by (metis linorder_not_less powi_mono)

lemma bitlen_rat_bounds:
  assumes "0 < (p::int)"
  shows "2 powi (bitlen p - 1) \<le> (of_int p :: rat)" "(of_int p :: rat) < 2 powi (bitlen p)"
proof -
  have b: "0 < bitlen p" using assms by (simp add: bitlen_def compute_floorlog)
  from assms have "2 ^ nat (bitlen p - 1) \<le> p \<and> p < 2 ^ nat (bitlen p)" by (rule bitlen_bounds)
  then have "(2 ^ nat (bitlen p - 1) :: rat) \<le> of_int p" "of_int p < (2 ^ nat (bitlen p) :: rat)"
    by (metis of_int_le_iff of_int_numeral of_int_power, metis of_int_less_iff of_int_numeral of_int_power)
  with b show "2 powi (bitlen p - 1) \<le> (of_int p :: rat)" "(of_int p :: rat) < 2 powi (bitlen p)"
    by (simp_all add: power_int_def)
qed

lemma ilog2_bounds:
  assumes "0 < x"
  shows "2 powi ilog2 x \<le> x" "x < 2 powi (ilog2 x + 1)"
proof -
  obtain p q where pq: "quotient_of x = (p, q)" by fastforce
  have q: "0 < q" and x: "x = of_int p / of_int q"
    using quotient_of_denom_pos[OF pq] quotient_of_div[OF pq] by auto
  from assms x q have p: "0 < p" by (simp add: zero_less_divide_iff)
  let ?k = "bitlen p - bitlen q"
  note bp = bitlen_rat_bounds[OF p] and bq = bitlen_rat_bounds[OF q]
  have "x < 2 powi bitlen p / 2 powi (bitlen q - 1)"
    unfolding x using bp(2) bq(1) q p by (intro frac_less) auto
  also have "\<dots> = 2 powi (?k + 1)"
    by (simp add: power_int_diff power_int_add field_simps)
  finally have hi: "x < 2 powi (?k + 1)" .
  have "2 powi (bitlen p - 1) / 2 powi (bitlen q) < x"
    unfolding x using bp(1) bq(2) q p by (intro frac_less2) auto
  then have lo: "2 powi (?k - 1) < x"
    by (simp add: power_int_diff power_int_add field_simps)
  show "2 powi ilog2 x \<le> x" "x < 2 powi (ilog2 x + 1)"
    using hi lo by (auto simp: ilog2_def pq Let_def)
qed

lemma rnd_0 [simp]: "rnd 0 = 0"
  by (simp add: rnd_def)

lemma scaled_bounds:
  assumes "0 < x"
  shows "2 ^ 52 \<le> x * 2 powi (52 - ilog2 x)" "x * 2 powi (52 - ilog2 x) < 2 ^ 53"
proof -
  let ?e = "ilog2 x"
  have "2 powi ?e * 2 powi (52 - ?e) \<le> x * 2 powi (52 - ?e)"
    using ilog2_bounds[OF assms] by (intro mult_right_mono) (auto simp: less_imp_le)
  then show "2 ^ 52 \<le> x * 2 powi (52 - ?e)"
    by (simp flip: power_int_add)
  have "x * 2 powi (52 - ?e) < 2 powi (?e + 1) * 2 powi (52 - ?e)"
    using ilog2_bounds[OF assms] by (intro mult_strict_right_mono) auto
  then show "x * 2 powi (52 - ?e) < 2 ^ 53"
    by (simp flip: power_int_add)
qed

lemma rnd_pos_def:
  "0 < x \<Longrightarrow> rnd x = of_int (round_even (x * 2 powi (52 - ilog2 x))) * 2 powi (ilog2 x - 52)"
  by (simp add: rnd_def Let_def)

lemma rnd_binade:
  assumes "0 < x"
  shows "2 powi ilog2 x \<le> rnd x" "rnd x \<le> 2 powi (ilog2 x + 1)"
proof -
  let ?e = "ilog2 x" and ?m = "round_even (x * 2 powi (52 - ilog2 x))"
  have "2 ^ 52 \<le> ?m" "?m \<le> 2 ^ 53"
    using scaled_bounds[OF assms] round_even_between[of "2 ^ 52" _ "2 ^ 53"] by auto
  then have "(2 ^ 52 :: rat) \<le> of_int ?m" "of_int ?m \<le> (2 ^ 53 :: rat)"
    by (metis of_int_le_iff of_int_numeral of_int_power)+
  then have "2 ^ 52 * 2 powi (?e - 52) \<le> rnd x" "rnd x \<le> 2 ^ 53 * 2 powi (?e - 52)"
    unfolding rnd_pos_def[OF assms] by (auto intro!: mult_right_mono simp: less_imp_le)
  then show "2 powi ?e \<le> rnd x" "rnd x \<le> 2 powi (?e + 1)"
    by (simp_all add: power_int_diff power_int_add)
qed

lemma rnd_pos: "0 < x \<Longrightarrow> 0 < rnd x"
  using rnd_binade(1) powi_pos less_le_trans by blast

lemma rnd_nonneg: "0 \<le> x \<Longrightarrow> 0 \<le> rnd x"
  using rnd_pos[of x] by (cases "x = 0") auto

lemma ilog2_mono:
  assumes "0 < x" "x \<le> y"
  shows "ilog2 x \<le> ilog2 y"
proof -
  have "(2::rat) powi ilog2 x < 2 powi (ilog2 y + 1)"
    using ilog2_bounds[OF assms(1)] ilog2_bounds[of y] assms by linarith
  then show ?thesis using powi_less_mono by fastforce
qed

lemma rnd_mono:
  assumes "0 \<le> x" "x \<le> y"
  shows "rnd x \<le> rnd y"
proof (cases "x = 0")
  case True
  with assms show ?thesis by (simp add: rnd_nonneg)
next
  case False
  with assms have xy: "0 < x" "0 < y" by auto
  show ?thesis
  proof (cases "ilog2 x = ilog2 y")
    case True
    have "round_even (x * 2 powi (52 - ilog2 y)) \<le> round_even (y * 2 powi (52 - ilog2 y))"
      using assms by (intro round_even_mono mult_right_mono) (auto simp: less_imp_le)
    then show ?thesis
      unfolding rnd_pos_def[OF xy(1)] rnd_pos_def[OF xy(2)] True
      by (intro mult_right_mono) (auto simp: less_imp_le)
  next
    case False
    with ilog2_mono[OF xy(1) assms(2)] have "ilog2 x + 1 \<le> ilog2 y" by simp
    then have "(2::rat) powi (ilog2 x + 1) \<le> 2 powi ilog2 y" by (rule powi_mono)
    then show ?thesis using rnd_binade[OF xy(1)] rnd_binade[OF xy(2)] by linarith
  qed
qed

lemma rnd_error:
  assumes "0 \<le> x"
  shows "\<bar>rnd x - x\<bar> \<le> x / 2 ^ 53"
proof (cases "x = 0")
  case True then show ?thesis by simp
next
  case False
  with assms have x: "0 < x" by simp
  let ?e = "ilog2 x"
  let ?m = "x * 2 powi (52 - ?e)"
  have xm: "x = ?m * 2 powi (?e - 52)"
    by (simp add: mult.assoc flip: power_int_add)
  have "rnd x - x = (of_int (round_even ?m) - ?m) * 2 powi (?e - 52)"
    using xm by (simp add: rnd_pos_def[OF x] left_diff_distrib)
  then have "\<bar>rnd x - x\<bar> = \<bar>of_int (round_even ?m) - ?m\<bar> * 2 powi (?e - 52)"
    by (simp add: abs_mult)
  also have "\<dots> \<le> 1 / 2 * 2 powi (?e - 52)"
    using round_even_bounds[of ?m] by (intro mult_right_mono) (auto simp: less_imp_le)
  also have "\<dots> = 2 powi ?e / 2 ^ 53"
    by (simp add: power_int_diff)
  also have "\<dots> \<le> x / 2 ^ 53"
    using ilog2_bounds[OF x] by (simp add: divide_right_mono)
  finally show ?thesis .
qed

lemma rnd_le: "0 \<le> x \<Longrightarrow> rnd x \<le> x + x / 2 ^ 53"
  and rnd_ge: "0 \<le> x \<Longrightarrow> x - x / 2 ^ 53 \<le> rnd x"
  using rnd_error[of x] by linarith+

lemma rnd_of_nat:
  assumes "n < 2 ^ 53"
  shows "rnd (of_nat n) = of_nat n"
proof (cases "n = 0")
  case True then show ?thesis by simp
next
  case False
  let ?x = "of_nat n :: rat"
  let ?e = "ilog2 ?x"
  have x: "0 < ?x" "1 \<le> ?x" using False by auto
  have "(of_nat n :: rat) < of_nat (2 ^ 53)"
    using assms unfolding of_nat_less_iff .
  then have "(2::rat) powi ?e < 2 powi 53"
    using ilog2_bounds[OF x(1)] by simp
  then have e: "?e \<le> 52" using powi_less_mono by fastforce
  have "?x * 2 powi (52 - ?e) = of_int (int n * 2 ^ nat (52 - ?e))"
    using e by (simp add: power_int_def)
  then have "round_even (?x * 2 powi (52 - ?e)) = int n * 2 ^ nat (52 - ?e)"
    by (simp only: round_even_of_int)
  then have "rnd ?x = ?x * 2 powi (52 - ?e) * 2 powi (?e - 52)"
    using e by (simp add: rnd_pos_def[OF x(1)] power_int_def)
  then show ?thesis by (simp add: mult.assoc flip: power_int_add)
qed

theorem rnd_ratio_ge_iff:
  assumes "0 < b" "0 < q" "p * b \<le> 2 ^ 52"
  shows "rnd (of_nat p / of_nat q) \<le> rnd (of_nat a / of_nat b) \<longleftrightarrow> p * b \<le> a * q"
proof
  assume "p * b \<le> a * q"
  then have "(of_nat p :: rat) / of_nat q \<le> of_nat a / of_nat b"
    using assms by (simp add: field_simps flip: of_nat_mult)
  then show "rnd (of_nat p / of_nat q) \<le> rnd (of_nat a / of_nat b)"
    by (intro rnd_mono) auto
next
  let ?P = "of_nat p / of_nat q :: rat" and ?A = "of_nat a / of_nat b :: rat"
  assume le: "rnd ?P \<le> rnd ?A"
  show "p * b \<le> a * q"
  proof (rule ccontr)
    assume "\<not> p * b \<le> a * q"
    then have "a * q + 1 \<le> p * b" by simp
    then have gap: "(of_nat (a * q) :: rat) + 1 \<le> of_nat (p * b)"
      by (metis of_nat_1 of_nat_add of_nat_le_iff)
    have "?P - ?P / 2 ^ 53 \<le> ?A + ?A / 2 ^ 53"
      using rnd_error[of ?P] rnd_error[of ?A] le by (simp add: abs_le_iff)
    then have "(?P - ?P / 2 ^ 53) * (of_nat b * of_nat q)
        \<le> (?A + ?A / 2 ^ 53) * (of_nat b * of_nat q)"
      by (intro mult_right_mono) auto
    moreover have "?P * (of_nat b * of_nat q) = of_nat (p * b)"
      "?A * (of_nat b * of_nat q) = of_nat (a * q)" using assms by simp_all
    ultimately have "of_nat (p * b) - of_nat (p * b) / 2 ^ 53 \<le>
        (of_nat (a * q) + of_nat (a * q) / 2 ^ 53 :: rat)"
      by (simp only: left_diff_distrib distrib_right times_divide_eq_left)
    moreover have "(of_nat (p * b) :: rat) \<le> of_nat (2 ^ 52)"
      using assms(3) unfolding of_nat_le_iff .
    ultimately show False using gap by (simp del: of_nat_mult)
  qed
qed
end
