(* ===== verification/Document.thy ===== *)
theory Document
  imports Enums Float64
begin

text \<open>
  \<^verbatim>\<open>internal/domain/document.go\<close> and \<^verbatim>\<open>heading.go\<close>: what a document is once extracted, and the
  heading ancestry an adapter keeps while it reads one.  A pointer field is an \<^typ>\<open>'a option\<close>.
\<close>

subsection \<open>Blocks, extractions and chunks\<close>

record Block =
  Locator :: "(string \<times> int) list"
  Section :: "gostring option"
  PrintedPage :: "int option"
  blkURL :: "gostring option"
  blkFragment :: "gostring option"
  blkText :: gostring
  blkHeadingPath :: "gostring list"
  blkImageCount :: int
  FigureOnly :: bool
  Subdivision :: bool

text \<open>A diagnostics value is what a Go \<^verbatim>\<open>any\<close> holds there: an adapter's own ints, strings and string
  lists, or what \<^verbatim>\<open>encoding/json\<close> decodes.\<close>

datatype any =
    AnyNil
  | AnyBool bool
  | AnyInt int
  | AnyFloat rat
  | AnyString gostring
  | AnyStrings "gostring list"
  | AnyList "any list"
  | AnyMap "(string \<times> any) list"

record Extraction =
  Pages :: "(int \<times> gostring) list"
  Diagnostics :: "(string \<times> any) list"
  extPageCount :: "int option"
  extTitle :: gostring
  extFormat :: gostring
  Blocks :: "Block list"
  IndexTerms :: "(gostring \<times> gostring) list"

record Chunk =
  chkSection :: "gostring option"
  PageStart :: "int option"
  PageEnd :: "int option"
  PrintedPageStart :: "int option"
  chkURL :: "gostring option"
  chkFragment :: "gostring option"
  chkHeadingPath :: gostring
  chkText :: gostring
  Ordinal :: int
  chkImageCount :: int
  Kind :: ChunkKind

subsection \<open>The heading stack\<close>

record HeadingStack =
  stkPath :: "gostring list"

definition Push :: "int \<Rightarrow> gostring \<Rightarrow> HeadingStack \<Rightarrow> HeadingStack" where
  "Push level heading s =
     (let cut = level - 1;
          cut = (if cut < 0 then max (int (length (stkPath s)) + cut) 0 else cut);
          path = (if cut < int (length (stkPath s)) then take (nat cut) (stkPath s) else stkPath s);
          path = path @ replicate (nat (level - 1 - int (length path))) []
      in s\<lparr>stkPath := path @ [heading]\<rparr>)"

definition Path :: "HeadingStack \<Rightarrow> gostring list" where
  "Path s = stkPath s"

definition NewOffsetBlock :: "gostring list \<Rightarrow> int \<Rightarrow> gostring \<Rightarrow> Block" where
  "NewOffsetBlock headingPath offset t =
     \<lparr>Locator = [(''offset'', offset)], Section = None, PrintedPage = None, blkURL = None,
      blkFragment = None, blkText = t, blkHeadingPath = headingPath, blkImageCount = 0,
      FigureOnly = False, Subdivision = False\<rparr>"

definition NewExtraction ::
  "gostring \<Rightarrow> gostring \<Rightarrow> StructureSource \<Rightarrow> Block list \<Rightarrow> Extraction" where
  "NewExtraction title format source blocks =
     \<lparr>Pages = [], Diagnostics = [(''structure_source'', AnyString (StructureSource_String source))],
      extPageCount = None, extTitle = title, extFormat = format, Blocks = blocks, IndexTerms = []\<rparr>"

text \<open>Reading headings in document order.\<close>

fun pushAll :: "(int \<times> gostring) list \<Rightarrow> HeadingStack \<Rightarrow> HeadingStack" where
  "pushAll [] s = s"
| "pushAll ((level, heading) # hs) s = pushAll hs (Push level heading s)"

lemma Push_positive:
  assumes "1 \<le> level"
  shows "stkPath (Push level heading s) =
    take (nat (level - 1)) (stkPath s)
      @ replicate (nat (level - 1) - length (stkPath s)) [] @ [heading]"
  using assms
  by (auto simp: Push_def Let_def nat_diff_distrib min_def)

lemma Push_nonpositive:
  assumes "level \<le> 0"
  shows "stkPath (Push level heading s) =
    take (length (stkPath s) - nat (1 - level)) (stkPath s) @ [heading]"
proof -
  have "nat (max (int (length (stkPath s)) + (level - 1)) 0) = length (stkPath s) - nat (1 - level)"
    using assms by linarith
  with assms show ?thesis by (auto simp: Push_def Let_def)
qed

lemma Push_length: "1 \<le> level \<Longrightarrow> length (stkPath (Push level heading s)) = nat level"
  by (simp add: Push_positive min_def)

lemma Push_keeps_ancestors:
  "1 \<le> level \<Longrightarrow> i < nat (level - 1) \<Longrightarrow>
   stkPath (Push level heading s) ! i = (if i < length (stkPath s) then stkPath s ! i else [])"
  by (auto simp: Push_positive nth_append)

end
