(* ===== verification/Pystr.thy ===== *)
theory Pystr
  imports Prelude Float64
begin

text \<open>
  \<^verbatim>\<open>internal/pystr\<close>: the Python string semantics the ingest pipeline depends on.  The Unicode
  database behind Go's \<^verbatim>\<open>unicode\<close> package is data, so the predicates the package reads from it are
  the fields of a record \<open>unicode\<close> that every definition takes; \<open>unicode_ok\<close> states the facts of that
  database the theorems rest on, and \<open>ascii_unicode\<close> is an instance of it.
\<close>

record unicode =
  uLetter :: "rune \<Rightarrow> bool"  \<comment> \<open>unicode.IsLetter\<close>
  uNd :: "rune \<Rightarrow> bool"      \<comment> \<open>unicode.IsDigit, category Nd\<close>
  uNlNo :: "rune \<Rightarrow> bool"    \<comment> \<open>categories Nl and No\<close>
  uPrint :: "rune \<Rightarrow> bool"   \<comment> \<open>unicode.IsPrint\<close>
  uCased :: "rune \<Rightarrow> bool"   \<comment> \<open>IsUpper, IsLower, IsTitle, Other_Lowercase or Other_Uppercase\<close>
  uMarkLike :: "rune \<Rightarrow> bool" \<comment> \<open>categories Mn, Me, Cf, Lm and Sk\<close>
  uToLower :: "rune \<Rightarrow> rune" \<comment> \<open>unicode.ToLower\<close>

subsection \<open>pystr.go\<close>

definition spaceTable :: "(rune \<times> rune) list" where
  "spaceTable = [(0x0009, 0x000d), (0x001c, 0x0020), (0x0085, 0x0085), (0x00a0, 0x00a0),
     (0x1680, 0x1680), (0x2000, 0x200a), (0x2028, 0x2029), (0x202f, 0x202f), (0x205f, 0x205f),
     (0x3000, 0x3000)]"

definition lineBreakTable :: "(rune \<times> rune) list" where
  "lineBreakTable = [(0x000a, 0x000d), (0x001c, 0x001e), (0x0085, 0x0085), (0x2028, 0x2029)]"

definition IsSpace :: "rune \<Rightarrow> bool" where
  "IsSpace r = in_table spaceTable r"

definition IsWord :: "unicode \<Rightarrow> rune \<Rightarrow> bool" where
  "IsWord U r = (uLetter U r \<or> (uNd U r \<or> uNlNo U r) \<or> r = ch CHR ''_'')"

definition IsLetter :: "unicode \<Rightarrow> rune \<Rightarrow> bool" where
  "IsLetter U r = (uLetter U r \<or> uNlNo U r)"

definition Strip :: "gostring \<Rightarrow> gostring" where
  "Strip s = trim_func IsSpace s"

text \<open>The offset of the first line break and its width, both in runes, or \<open>None\<close> for \<open>-1\<close>.\<close>

fun firstLineBreak :: "gostring \<Rightarrow> (nat \<times> nat) option" where
  "firstLineBreak [] = None"
| "firstLineBreak (r # s) =
     (if \<not> in_table lineBreakTable r then map_option (\<lambda>(i, w). (Suc i, w)) (firstLineBreak s)
      else if r = 13 \<and> has_prefix s [10] then Some (0, 2)
      else Some (0, 1))"

lemma firstLineBreak_Some:
  assumes "firstLineBreak s = Some (i, w)"
  shows "0 < w" "i + w \<le> length s"
proof -
  have "0 < w \<and> i + w \<le> length s"
    using assms
  proof (induction s arbitrary: i)
    case (Cons r s)
    then show ?case
      by (auto simp: has_prefix_iff split: if_splits option.splits)
  qed simp
  then show "0 < w" "i + w \<le> length s" by auto
qed

function SplitLines :: "gostring \<Rightarrow> gostring list" where
  "SplitLines s =
     (if s = [] then []
      else case firstLineBreak s of
             None \<Rightarrow> [s]
           | Some (i, w) \<Rightarrow> take i s # SplitLines (drop (i + w) s))"
  by pat_completeness auto
termination
  by (relation "measure length") (auto dest: firstLineBreak_Some)

function SplitLinesKeepEnds :: "gostring \<Rightarrow> gostring list" where
  "SplitLinesKeepEnds s =
     (if s = [] then []
      else case firstLineBreak s of
             None \<Rightarrow> [s]
           | Some (i, w) \<Rightarrow> take (i + w) s # SplitLinesKeepEnds (drop (i + w) s))"
  by pat_completeness auto
termination
  by (relation "measure length") (auto dest: firstLineBreak_Some)

declare SplitLines.simps [simp del] SplitLinesKeepEnds.simps [simp del]

definition hexDigit :: "nat \<Rightarrow> rune" where
  "hexDigit d = (if d < 10 then 48 + int d else 87 + int d)"

fun hex :: "nat \<Rightarrow> nat \<Rightarrow> gostring" where
  "hex 0 n = []"
| "hex (Suc w) n = hex w (n div 16) @ [hexDigit (n mod 16)]"

definition escapeRune :: "unicode \<Rightarrow> rune \<Rightarrow> rune \<Rightarrow> gostring" where
  "escapeRune U r quote =
     (if r = quote then lit [CHR 0x5c] @ [r]
      else if r = 0x5c then lit [CHR 0x5c, CHR 0x5c]
      else if r = 10 then lit [CHR 0x5c, CHR ''n'']
      else if r = 13 then lit [CHR 0x5c, CHR ''r'']
      else if r = 9 then lit [CHR 0x5c, CHR ''t'']
      else if uPrint U r then [r]
      else if r < 0x100 then lit [CHR 0x5c, CHR ''x''] @ hex 2 (nat r)
      else if r < 0x10000 then lit [CHR 0x5c, CHR ''u''] @ hex 4 (nat r)
      else lit [CHR 0x5c, CHR ''U''] @ hex 8 (nat r))"

definition Repr :: "unicode \<Rightarrow> gostring \<Rightarrow> gostring" where
  "Repr U s =
     (let quote = (if 39 \<in> set s \<and> 34 \<notin> set s then 34 else 39)
      in quote # concat (map (\<lambda>r. escapeRune U r quote) s) @ [quote])"

subsection \<open>number.go\<close>

datatype number_error = ErrNotDigits

definition Round :: "rat \<Rightarrow> nat \<Rightarrow> rat" where
  "Round x digits = rnd (of_int (round_even (x * 10 ^ digits)) / 10 ^ digits)"

definition math_Mod :: "rat \<Rightarrow> rat \<Rightarrow> rat" where
  "math_Mod x y = x - y * (if 0 \<le> x / y then of_int \<lfloor>x / y\<rfloor> else of_int \<lceil>x / y\<rceil>)"

definition FloorDiv :: "rat \<Rightarrow> rat \<Rightarrow> rat" where
  "FloorDiv x y =
     (let md = math_Mod x y;
          dv = rnd (rnd (x - md) / y);
          dv = (if md \<noteq> 0 \<and> (y < 0) \<noteq> (md < 0) then rnd (dv - 1) else dv)
      in if dv = 0 then 0
         else let fl = of_int \<lfloor>dv\<rfloor> in if 1 / 2 < rnd (dv - fl) then rnd (fl + 1) else fl)"

text \<open>The scan back to the first digit of a run.  No table of code points holds a negative one, so
  the scan stops at \<open>0\<close> at the latest.\<close>

function digitStart :: "unicode \<Rightarrow> rune \<Rightarrow> rune" where
  "digitStart U start = (if 0 < start \<and> uNd U (start - 1) then digitStart U (start - 1) else start)"
  by pat_completeness auto
termination
  by (relation "measure (\<lambda>(U, start). nat start)") auto

declare digitStart.simps [simp del]

definition digitValue :: "unicode \<Rightarrow> rune \<Rightarrow> int option" where
  "digitValue U r =
     (if 48 \<le> r \<and> r \<le> 57 then Some (r - 48)
      else if \<not> uNd U r then None
      else Some ((r - digitStart U r) mod 10))"

fun atoiLoop :: "unicode \<Rightarrow> int \<Rightarrow> gostring \<Rightarrow> number_error + int" where
  "atoiLoop U n [] = Inr n"
| "atoiLoop U n (r # s) =
     (case digitValue U r of
        None \<Rightarrow> Inl ErrNotDigits
      | Some d \<Rightarrow> atoiLoop U (wrap64 (wrap64 (n * 10) + d)) s)"

definition Atoi :: "unicode \<Rightarrow> gostring \<Rightarrow> number_error + int" where
  "Atoi U s = (if s = [] then Inl ErrNotDigits else atoiLoop U 0 s)"

definition IsDigits :: "unicode \<Rightarrow> gostring \<Rightarrow> bool" where
  "IsDigits U s = (case Atoi U s of Inl _ \<Rightarrow> False | Inr _ \<Rightarrow> True)"

definition wordMedial :: "(rune \<times> rune) list" where
  "wordMedial = [(0x0027, 0x0027), (0x002e, 0x002e), (0x003a, 0x003a), (0x00b7, 0x00b7),
     (0x0387, 0x0387), (0x055f, 0x055f), (0x05f4, 0x05f4), (0x2018, 0x2019), (0x2024, 0x2024),
     (0x2027, 0x2027), (0xfe13, 0xfe13), (0xfe52, 0xfe52), (0xfe55, 0xfe55), (0xff07, 0xff07),
     (0xff0e, 0xff0e), (0xff1a, 0xff1a)]"

definition isCased :: "unicode \<Rightarrow> rune \<Rightarrow> bool" where
  "isCased U r = uCased U r"

definition isCaseIgnorable :: "unicode \<Rightarrow> rune \<Rightarrow> bool" where
  "isCaseIgnorable U r = (uMarkLike U r \<or> in_table wordMedial r)"

text \<open>The two scans of \<^verbatim>\<open>endsWord\<close> skip case-ignorable runes to the left and to the right of
  position \<open>i\<close>.\<close>

definition endsWord :: "unicode \<Rightarrow> gostring \<Rightarrow> nat \<Rightarrow> bool" where
  "endsWord U runes i =
     (case dropWhile (isCaseIgnorable U) (rev (take i runes)) of
        [] \<Rightarrow> False
      | p # _ \<Rightarrow>
          isCased U p \<and>
          (case dropWhile (isCaseIgnorable U) (drop (Suc i) runes) of
             [] \<Rightarrow> True
           | n # _ \<Rightarrow> \<not> isCased U n))"

definition lowerAt :: "unicode \<Rightarrow> gostring \<Rightarrow> nat \<Rightarrow> gostring" where
  "lowerAt U runes i =
     (let r = runes ! i
      in if r = 0x0130 then [105, 0x0307]
         else if r = 0x03a3 \<and> endsWord U runes i then [0x03c2]
         else [uToLower U r])"

definition Lower :: "unicode \<Rightarrow> gostring \<Rightarrow> gostring" where
  "Lower U s = concat (map (lowerAt U s) [0..<length s])"

subsection \<open>decode.go\<close>

text \<open>Go's \<^verbatim>\<open>utf8.DecodeRune\<close> and \<^verbatim>\<open>utf8.AppendRune\<close>, on bytes as integers from 0 to 255.\<close>

type_synonym byte = int

definition RuneError :: rune where
  "RuneError = 0xfffd"

definition cont :: "byte \<Rightarrow> bool" where
  "cont b = (0x80 \<le> b \<and> b \<le> 0xbf)"

fun DecodeRune :: "byte list \<Rightarrow> rune \<times> nat" where
  "DecodeRune [] = (RuneError, 0)"
| "DecodeRune (b0 # bs) =
     (if b0 < 0x80 then (b0, 1)
      else (case bs of
        [] \<Rightarrow> (RuneError, 1)
      | b1 # bs1 \<Rightarrow>
          if 0xc2 \<le> b0 \<and> b0 \<le> 0xdf \<and> cont b1 then ((b0 - 0xc0) * 64 + (b1 - 0x80), 2)
          else (case bs1 of
            [] \<Rightarrow> (RuneError, 1)
          | b2 # bs2 \<Rightarrow>
              if 0xe0 \<le> b0 \<and> b0 \<le> 0xef \<and> cont b1 \<and> (b0 = 0xe0 \<longrightarrow> 0xa0 \<le> b1) \<and>
                 (b0 = 0xed \<longrightarrow> b1 \<le> 0x9f) \<and> cont b2
              then ((b0 - 0xe0) * 4096 + (b1 - 0x80) * 64 + (b2 - 0x80), 3)
              else (case bs2 of
                [] \<Rightarrow> (RuneError, 1)
              | b3 # _ \<Rightarrow>
                  if 0xf0 \<le> b0 \<and> b0 \<le> 0xf4 \<and> cont b1 \<and> (b0 = 0xf0 \<longrightarrow> 0x90 \<le> b1) \<and>
                     (b0 = 0xf4 \<longrightarrow> b1 \<le> 0x8f) \<and> cont b2 \<and> cont b3
                  then ((b0 - 0xf0) * 262144 + (b1 - 0x80) * 4096 + (b2 - 0x80) * 64 + (b3 - 0x80), 4)
                  else (RuneError, 1)))))"

definition EncodeRune :: "rune \<Rightarrow> byte list" where
  "EncodeRune r =
     (if r < 0x80 then [r]
      else if r < 0x800 then [0xc0 + r div 64, 0x80 + r mod 64]
      else if r < 0x10000 then [0xe0 + r div 4096, 0x80 + r div 64 mod 64, 0x80 + r mod 64]
      else [0xf0 + r div 262144, 0x80 + r div 4096 mod 64, 0x80 + r div 64 mod 64, 0x80 + r mod 64])"

record wellFormed =
  wfNeed :: nat
  wfFrom :: byte
  wfTo :: byte
  wfLo :: byte
  wfHi :: byte

definition utf8Sequences :: "wellFormed list" where
  "utf8Sequences =
     [\<lparr>wfNeed = 1, wfFrom = 0xc2, wfTo = 0xdf, wfLo = 0x80, wfHi = 0xbf\<rparr>,
      \<lparr>wfNeed = 2, wfFrom = 0xe0, wfTo = 0xe0, wfLo = 0xa0, wfHi = 0xbf\<rparr>,
      \<lparr>wfNeed = 2, wfFrom = 0xe1, wfTo = 0xec, wfLo = 0x80, wfHi = 0xbf\<rparr>,
      \<lparr>wfNeed = 2, wfFrom = 0xed, wfTo = 0xed, wfLo = 0x80, wfHi = 0x9f\<rparr>,
      \<lparr>wfNeed = 2, wfFrom = 0xee, wfTo = 0xef, wfLo = 0x80, wfHi = 0xbf\<rparr>,
      \<lparr>wfNeed = 3, wfFrom = 0xf0, wfTo = 0xf0, wfLo = 0x90, wfHi = 0xbf\<rparr>,
      \<lparr>wfNeed = 3, wfFrom = 0xf1, wfTo = 0xf3, wfLo = 0x80, wfHi = 0xbf\<rparr>,
      \<lparr>wfNeed = 3, wfFrom = 0xf4, wfTo = 0xf4, wfLo = 0x80, wfHi = 0x8f\<rparr>]"

definition leadSequence :: "byte \<Rightarrow> wellFormed" where
  "leadSequence lead =
     (case find (\<lambda>row. wfFrom row \<le> lead \<and> lead \<le> wfTo row) utf8Sequences of
        Some row \<Rightarrow> row
      | None \<Rightarrow> \<lparr>wfNeed = 0, wfFrom = 0, wfTo = 0, wfLo = 0, wfHi = 0\<rparr>)"

text \<open>The loop of \<^verbatim>\<open>invalidPrefix\<close>: \<open>need\<close> continuation bytes are left to take from the rest.\<close>

fun prefixLoop :: "nat \<Rightarrow> byte \<Rightarrow> byte \<Rightarrow> byte list \<Rightarrow> nat" where
  "prefixLoop (Suc need) lo hi (b # bs) =
     (if lo \<le> b \<and> b \<le> hi then Suc (prefixLoop need 0x80 0xbf bs) else 0)"
| "prefixLoop _ lo hi _ = 0"

definition invalidPrefix :: "byte list \<Rightarrow> nat" where
  "invalidPrefix b =
     (let row = leadSequence (hd b) in 1 + prefixLoop (wfNeed row) (wfLo row) (wfHi row) (tl b))"

lemma DecodeRune_width: "0 < snd (DecodeRune (b # bs))"
  by (simp split: list.split)

function readRunes :: "byte list \<Rightarrow> gostring" where
  "readRunes [] = []"
| "readRunes (b # bs) =
     (let (r, n) = DecodeRune (b # bs);
          m = (if r = RuneError \<and> n = 1 then invalidPrefix (b # bs) else n)
      in r # readRunes (drop m (b # bs)))"
  by pat_completeness auto
termination
proof (relation "measure length", goal_cases)
  case (2 b bs x r n m)
  have "0 < n" using 2 DecodeRune_width[of b bs] by (metis snd_conv)
  then have "0 < m" using 2 by (auto simp: invalidPrefix_def Let_def)
  then show ?case by (cases m) auto
qed simp

definition ReadText :: "byte list \<Rightarrow> gostring" where
  "ReadText b = replace_all [13] [10] (replace_all [13, 10] [10] (readRunes b))"

definition suffixAt :: "gostring \<Rightarrow> nat option" where
  "suffixAt name =
     (case last_index name [ch CHR ''.''] of
        Some i \<Rightarrow> if 0 < i \<and> i < length name - 1 then Some i else None
      | None \<Rightarrow> None)"

definition Stem :: "gostring \<Rightarrow> gostring" where
  "Stem name = (case suffixAt name of Some i \<Rightarrow> take i name | None \<Rightarrow> name)"

definition Suffix :: "gostring \<Rightarrow> gostring" where
  "Suffix name = (case suffixAt name of Some i \<Rightarrow> drop i name | None \<Rightarrow> [])"


subsection \<open>Lines\<close>

lemma firstLineBreak_before:
  "firstLineBreak s = Some (i, w) \<Longrightarrow> r \<in> set (take i s) \<Longrightarrow> \<not> in_table lineBreakTable r"
proof (induction s arbitrary: i)
  case (Cons c s)
  then show ?case by (cases i) (auto split: if_splits option.splits)
qed simp

lemma firstLineBreak_None:
  "firstLineBreak s = None \<Longrightarrow> r \<in> set s \<Longrightarrow> \<not> in_table lineBreakTable r"
  by (induction s) (auto split: if_splits option.splits)

lemma SplitLinesKeepEnds_concat: "concat (SplitLinesKeepEnds s) = s"
proof (induction s rule: SplitLinesKeepEnds.induct)
  case (1 s)
  show ?case
  proof (cases "s = [] \<or> firstLineBreak s = None")
    case True
    then show ?thesis by (subst SplitLinesKeepEnds.simps) auto
  next
    case False
    then obtain i w where f: "firstLineBreak s = Some (i, w)" by fastforce
    with False 1 have "concat (SplitLinesKeepEnds (drop (i + w) s)) = drop (i + w) s" by simp
    with f False show ?thesis by (subst SplitLinesKeepEnds.simps) simp
  qed
qed

lemma SplitLines_KeepEnds_length: "length (SplitLines s) = length (SplitLinesKeepEnds s)"
proof (induction s rule: SplitLines.induct)
  case (1 s)
  then show ?case
    by (subst SplitLines.simps, subst SplitLinesKeepEnds.simps) (auto split: option.split)
qed

lemma SplitLines_no_break:
  "l \<in> set (SplitLines s) \<Longrightarrow> r \<in> set l \<Longrightarrow> \<not> in_table lineBreakTable r"
proof (induction s rule: SplitLines.induct)
  case (1 s)
  show ?case
  proof (cases "s = [] \<or> firstLineBreak s = None")
    case True
    with 1 show ?thesis
      by (subst (asm) SplitLines.simps) (auto dest: firstLineBreak_None split: if_splits)
  next
    case False
    then obtain i w where f: "firstLineBreak s = Some (i, w)" by fastforce
    with False 1(2) have "l = take i s \<or> l \<in> set (SplitLines (drop (i + w) s))"
      by (subst (asm) SplitLines.simps) auto
    with f False 1 show ?thesis by (auto dest: firstLineBreak_before)
  qed
qed

subsection \<open>Decoding\<close>

definition valid_rune :: "rune \<Rightarrow> bool" where
  "valid_rune r = (0 \<le> r \<and> r < 0x110000 \<and> \<not> (0xd800 \<le> r \<and> r \<le> 0xdfff))"

text \<open>The base-64 digits of a code point, in the order the encoder writes them.\<close>

lemma base64_digits:
  fixes r :: int
  shows "r = r div 4096 * 4096 + r div 64 mod 64 * 64 + r mod 64"
    and "r = r div 262144 * 262144 + r div 4096 mod 64 * 4096 + r div 64 mod 64 * 64 + r mod 64"
proof -
  have d: "r div 4096 = r div 64 div 64" "r div 262144 = r div 64 div 64 div 64"
    by (simp_all flip: zdiv_zmult2_eq)
  have e: "x = x div 64 * 64 + x mod 64" for x :: int by simp
  show "r = r div 4096 * 4096 + r div 64 mod 64 * 64 + r mod 64"
    unfolding d using e[of r] e[of "r div 64"] by linarith
  show "r = r div 262144 * 262144 + r div 4096 mod 64 * 4096 + r div 64 mod 64 * 64 + r mod 64"
    unfolding d using e[of r] e[of "r div 64"] e[of "r div 64 div 64"] by linarith
qed

lemma cont_digit: "cont (0x80 + x mod 64)"
proof -
  have "0 \<le> x mod 64" "x mod 64 < 64" by simp_all
  then show ?thesis unfolding cont_def by linarith
qed

lemma digit_range: "0 \<le> x mod (64::int)" "x mod (64::int) < 64"
  by simp_all

lemma DecodeRune_3:
  assumes "0xe0 \<le> b0" "b0 \<le> 0xef" "cont b1" "b0 = 0xe0 \<longrightarrow> 0xa0 \<le> b1" "b0 = 0xed \<longrightarrow> b1 \<le> 0x9f"
    "cont b2"
  shows "DecodeRune (b0 # b1 # b2 # bs) = ((b0 - 0xe0) * 4096 + (b1 - 0x80) * 64 + (b2 - 0x80), 3)"
  using assms by simp

lemma DecodeRune_4:
  assumes "0xf0 \<le> b0" "b0 \<le> 0xf4" "cont b1" "b0 = 0xf0 \<longrightarrow> 0x90 \<le> b1" "b0 = 0xf4 \<longrightarrow> b1 \<le> 0x8f"
    "cont b2" "cont b3"
  shows "DecodeRune (b0 # b1 # b2 # b3 # bs) =
    ((b0 - 0xf0) * 262144 + (b1 - 0x80) * 4096 + (b2 - 0x80) * 64 + (b3 - 0x80), 4)"
  using assms by simp

lemma length_3_4: "length [a, b, c] = 3" "length [a, b, c, d] = 4"
  by simp_all

lemma Decode_Encode:
  assumes "valid_rune r"
  shows "DecodeRune (EncodeRune r @ bs) = (r, length (EncodeRune r))"
proof -
  have r: "0 \<le> r" "r < 0x110000" "r < 0xd800 \<or> 0xdfff < r" using assms by (auto simp: valid_rune_def)
  consider "r < 0x80" | "0x80 \<le> r" "r < 0x800" | "0x800 \<le> r" "r < 0x10000" | "0x10000 \<le> r" by linarith
  then show ?thesis
  proof cases
    case 1 then show ?thesis by (simp add: EncodeRune_def)
  next
    case 2
    have v: "r div 64 * 64 + r mod 64 = r" by simp
    note g = digit_range[of r]
    have "0xc2 \<le> 0xc0 + r div 64" "0xc0 + r div 64 \<le> 0xdf" using 2 v g by linarith+
    with 2 v cont_digit[of r] show ?thesis by (simp add: EncodeRune_def)
  next
    case 3
    note v = base64_digits(1)[of r] and g = digit_range[of r] digit_range[of "r div 64"]
    have b: "0xe0 \<le> 0xe0 + r div 4096" "0xe0 + r div 4096 \<le> 0xef" using 3 v g by linarith+
    have o: "0xe0 + r div 4096 = 0xe0 \<longrightarrow> 0xa0 \<le> 0x80 + r div 64 mod 64"
      "0xe0 + r div 4096 = 0xed \<longrightarrow> 0x80 + r div 64 mod 64 \<le> 0x9f"
      using 3 r v g by linarith+
    have enc: "EncodeRune r = [0xe0 + r div 4096, 0x80 + r div 64 mod 64, 0x80 + r mod 64]"
      using 3 unfolding EncodeRune_def by simp
    moreover have "(0xe0 + r div 4096 - 0xe0) * 4096 + (0x80 + r div 64 mod 64 - 0x80) * 64
        + (0x80 + r mod 64 - 0x80) = r"
      unfolding add_diff_cancel_left' using v by (rule sym)
    ultimately show ?thesis
      using DecodeRune_3[OF b cont_digit o cont_digit, of r bs]
      by (simp only: enc append_Cons append_Nil length_3_4)
  next
    case 4
    note v = base64_digits(2)[of r] and g = digit_range[of r] digit_range[of "r div 64"]
      digit_range[of "r div 4096"]
    have b: "0xf0 \<le> 0xf0 + r div 262144" "0xf0 + r div 262144 \<le> 0xf4" using 4 r v g by linarith+
    have o: "0xf0 + r div 262144 = 0xf0 \<longrightarrow> 0x90 \<le> 0x80 + r div 4096 mod 64"
      "0xf0 + r div 262144 = 0xf4 \<longrightarrow> 0x80 + r div 4096 mod 64 \<le> 0x8f"
      using 4 r v g by linarith+
    have enc: "EncodeRune r = [0xf0 + r div 262144, 0x80 + r div 4096 mod 64, 0x80 + r div 64 mod 64,
        0x80 + r mod 64]" using 4 unfolding EncodeRune_def by simp
    moreover have "(0xf0 + r div 262144 - 0xf0) * 262144 + (0x80 + r div 4096 mod 64 - 0x80) * 4096
        + (0x80 + r div 64 mod 64 - 0x80) * 64 + (0x80 + r mod 64 - 0x80) = r"
      unfolding add_diff_cancel_left' using v by (rule sym)
    ultimately show ?thesis
      using DecodeRune_4[OF b cont_digit o cont_digit cont_digit, of "r div 64" r bs]
      by (simp only: enc append_Cons append_Nil length_3_4)
  qed
qed

lemma EncodeRune_nonempty: "EncodeRune r \<noteq> []"
  by (simp add: EncodeRune_def)

lemma readRunes_Encode:
  assumes "valid_rune r"
  shows "readRunes (EncodeRune r @ bs) = r # readRunes bs"
proof -
  obtain b e where e: "EncodeRune r = b # e" using EncodeRune_nonempty by (cases "EncodeRune r") auto
  have d: "DecodeRune (b # e @ bs) = (r, length (EncodeRune r))"
    using Decode_Encode[OF assms, of bs] e by simp
  have "r = RuneError \<Longrightarrow> length (EncodeRune r) \<noteq> 1" by (simp add: RuneError_def EncodeRune_def)
  then have "readRunes (b # e @ bs) = r # readRunes (drop (length (EncodeRune r)) (b # e @ bs))"
    by (subst readRunes.simps) (auto simp: d simp del: DecodeRune.simps)
  then show ?thesis by (simp add: e)
qed

lemma readRunes_roundtrip:
  "\<forall>r\<in>set t. valid_rune r \<Longrightarrow> readRunes (concat (map EncodeRune t)) = t"
  by (induction t) (auto simp: readRunes_Encode simp del: readRunes.simps(2))

text \<open>Python's universal newlines, the reference the two replacements are held to.\<close>

fun newlines :: "gostring \<Rightarrow> gostring" where
  "newlines [] = []"
| "newlines [c] = [if c = 13 then 10 else c]"
| "newlines (c # d # s) =
     (if c = 13 \<and> d = 10 then 10 # newlines s
      else (if c = 13 then 10 else c) # newlines (d # s))"

lemma newlines_eq: "replace_all [13] [10] (replace_all [13, 10] [10] s) = newlines s"
  by (induction s rule: newlines.induct) (auto simp: replace_all_Cons has_prefix_def)

lemma newlines_no_CR: "13 \<notin> set (newlines s)"
  by (induction s rule: newlines.induct) auto

lemma newlines_id: "13 \<notin> set s \<Longrightarrow> newlines s = s"
  by (induction s rule: newlines.induct) auto

lemma ReadText_newlines: "ReadText b = newlines (readRunes b)"
  by (simp add: ReadText_def newlines_eq)

subsection \<open>File names\<close>

lemma last_index_single:
  "last_index s [c] = Some i \<Longrightarrow> i < length s \<and> s ! i = c \<and> c \<notin> set (drop (Suc i) s)"
proof (induction s arbitrary: i)
  case (Cons d s)
  have none: "last_index t [c] = None \<Longrightarrow> c \<notin> set t" for t
    by (induction t) (auto simp: has_prefix_def split: option.splits if_splits)
  from Cons show ?case
    by (auto simp: has_prefix_def none split: option.splits if_splits)
qed simp

lemma Stem_Suffix: "Stem name @ Suffix name = name"
  by (simp add: Stem_def Suffix_def split: option.split)

lemma Suffix_dot:
  assumes "Suffix name \<noteq> []"
  shows "hd (Suffix name) = ch CHR ''.''" "ch CHR ''.'' \<notin> set (tl (Suffix name))" "Stem name \<noteq> []"
    "tl (Suffix name) \<noteq> []"
proof -
  from assms obtain i where i: "suffixAt name = Some i" by (auto simp: Suffix_def split: option.splits)
  then have l: "last_index name [ch CHR ''.''] = Some i" and b: "0 < i" "i < length name - 1"
    by (auto simp: suffixAt_def split: option.splits if_splits)
  note li = last_index_single[OF l]
  show "hd (Suffix name) = ch CHR ''.''" using li i by (simp add: Suffix_def hd_drop_conv_nth)
  show "ch CHR ''.'' \<notin> set (tl (Suffix name))" using li i by (simp add: Suffix_def drop_Suc tl_drop)
  show "Stem name \<noteq> []" using i b by (auto simp: Stem_def)
  show "tl (Suffix name) \<noteq> []" using i b by (simp add: Suffix_def tl_drop drop_Suc flip: drop_Suc)
qed

subsection \<open>Numerals\<close>

fun decimal :: "unicode \<Rightarrow> int \<Rightarrow> gostring \<Rightarrow> int" where
  "decimal U n [] = n"
| "decimal U n (r # s) = decimal U (n * 10 + (case digitValue U r of Some d \<Rightarrow> d | None \<Rightarrow> 0)) s"

lemma digitValue_range: "digitValue U r = Some d \<Longrightarrow> 0 \<le> d \<and> d < 10"
  by (auto simp: digitValue_def split: if_splits)

lemma decimal_mono: "0 \<le> n \<Longrightarrow> n \<le> decimal U n s"
proof (induction U n s rule: decimal.induct)
  case (2 U n r s)
  have "0 \<le> (case digitValue U r of Some d \<Rightarrow> d | None \<Rightarrow> 0)"
    using digitValue_range by (auto split: option.split)
  with 2 show ?case by fastforce
qed simp

lemma atoiLoop_decimal:
  assumes "\<forall>r\<in>set s. digitValue U r \<noteq> None" "0 \<le> n" "decimal U n s < 2 ^ 63"
  shows "atoiLoop U n s = Inr (decimal U n s)"
  using assms
proof (induction U n s rule: atoiLoop.induct)
  case (2 U n r s)
  then obtain d where d: "digitValue U r = Some d" by auto
  have dd: "0 \<le> d" using digitValue_range[OF d] by simp
  have "n * 10 + d \<le> decimal U (n * 10 + d) s" using 2 dd by (intro decimal_mono) simp
  with 2 d have b: "n * 10 + d < 2 ^ 63" by simp
  with dd 2 have "wrap64 (n * 10) = n * 10" "wrap64 (n * 10 + d) = n * 10 + d"
    by (auto intro!: wrap64_small)
  with 2 d dd show ?case by simp
qed simp

lemma Atoi_errors: "Atoi U s = Inl e \<longleftrightarrow> s = [] \<or> (\<exists>r\<in>set s. digitValue U r = None)"
proof -
  have "atoiLoop U n s = Inl e \<longleftrightarrow> (\<exists>r\<in>set s. digitValue U r = None)" for n
    by (induction s arbitrary: n) (auto split: option.split, (cases e; simp)+)
  then show ?thesis by (cases e) (auto simp: Atoi_def)
qed

end
