(* ===== verification/Tokens.thy ===== *)
theory Tokens
  imports Pystr
begin

text \<open>
  \<^verbatim>\<open>internal/domain/tokens.go\<close>: the offline token estimate.  The scan is the source's single pass;
  its products and roundings are float64 operations (\<open>rnd\<close>), which the last section shows to be plain
  integer arithmetic for every text a machine can hold.
\<close>

definition SubwordFactor :: rat where
  "SubwordFactor = 13 / 10"

definition cjkAtomWeight :: rat where
  "cjkAtomWeight = 1 / SubwordFactor"

definition cjkTable :: "(rune \<times> rune) list" where
  "cjkTable = [(0x3000, 0x303f), (0x3040, 0x30ff), (0x3400, 0x4dbf), (0x4e00, 0x9fff),
     (0xac00, 0xd7af), (0xf900, 0xfaff)]"

definition uncalibratedTable :: "(rune \<times> rune) list" where
  "uncalibratedTable = [(0x0370, 0x03ff), (0x0400, 0x04ff), (0x0530, 0x058f), (0x0590, 0x05ff),
     (0x0600, 0x06ff), (0x0900, 0x097f), (0x0e00, 0x0e7f), (0x10a0, 0x10ff)]"

text \<open>The loop of \<^verbatim>\<open>CountAtoms\<close>: the atoms and CJK characters counted so far, and whether the scan
  is inside a word.\<close>

fun scanAtoms :: "unicode \<Rightarrow> gostring \<Rightarrow> nat \<Rightarrow> nat \<Rightarrow> bool \<Rightarrow> nat \<times> nat" where
  "scanAtoms U [] atoms cjk inWord = (atoms, cjk)"
| "scanAtoms U (r # s) atoms cjk inWord =
     (if in_table cjkTable r then scanAtoms U s atoms (cjk + 1) False
      else if IsWord U r then
        (if \<not> inWord then scanAtoms U s (atoms + 1) cjk True else scanAtoms U s atoms cjk inWord)
      else if IsSpace r then scanAtoms U s atoms cjk False
      else scanAtoms U s (atoms + 1) cjk False)"

definition CountAtoms :: "unicode \<Rightarrow> gostring \<Rightarrow> nat" where
  "CountAtoms U s =
     (let (atoms, cjk) = scanAtoms U s 0 0 False
      in if cjk = 0 then atoms
         else atoms + nat (round_even (rnd (of_nat cjk * rnd cjkAtomWeight))))"

definition TokensFromAtoms :: "nat \<Rightarrow> nat" where
  "TokensFromAtoms atoms = nat \<lfloor>rnd (of_nat atoms * rnd SubwordFactor)\<rfloor>"

definition EstimateTokens :: "unicode \<Rightarrow> gostring \<Rightarrow> nat" where
  "EstimateTokens U s = TokensFromAtoms (CountAtoms U s)"

definition UncalibratedLetterShare :: "unicode \<Rightarrow> gostring \<Rightarrow> rat" where
  "UncalibratedLetterShare U s =
     (let letters = length (filter (IsLetter U) s);
          uncal = length (filter (in_table uncalibratedTable) s)
      in if letters = 0 then 0 else rnd (of_nat uncal / of_nat letters))"

subsection \<open>The float arithmetic is integer arithmetic\<close>

lemma rnd_SubwordFactor: "rnd SubwordFactor = 5854679515581645 / 2 ^ 52"
  by code_simp

lemma rnd_cjkAtomWeight: "rnd cjkAtomWeight = 6928614811339225 / 2 ^ 53"
  by code_simp


lemma rat_of_nat_le: "(a::nat) \<le> b \<Longrightarrow> (of_nat a :: rat) \<le> of_nat b"
  unfolding of_nat_le_iff .

lemma rat_of_nat_less: "(a::nat) < b \<Longrightarrow> (of_nat a :: rat) < of_nat b"
  unfolding of_nat_less_iff .

lemma TokensFromAtoms_eq:
  assumes "n < 2 ^ 48"
  shows "TokensFromAtoms n = 13 * n div 10"
proof -
  define t where "t = 13 * n div 10"
  let ?c = "5854679515581645 / 2 ^ 52 :: rat"
  let ?x = "of_nat n * ?c"
  have n: "(of_nat n :: rat) < 2 ^ 48"
    using rat_of_nat_less[OF assms] by simp
  have t: "10 * t \<le> 13 * n" "13 * n \<le> 10 * t + 9" unfolding t_def by linarith+
  have tq: "10 * (of_nat t :: rat) \<le> 13 * of_nat n" "13 * (of_nat n :: rat) \<le> 10 * of_nat t + 9"
    using rat_of_nat_le[OF t(1)] rat_of_nat_le[OF t(2)] by simp_all
  have "t < 2 ^ 53" using assms t by simp
  then have rt: "rnd (of_nat t) = of_nat t" by (rule rnd_of_nat)
  have "(of_nat t :: rat) \<le> ?x" using tq by simp
  then have lo: "of_nat t \<le> rnd ?x" using rnd_mono[of "of_nat t" ?x] rt by simp
  have "rnd ?x \<le> ?x + ?x / 2 ^ 53" by (rule rnd_le) simp
  also have "\<dots> < of_nat t + 1" using tq n by simp
  finally have "\<lfloor>rnd ?x\<rfloor> = int t" using lo by (intro floor_unique) auto
  then show ?thesis by (simp add: TokensFromAtoms_def rnd_SubwordFactor t_def)
qed

text \<open>The CJK weight: \<open>10 / 13\<close> of a character, rounded.  No tie is possible, since 13 is odd.\<close>

definition cjkAtoms :: "nat \<Rightarrow> nat" where
  "cjkAtoms cjk = (20 * cjk + 13) div 26"

lemma round_even_unique:
  assumes "of_int k - 1 / 2 < x" "x < of_int k + 1 / 2"
  shows "round_even x = k"
proof -
  have "of_int (round_even x) < (of_int k :: rat) + 1" "(of_int k :: rat) < of_int (round_even x) + 1"
    using round_even_bounds[of x] assms by linarith+
  then have "(of_int (round_even x) :: rat) < of_int (k + 1)" "(of_int k :: rat) < of_int (round_even x + 1)"
    by simp_all
  then show ?thesis unfolding of_int_less_iff by simp
qed

lemma cjk_weight_eq:
  assumes "n < 2 ^ 45"
  shows "nat (round_even (rnd (of_nat n * rnd cjkAtomWeight))) = cjkAtoms n"
proof -
  define t where "t = cjkAtoms n"
  let ?c = "6928614811339225 / 2 ^ 53 :: rat"
  let ?x = "of_nat n * ?c"
  have n: "(of_nat n :: rat) < 2 ^ 45" using rat_of_nat_less[OF assms] by simp
  have "26 * t \<le> 20 * n + 13" "20 * n + 13 \<le> 26 * t + 25" unfolding t_def cjkAtoms_def by linarith+
  moreover from this have "26 * t \<noteq> 20 * n + 13" by presburger
  ultimately have t: "26 * t + 1 \<le> 20 * n + 13" "20 * n + 13 \<le> 26 * t + 25" by linarith+
  have tq: "26 * (of_nat t :: rat) + 1 \<le> 20 * of_nat n + 13"
    "20 * (of_nat n :: rat) + 13 \<le> 26 * of_nat t + 25"
    using rat_of_nat_le[OF t(1)] rat_of_nat_le[OF t(2)] by simp_all
  have e: "rnd ?x \<le> ?x + ?x / 2 ^ 53" "?x - ?x / 2 ^ 53 \<le> rnd ?x"
    by (rule rnd_le, simp) (rule rnd_ge, simp)
  have "round_even (rnd ?x) = int t"
  proof (rule round_even_unique)
    show "of_int (int t) - 1 / 2 < rnd ?x" using e(2) tq n by simp
    show "rnd ?x < of_int (int t) + 1 / 2" using e(1) tq n by simp
  qed
  then show ?thesis by (simp add: rnd_cjkAtomWeight t_def)
qed


subsection \<open>Counting a joined text\<close>

text \<open>The scan split into its two counts, and the facts of the Unicode database counting rests on:
  no white space is a word character.\<close>

definition unicode_ok :: "unicode \<Rightarrow> bool" where
  "unicode_ok U \<longleftrightarrow> (\<forall>r. IsSpace r \<longrightarrow> \<not> IsWord U r)"

definition ascii_unicode :: unicode where
  "ascii_unicode = \<lparr>uLetter = (\<lambda>r. (65 \<le> r \<and> r \<le> 90) \<or> (97 \<le> r \<and> r \<le> 122)),
     uNd = (\<lambda>r. 48 \<le> r \<and> r \<le> 57), uNlNo = (\<lambda>r. False), uPrint = (\<lambda>r. 32 \<le> r \<and> r \<le> 126),
     uCased = (\<lambda>r. (65 \<le> r \<and> r \<le> 90) \<or> (97 \<le> r \<and> r \<le> 122)), uMarkLike = (\<lambda>r. False),
     uToLower = (\<lambda>r. if 65 \<le> r \<and> r \<le> 90 then r + 32 else r)\<rparr>"

lemma ascii_unicode_ok: "unicode_ok ascii_unicode"
  by (auto simp: unicode_ok_def IsSpace_def spaceTable_def IsWord_def ascii_unicode_def ch_def)

fun rawAtoms :: "unicode \<Rightarrow> bool \<Rightarrow> gostring \<Rightarrow> nat" where
  "rawAtoms U w [] = 0"
| "rawAtoms U w (r # s) =
     (if in_table cjkTable r then rawAtoms U False s
      else if IsWord U r then (if w then 0 else 1) + rawAtoms U True s
      else if IsSpace r then rawAtoms U False s
      else 1 + rawAtoms U False s)"

definition cjkCount :: "gostring \<Rightarrow> nat" where
  "cjkCount s = length (filter (in_table cjkTable) s)"

definition cjkPart :: "nat \<Rightarrow> nat" where
  "cjkPart cjk = nat (round_even (rnd (of_nat cjk * rnd cjkAtomWeight)))"

lemma scanAtoms_split: "scanAtoms U s a c w = (a + rawAtoms U w s, c + cjkCount s)"
  by (induction s arbitrary: a c w) (auto simp: cjkCount_def)

lemma cjkPart_0 [simp]: "cjkPart 0 = 0"
  using round_even_of_int[of 0] by (simp add: cjkPart_def)

lemma CountAtoms_split: "CountAtoms U s = rawAtoms U False s + cjkPart (cjkCount s)"
  by (auto simp: CountAtoms_def scanAtoms_split cjkPart_def simp flip: cjkPart_def)

lemma cjkPart_mono: "m \<le> n \<Longrightarrow> cjkPart m \<le> cjkPart n"
  unfolding cjkPart_def rnd_cjkAtomWeight
  by (intro nat_mono round_even_mono rnd_mono mult_right_mono) auto

lemma TokensFromAtoms_mono: "m \<le> n \<Longrightarrow> TokensFromAtoms m \<le> TokensFromAtoms n"
  unfolding TokensFromAtoms_def rnd_SubwordFactor
  by (intro nat_mono floor_mono rnd_mono mult_right_mono) auto

lemma cjkCount_append [simp]: "cjkCount (s @ t) = cjkCount s + cjkCount t"
  by (simp add: cjkCount_def)

lemma cjkCount_Nil [simp]: "cjkCount [] = 0"
  by (simp add: cjkCount_def)

lemma cjkCount_newline [simp]: "cjkCount (10 # s) = cjkCount s"
  by (simp add: cjkCount_def cjkTable_def)

lemma newline_space: "IsSpace 10" "\<not> in_table cjkTable 10"
  by (simp_all add: IsSpace_def spaceTable_def cjkTable_def)

lemma rawAtoms_newline:
  assumes "unicode_ok U"
  shows "rawAtoms U w (10 # s) = rawAtoms U False s"
  using assms newline_space by (auto simp: unicode_ok_def)

lemma rawAtoms_join1:
  assumes "unicode_ok U"
  shows "rawAtoms U w (s @ 10 # t) = rawAtoms U w s + rawAtoms U False t"
  by (induction s arbitrary: w) (simp_all add: rawAtoms_newline[OF assms] del: rawAtoms.simps(2), simp)

lemma rawAtoms_join2:
  assumes "unicode_ok U"
  shows "rawAtoms U w (s @ 10 # 10 # t) = rawAtoms U w s + rawAtoms U False t"
  by (simp add: rawAtoms_join1[OF assms] rawAtoms_newline[OF assms] del: rawAtoms.simps(2))

text \<open>Trimming white space never adds an atom.\<close>

lemma rawAtoms_word: "rawAtoms U True s \<le> rawAtoms U False s"
  by (cases s) auto

lemma rawAtoms_append_le: "rawAtoms U w s \<le> rawAtoms U w (s @ t)"
  by (induction s arbitrary: w) auto

lemma rawAtoms_dropWhile:
  "unicode_ok U \<Longrightarrow> rawAtoms U False (dropWhile IsSpace s) \<le> rawAtoms U False s"
  by (induction s) (auto simp: unicode_ok_def)

lemma dropWhile_suffix: "\<exists>p. s = p @ dropWhile P s"
  by (metis takeWhile_dropWhile_id)

lemma Strip_prefix: "\<exists>q. dropWhile IsSpace s = Strip s @ q"
proof -
  let ?d = "dropWhile IsSpace s"
  obtain p where "rev ?d = p @ dropWhile IsSpace (rev ?d)" using dropWhile_suffix by metis
  then have "?d = rev (dropWhile IsSpace (rev ?d)) @ rev p" by (metis rev_append rev_rev_ident)
  then show ?thesis by (auto simp: Strip_def trim_func_def)
qed

lemma CountAtoms_Strip:
  assumes "unicode_ok U"
  shows "CountAtoms U (Strip s) \<le> CountAtoms U s"
proof -
  obtain p q where s: "s = p @ dropWhile IsSpace s" and d: "dropWhile IsSpace s = Strip s @ q"
    using dropWhile_suffix Strip_prefix by metis
  have "rawAtoms U False (Strip s) \<le> rawAtoms U False (Strip s @ q)" by (rule rawAtoms_append_le)
  also have "\<dots> \<le> rawAtoms U False s" using rawAtoms_dropWhile[OF assms, of s] d by simp
  finally have "rawAtoms U False (Strip s) \<le> rawAtoms U False s" .
  moreover have "cjkCount (Strip s) \<le> cjkCount s"
    by (metis cjkCount_append d le_add1 le_add2 order_trans s)
  ultimately show ?thesis by (simp add: CountAtoms_split add_mono cjkPart_mono)
qed

lemma EstimateTokens_Strip:
  "unicode_ok U \<Longrightarrow> EstimateTokens U (Strip s) \<le> EstimateTokens U s"
  by (simp add: EstimateTokens_def TokensFromAtoms_mono CountAtoms_Strip)

lemma rawAtoms_joined:
  assumes "unicode_ok U" "sep = [10] \<or> sep = [10, 10]"
  shows "rawAtoms U False (join sep ts) = sum_list (map (rawAtoms U False) ts)"
  using assms(2)
  by (induction sep ts rule: join.induct)
    (auto simp: rawAtoms_join1[OF assms(1)] rawAtoms_newline[OF assms(1)] simp del: rawAtoms.simps(2))

lemma cjkCount_joined:
  assumes "sep = [10] \<or> sep = [10, 10]"
  shows "cjkCount (join sep ts) = sum_list (map cjkCount ts)"
  using assms by (induction sep ts rule: join.induct) auto

lemma CountAtoms_joined:
  assumes "unicode_ok U" "sep = [10] \<or> sep = [10, 10]" "\<forall>t\<in>set ts. cjkCount t = 0"
  shows "CountAtoms U (join sep ts) = sum_list (map (CountAtoms U) ts)"
proof -
  have "map cjkCount ts = map (\<lambda>_. 0) ts" using assms(3) by simp
  then have "cjkCount (join sep ts) = 0" by (simp add: cjkCount_joined[OF assms(2)])
  moreover have "map (CountAtoms U) ts = map (rawAtoms U False) ts"
    using assms(3) by (simp add: CountAtoms_split)
  ultimately show ?thesis
    by (simp only: CountAtoms_split[of U "join sep ts"] rawAtoms_joined[OF assms(1,2)]) simp
qed

end
