(* ===== verification/Chunking.thy ===== *)
theory Chunking
  imports Document Tokens
begin

text \<open>
  \<^verbatim>\<open>internal/domain/chunking.go\<close>: how an extraction is cut into chunks.  A loop over a slice is a
  recursion over the list that is left, an out-of-range read (\<^verbatim>\<open>blocks[0]\<close> of no blocks) is the
  \<open>None\<close> of \<open>emit\<close>, and the float comparison of a rate is the comparison of rounded quotients.
\<close>

subsection \<open>Bounds\<close>

definition MaxTokens :: nat where "MaxTokens = 1200"
definition MinTokens :: nat where "MinTokens = 100"
definition StubMaxTokens :: nat where "StubMaxTokens = 30"

definition PathSep :: gostring where "PathSep = lit '' > ''"

definition ReferenceFamilyMin :: nat where "ReferenceFamilyMin = 30"
definition referenceLeafMaxWords :: nat where "referenceLeafMaxWords = 4"
definition referenceLeafRate :: rat where "referenceLeafRate = 3 / 5"

subsection \<open>Units, parts and runs\<close>

record unitT =
  uSection :: "gostring option"
  uHeadingPath :: "gostring list"
  uBlocks :: "Block list"

record part =
  pPath :: "gostring list"
  pBlocks :: "Block list"

record runT =
  rLabel :: gostring
  rBlocks :: "Block list"

definition joinTexts :: "Block list \<Rightarrow> gostring" where
  "joinTexts blocks = join [10, 10] (map blkText blocks)"

definition unit_text :: "unitT \<Rightarrow> gostring" where
  "unit_text u = Strip (joinTexts (uBlocks u))"

definition unit_tokens :: "unicode \<Rightarrow> unitT \<Rightarrow> nat" where
  "unit_tokens U u = EstimateTokens U (unit_text u)"

subsection \<open>Small helpers\<close>

definition parent :: "gostring list \<Rightarrow> gostring list" where
  "parent path = (if path = [] then [] else take (length path - 1) path)"

definition parentOrSelf :: "gostring list \<Rightarrow> gostring list" where
  "parentOrSelf path = (if 1 < length path then take (length path - 1) path else path)"

definition sameSection :: "gostring option \<Rightarrow> gostring option \<Rightarrow> bool" where
  "sameSection a b =
     (if a = None \<or> b = None then a = None \<and> b = None else the a = the b)"

definition isDescendant :: "gostring option \<Rightarrow> gostring option \<Rightarrow> bool" where
  "isDescendant child par =
     (if child = None \<or> par = None \<or> the child = [] \<or> the par = [] then False
      else has_prefix (the child) (the par @ lit ''.''))"

definition lower :: "int option \<Rightarrow> int \<Rightarrow> int option" where
  "lower cur v = (if cur = None \<or> v < the cur then Some v else cur)"

definition higher :: "int option \<Rightarrow> int \<Rightarrow> int option" where
  "higher cur v = (if cur = None \<or> v > the cur then Some v else cur)"

definition anyText :: "Block list \<Rightarrow> bool" where
  "anyText blocks = list_ex (\<lambda>b. Strip (blkText b) \<noteq> []) blocks"

definition imageCount :: "Block list \<Rightarrow> int" where
  "imageCount blocks = sum_list (map blkImageCount blocks)"

definition runAtoms :: "unicode \<Rightarrow> runT \<Rightarrow> nat" where
  "runAtoms U r = sum_list (map (\<lambda>b. CountAtoms U (blkText b)) (rBlocks r))"

definition blockAtoms :: "unicode \<Rightarrow> Block \<Rightarrow> nat" where
  "blockAtoms U b = CountAtoms U (blkText b)"

definition runBlocks :: "runT list \<Rightarrow> Block list" where
  "runBlocks runs = concat (map rBlocks runs)"

definition joinPath :: "gostring list \<Rightarrow> gostring" where
  "joinPath path = join PathSep (filter (\<lambda>p. p \<noteq> []) path)"

definition firstLine :: "gostring \<Rightarrow> gostring" where
  "firstLine s = (case SplitLines s of [] \<Rightarrow> [] | l # _ \<Rightarrow> Strip l)"

subsection \<open>Grouping, merging and folding units\<close>

definition groupStep :: "unitT list \<Rightarrow> Block \<Rightarrow> unitT list" where
  "groupStep units b =
     (if units \<noteq> [] \<and> sameSection (uSection (last units)) (Section b) \<and>
         uHeadingPath (last units) = blkHeadingPath b
      then butlast units @ [(last units)\<lparr>uBlocks := uBlocks (last units) @ [b]\<rparr>]
      else units @ [\<lparr>uSection = Section b, uHeadingPath = blkHeadingPath b, uBlocks = [b]\<rparr>])"

definition groupBlocks :: "Block list \<Rightarrow> unitT list" where
  "groupBlocks blocks = foldl groupStep [] blocks"

definition mergeable :: "unitT \<Rightarrow> unitT \<Rightarrow> bool" where
  "mergeable cur nxt =
     (sameSection (uSection nxt) (uSection cur) \<and>
      parent (uHeadingPath cur) = parent (uHeadingPath nxt))"

fun absorbFollowing :: "unicode \<Rightarrow> unitT \<Rightarrow> unitT list \<Rightarrow> unitT \<times> unitT list" where
  "absorbFollowing U cur [] = (cur, [])"
| "absorbFollowing U cur (u # us) =
     (if unit_tokens U cur < MinTokens \<and> mergeable cur u
      then absorbFollowing U
             \<lparr>uSection = uSection cur, uHeadingPath = parentOrSelf (uHeadingPath cur),
              uBlocks = uBlocks cur @ uBlocks u\<rparr> us
      else (cur, u # us))"

lemma absorbFollowing_shrinks: "length (snd (absorbFollowing U cur us)) \<le> length us"
  by (induction U cur us rule: absorbFollowing.induct) auto

function mergeSmall :: "unicode \<Rightarrow> unitT list \<Rightarrow> unitT list" where
  "mergeSmall U [] = []"
| "mergeSmall U (u # us) =
     (let (merged, rest) = absorbFollowing U u us in merged # mergeSmall U rest)"
  by pat_completeness auto
termination
proof (relation "measure (\<lambda>(U, us). length us)", goal_cases)
  case (2 U u us x merged rest)
  then have "length rest \<le> length us"
    using absorbFollowing_shrinks[of U u us] by (metis snd_conv)
  then show ?case by simp
qed simp

definition isStub :: "unicode \<Rightarrow> unitT \<Rightarrow> unitT \<Rightarrow> bool" where
  "isStub U cur nxt =
     (uSection cur \<noteq> None \<and> isDescendant (uSection nxt) (uSection cur) \<and>
      unit_tokens U cur < StubMaxTokens)"

fun foldChapterStubs :: "unicode \<Rightarrow> unitT list \<Rightarrow> unitT list" where
  "foldChapterStubs U (cur # nxt # us) =
     (if isStub U cur nxt
      then foldChapterStubs U
             (\<lparr>uSection = uSection nxt, uHeadingPath = uHeadingPath nxt,
               uBlocks = uBlocks cur @ uBlocks nxt\<rparr> # us)
      else cur # foldChapterStubs U (nxt # us))"
| "foldChapterStubs U us = us"

subsection \<open>Cutting a unit\<close>

fun packLoop ::
  "('a \<Rightarrow> nat) \<Rightarrow> 'a list \<Rightarrow> 'a list list \<Rightarrow> 'a list \<Rightarrow> nat \<Rightarrow> 'a list list" where
  "packLoop atoms [] groups cur tot = (if cur \<noteq> [] then groups @ [cur] else groups)"
| "packLoop atoms (item # items) groups cur tot =
     (let n = atoms item
      in if cur \<noteq> [] \<and> TokensFromAtoms (tot + n) > MaxTokens
         then packLoop atoms items (groups @ [cur]) [item] n
         else packLoop atoms items groups (cur @ [item]) (tot + n))"

definition packByAtoms :: "('a \<Rightarrow> nat) \<Rightarrow> 'a list \<Rightarrow> 'a list list" where
  "packByAtoms atoms items = packLoop atoms items [] [] 0"

definition splitPieces :: "gostring \<Rightarrow> gostring list" where
  "splitPieces s = (let pieces = split [10, 10] s in if length pieces = 1 then SplitLines s else pieces)"

definition splitBlock :: "unicode \<Rightarrow> Block \<Rightarrow> Block list" where
  "splitBlock U b =
     (if EstimateTokens U (blkText b) \<le> MaxTokens then [b]
      else map (\<lambda>grp. b\<lparr>blkText := join [10] grp\<rparr>)
             (packByAtoms (CountAtoms U) (splitPieces (blkText b))))"

definition runStep :: "runT list \<Rightarrow> Block \<Rightarrow> runT list" where
  "runStep runs b =
     (if Subdivision b \<and> \<not> FigureOnly b
      then runs @ [\<lparr>rLabel = firstLine (blkText b), rBlocks = [b]\<rparr>]
      else if runs \<noteq> []
      then butlast runs @ [(last runs)\<lparr>rBlocks := rBlocks (last runs) @ [b]\<rparr>]
      else runs @ [\<lparr>rLabel = [], rBlocks = [b]\<rparr>])"

definition subheadingRuns :: "Block list \<Rightarrow> runT list" where
  "subheadingRuns blocks = foldl runStep [] blocks"

definition packedPath :: "gostring list \<Rightarrow> runT list \<Rightarrow> gostring list" where
  "packedPath headingPath runs =
     (let named = filter (\<lambda>l. l \<noteq> []) (map rLabel runs)
      in if length named = 1 then headingPath @ [hd named] else headingPath)"

definition subdivideAtHeadings :: "unicode \<Rightarrow> unitT \<Rightarrow> part list" where
  "subdivideAtHeadings U u =
     (let runs = subheadingRuns (uBlocks u)
      in if length runs \<le> 1 then [\<lparr>pPath = uHeadingPath u, pBlocks = uBlocks u\<rparr>]
         else map (\<lambda>packed. \<lparr>pPath = packedPath (uHeadingPath u) packed, pBlocks = runBlocks packed\<rparr>)
                (packByAtoms (runAtoms U) runs))"

definition capPart :: "unicode \<Rightarrow> part \<Rightarrow> part list" where
  "capPart U p =
     (if EstimateTokens U (joinTexts (pBlocks p)) \<le> MaxTokens then [p]
      else map (\<lambda>blocks. \<lparr>pPath = pPath p, pBlocks = blocks\<rparr>)
             (packByAtoms (blockAtoms U) (concat (map (splitBlock U) (pBlocks p)))))"

definition capAtBlocks :: "unicode \<Rightarrow> part list \<Rightarrow> part list" where
  "capAtBlocks U parts = concat (map (capPart U) parts)"

definition unitParts :: "unicode \<Rightarrow> unitT \<Rightarrow> part list" where
  "unitParts U u =
     (let t = unit_text u
      in if t = [] then []
         else if EstimateTokens U t \<le> MaxTokens then [\<lparr>pPath = uHeadingPath u, pBlocks = uBlocks u\<rparr>]
         else filter (\<lambda>p. anyText (pBlocks p)) (capAtBlocks U (subdivideAtHeadings U u)))"

subsection \<open>Emitting chunks\<close>

definition pageStep :: "int option \<times> int option \<Rightarrow> Block \<Rightarrow> int option \<times> int option" where
  "pageStep acc b =
     (case acc of (start, end) \<Rightarrow>
        (case map_of (Locator b) ''page'' of
           None \<Rightarrow> (start, end)
         | Some page \<Rightarrow>
             let lst = (case map_of (Locator b) ''page_end'' of None \<Rightarrow> page | Some l \<Rightarrow> l)
             in (lower start page, higher end lst)))"

definition pageRange :: "Block list \<Rightarrow> int option \<times> int option" where
  "pageRange blocks = foldl pageStep (None, None) blocks"

definition printedStep :: "int option \<Rightarrow> Block \<Rightarrow> int option" where
  "printedStep acc b = (case PrintedPage b of None \<Rightarrow> acc | Some p \<Rightarrow> lower acc p)"

definition firstPrintedPage :: "Block list \<Rightarrow> int option" where
  "firstPrintedPage blocks = foldl printedStep None blocks"

definition emit :: "int \<Rightarrow> gostring list \<Rightarrow> Block list \<Rightarrow> gostring option \<Rightarrow> Chunk option" where
  "emit ordinal path blocks section =
     (case blocks of
        [] \<Rightarrow> None
      | b # _ \<Rightarrow>
          (let (start, end) = pageRange blocks
           in Some \<lparr>chkSection = section, PageStart = start, PageEnd = end,
                 PrintedPageStart = firstPrintedPage blocks, chkURL = blkURL b,
                 chkFragment = blkFragment b, chkHeadingPath = joinPath path,
                 chkText = Strip (joinTexts blocks), Ordinal = ordinal,
                 chkImageCount = imageCount blocks, Kind = KindProse\<rparr>))"

fun emitParts :: "gostring option \<Rightarrow> part list \<Rightarrow> Chunk list \<Rightarrow> Chunk list option" where
  "emitParts section [] chunks = Some chunks"
| "emitParts section (p # ps) chunks =
     (case emit (int (length chunks)) (pPath p) (pBlocks p) section of
        None \<Rightarrow> None
      | Some c \<Rightarrow> emitParts section ps (chunks @ [c]))"

fun emitUnits :: "unicode \<Rightarrow> unitT list \<Rightarrow> Chunk list \<Rightarrow> Chunk list option" where
  "emitUnits U [] chunks = Some chunks"
| "emitUnits U (u # us) chunks =
     (case emitParts (uSection u) (unitParts U u) chunks of
        None \<Rightarrow> None
      | Some chunks' \<Rightarrow> emitUnits U us chunks')"

subsection \<open>Keyword reference families\<close>

text \<open>Case folding of an ASCII letter, as Go's \<^verbatim>\<open>(?i)\<close> does it: the Kelvin sign folds to \<^verbatim>\<open>k\<close> and the
  long s to \<^verbatim>\<open>s\<close>.\<close>

definition foldMatch :: "char \<Rightarrow> rune \<Rightarrow> bool" where
  "foldMatch c r =
     (r = ch c \<or> r = ch c - 32 \<or> (c = CHR ''k'' \<and> r = 0x212a) \<or> (c = CHR ''s'' \<and> r = 0x17f))"

fun matchWord :: "string \<Rightarrow> gostring \<Rightarrow> gostring option" where
  "matchWord [] s = Some s"
| "matchWord (c # w) [] = None"
| "matchWord (c # w) (r # s) = (if foldMatch c r then matchWord w s else None)"

definition matchPlural :: "string \<Rightarrow> gostring \<Rightarrow> gostring option" where
  "matchPlural w s =
     (case matchWord w s of
        None \<Rightarrow> None
      | Some t \<Rightarrow> (case matchWord ''s'' t of None \<Rightarrow> Some t | Some t' \<Rightarrow> Some t'))"

fun firstSome :: "('a \<Rightarrow> 'b option) list \<Rightarrow> 'a \<Rightarrow> 'b option" where
  "firstSome [] x = None"
| "firstSome (f # fs) x = (case f x of None \<Rightarrow> firstSome fs x | Some y \<Rightarrow> Some y)"

text \<open>\<^verbatim>\<open>[space]+\<close> before a word that starts with a letter takes the whole run of white space.\<close>

definition matchSpaced ::
  "(gostring \<Rightarrow> gostring option) list \<Rightarrow> (gostring \<Rightarrow> gostring option) list \<Rightarrow>
   gostring \<Rightarrow> gostring option" where
  "matchSpaced heads tails s =
     (case firstSome heads s of
        None \<Rightarrow> None
      | Some [] \<Rightarrow> None
      | Some (r # t) \<Rightarrow> if IsSpace r then firstSome tails (dropWhile IsSpace t) else None)"

text \<open>\<^verbatim>\<open>referenceParent\<close> at the start of a string: what is left after the match.\<close>

definition referenceParent :: "gostring \<Rightarrow> gostring option" where
  "referenceParent s =
     firstSome
       [matchPlural ''keyword'', matchWord ''glossary'',
        matchSpaced [matchWord ''error''] [matchPlural ''code'', matchPlural ''message''],
        matchSpaced [matchWord ''command'', matchWord ''api'', matchWord ''syntax'', matchWord ''function'']
          [matchWord ''reference'', matchWord ''index'', matchWord ''listing'']] s"

lemma matchWord_shrinks: "matchWord w s = Some t \<Longrightarrow> length t + length w = length s"
  by (induction w s rule: matchWord.induct) (auto split: if_splits)

definition shrinking :: "('a list \<Rightarrow> 'a list option) \<Rightarrow> bool" where
  "shrinking f \<longleftrightarrow> (\<forall>s t. f s = Some t \<longrightarrow> length t < length s)"

lemma matchWord_less: "matchWord w s = Some t \<Longrightarrow> w \<noteq> [] \<Longrightarrow> length t < length s"
  using matchWord_shrinks[of w s t] by (cases w) auto

lemma shrinking_word: "w \<noteq> [] \<Longrightarrow> shrinking (matchWord w)"
  by (auto simp: shrinking_def dest: matchWord_less)

lemma shrinking_plural: "w \<noteq> [] \<Longrightarrow> shrinking (matchPlural w)"
  unfolding shrinking_def matchPlural_def
  by (auto split: option.splits dest!: matchWord_less)

lemma shrinking_firstSome: "\<forall>f\<in>set fs. shrinking f \<Longrightarrow> shrinking (firstSome fs)"
  unfolding shrinking_def by (induction fs) (auto split: option.splits)

lemma shrinking_spaced:
  assumes "\<forall>f\<in>set heads. shrinking f" "\<forall>f\<in>set tails. shrinking f"
  shows "shrinking (matchSpaced heads tails)"
  unfolding shrinking_def
proof (intro allI impI)
  fix s t assume m: "matchSpaced heads tails s = Some t"
  then obtain r u where u: "firstSome heads s = Some (r # u)" "firstSome tails (dropWhile IsSpace u) = Some t"
    by (auto simp: matchSpaced_def split: option.splits list.splits if_splits)
  have "length (r # u) < length s"
    using shrinking_firstSome[OF assms(1)] u(1) unfolding shrinking_def by blast
  moreover have "length t < length (dropWhile IsSpace u)"
    using shrinking_firstSome[OF assms(2)] u(2) unfolding shrinking_def by blast
  ultimately show "length t < length s" using length_dropWhile_le[of IsSpace u] by simp
qed

lemma shrinking_referenceParent: "shrinking referenceParent"
  unfolding referenceParent_def
  by (intro shrinking_firstSome) (auto intro!: shrinking_word shrinking_plural shrinking_spaced)

lemma referenceParent_shrinks: "referenceParent s = Some t \<Longrightarrow> length t < length s"
  using shrinking_referenceParent by (simp add: shrinking_def)

text \<open>\<^verbatim>\<open>FindAllStringIndex\<close>: the leftmost matches that do not overlap, as offsets in the string.\<close>

function findListings :: "nat \<Rightarrow> gostring \<Rightarrow> (nat \<times> nat) list" where
  "findListings i [] = []"
| "findListings i (r # s) =
     (case referenceParent (r # s) of
        None \<Rightarrow> findListings (Suc i) s
      | Some t \<Rightarrow> (let j = i + (length (r # s) - length t) in (i, j) # findListings j t))"
  by pat_completeness auto
termination
  by (relation "measure (\<lambda>(i, s). length s)") (auto dest: referenceParent_shrinks)

definition wordBounded :: "unicode \<Rightarrow> gostring \<Rightarrow> nat \<Rightarrow> nat \<Rightarrow> bool" where
  "wordBounded U s start end =
     ((start = 0 \<or> \<not> IsWord U (s ! (start - 1))) \<and> (end = length s \<or> \<not> IsWord U (s ! end)))"

definition declaresListing :: "unicode \<Rightarrow> gostring \<Rightarrow> bool" where
  "declaresListing U heading =
     list_ex (\<lambda>(i, j). wordBounded U heading i j) (findListings 0 heading)"

fun letterWordsLoop :: "unicode \<Rightarrow> gostring \<Rightarrow> nat \<Rightarrow> bool \<Rightarrow> nat" where
  "letterWordsLoop U [] words inWord = words"
| "letterWordsLoop U (r # s) words inWord =
     (let letter = IsLetter U r
      in letterWordsLoop U s (if letter \<and> \<not> inWord then words + 1 else words) letter)"

definition letterWords :: "unicode \<Rightarrow> gostring \<Rightarrow> nat" where
  "letterWords U s = letterWordsLoop U s 0 False"

fun familyLoop :: "unicode \<Rightarrow> gostring list \<Rightarrow> gostring list \<Rightarrow> gostring option" where
  "familyLoop U before (p # q # ps) =
     (if declaresListing U p then Some (join PathSep (before @ [p]))
      else familyLoop U (before @ [p]) (q # ps))"
| "familyLoop U before _ = None"

definition referenceFamily :: "unicode \<Rightarrow> gostring \<Rightarrow> gostring option" where
  "referenceFamily U headingPath = familyLoop U [] (split PathSep headingPath)"

definition leafOf :: "gostring \<Rightarrow> gostring" where
  "leafOf path =
     (case last_index path PathSep of None \<Rightarrow> path | Some i \<Rightarrow> drop (i + length PathSep) path)"

definition isReferenceListing :: "unicode \<Rightarrow> Chunk list \<Rightarrow> nat list \<Rightarrow> bool" where
  "isReferenceListing U chunks members =
     (if length members < ReferenceFamilyMin then False
      else let named = length (filter (\<lambda>i. letterWords U (leafOf (chkHeadingPath (chunks ! i)))
                                          \<le> referenceLeafMaxWords) members)
           in rnd (of_nat named / of_nat (length members)) \<ge> rnd referenceLeafRate)"

fun addMember :: "gostring \<Rightarrow> nat \<Rightarrow> (gostring \<times> nat list) list \<Rightarrow> (gostring \<times> nat list) list" where
  "addMember key i [] = [(key, [i])]"
| "addMember key i ((k, is) # fs) =
     (if k = key then (k, is @ [i]) # fs else (k, is) # addMember key i fs)"

fun families :: "unicode \<Rightarrow> Chunk list \<Rightarrow> nat \<Rightarrow> (gostring \<times> nat list) list \<Rightarrow> (gostring \<times> nat list) list"
where
  "families U [] i fs = fs"
| "families U (c # cs) i fs =
     families U cs (Suc i)
       (case referenceFamily U (chkHeadingPath c) of None \<Rightarrow> fs | Some key \<Rightarrow> addMember key i fs)"

definition markMember :: "Chunk list \<Rightarrow> nat \<Rightarrow> Chunk list" where
  "markMember chunks i = chunks[i := (chunks ! i)\<lparr>Kind := KindKeywordReference\<rparr>]"

definition markFamily :: "unicode \<Rightarrow> Chunk list \<Rightarrow> gostring \<times> nat list \<Rightarrow> Chunk list" where
  "markFamily U chunks fam =
     (if \<not> isReferenceListing U chunks (snd fam) then chunks else foldl markMember chunks (snd fam))"

definition ClassifyKinds :: "unicode \<Rightarrow> Chunk list \<Rightarrow> Chunk list" where
  "ClassifyKinds U chunks = foldl (markFamily U) chunks (families U chunks 0 [])"

definition Chunks :: "unicode \<Rightarrow> Extraction \<Rightarrow> Chunk list option" where
  "Chunks U ext =
     map_option (ClassifyKinds U)
       (emitUnits U (foldChapterStubs U (mergeSmall U (groupBlocks (Blocks ext)))) [])"

end
