(* ===== verification/Chunking_Props.thy ===== *)
theory Chunking_Props
  imports Chunking
begin

text \<open>
  What chunking promises: nothing but white space is lost and nothing is reordered, ordinals number
  the chunks from 0, no chunk is empty, a chunk over the cap is a single line or paragraph of its
  block, no unit mixes unrelated sections, and classification changes kinds only.
\<close>

subsection \<open>Visible text\<close>

definition visible :: "gostring \<Rightarrow> gostring" where
  "visible s = filter (\<lambda>r. \<not> IsSpace r) s"

definition visibleBlocks :: "Block list \<Rightarrow> gostring" where
  "visibleBlocks bs = concat (map (\<lambda>b. visible (blkText b)) bs)"

lemma visible_append [simp]: "visible (s @ t) = visible s @ visible t"
  by (simp add: visible_def)

lemma visible_Nil [simp]: "visible [] = []"
  by (simp add: visible_def)

lemma visible_newline [simp]: "visible (10 # s) = visible s"
  by (simp add: visible_def newline_space)

lemma visible_Nil_iff: "visible s = [] \<longleftrightarrow> (\<forall>r\<in>set s. IsSpace r)"
  by (auto simp: visible_def filter_empty_conv)

lemma visible_dropWhile [simp]: "visible (dropWhile IsSpace s) = visible s"
  by (induction s) (auto simp: visible_def)

lemma visible_rev: "visible (rev s) = rev (visible s)"
  by (simp add: visible_def rev_filter)

lemma visible_Strip [simp]: "visible (Strip s) = visible s"
  by (simp add: Strip_def trim_func_def visible_rev)

lemma Strip_empty_iff: "Strip s = [] \<longleftrightarrow> visible s = []"
  by (simp add: Strip_def trim_func_empty_iff visible_Nil_iff)

lemma visible_join: "visible sep = [] \<Longrightarrow> visible (join sep ts) = concat (map visible ts)"
  by (induction sep ts rule: join.induct) auto

lemma visible_joinTexts: "visible (joinTexts bs) = visibleBlocks bs"
  by (simp add: joinTexts_def visible_join visibleBlocks_def comp_def)

lemma visibleBlocks_append [simp]: "visibleBlocks (as @ bs) = visibleBlocks as @ visibleBlocks bs"
  by (simp add: visibleBlocks_def)

lemma visibleBlocks_Nil [simp]: "visibleBlocks [] = []"
  by (simp add: visibleBlocks_def)

lemma visibleBlocks_Cons [simp]: "visibleBlocks (b # bs) = visible (blkText b) @ visibleBlocks bs"
  by (simp add: visibleBlocks_def)

lemma visibleBlocks_concat: "visibleBlocks (concat bss) = concat (map visibleBlocks bss)"
  by (induction bss) auto

lemma break_is_space: "in_table lineBreakTable r \<Longrightarrow> IsSpace r"
  unfolding IsSpace_def lineBreakTable_def spaceTable_def in_table_Cons in_table_Nil
  by (elim disjE conjE FalseE; simp)

lemma firstLineBreak_at:
  "firstLineBreak s = Some (i, w) \<Longrightarrow> visible (take w (drop i s)) = []"
proof (induction s arbitrary: i)
  case (Cons r s)
  show ?case
  proof (cases "in_table lineBreakTable r")
    case True
    have "IsSpace r" using True by (rule break_is_space)
    moreover have "s = 10 # t \<Longrightarrow> visible (take 1 s) = []" for t by simp
    ultimately show ?thesis
      using Cons.prems True
      by (auto simp: visible_Nil_iff has_prefix_iff newline_space take_Cons' split: if_splits)
  next
    case False
    with Cons show ?thesis by (auto split: option.splits)
  qed
qed simp

lemma visible_SplitLines: "concat (map visible (SplitLines s)) = visible s"
proof (induction s rule: SplitLines.induct)
  case (1 s)
  show ?case
  proof (cases "s = [] \<or> firstLineBreak s = None")
    case True
    then show ?thesis by (subst SplitLines.simps) auto
  next
    case False
    then obtain i w where f: "firstLineBreak s = Some (i, w)" by fastforce
    have "s = take i s @ take w (drop i s) @ drop (i + w) s"
      by (metis append_assoc append_take_drop_id take_add drop_drop add.commute)
    then have "visible s = visible (take i s) @ visible (drop (i + w) s)"
      using firstLineBreak_at[OF f] by (metis append_Nil visible_append)
    with f False 1 show ?thesis by (subst SplitLines.simps) simp
  qed
qed

lemma visible_splitPieces: "concat (map visible (splitPieces s)) = visible s"
proof -
  have "concat (map visible (split [10, 10] s)) = visible (join [10, 10] (split [10, 10] s))"
    by (simp add: visible_join)
  then show ?thesis by (simp add: splitPieces_def Let_def visible_SplitLines join_split)
qed

subsection \<open>Packing\<close>

lemma packLoop_concat: "concat (packLoop f items gs cur tot) = concat gs @ cur @ items"
  by (induction f items gs cur tot rule: packLoop.induct) (auto simp: Let_def)

lemma packByAtoms_concat: "concat (packByAtoms f items) = items"
  by (simp add: packByAtoms_def packLoop_concat)

lemma packLoop_nonempty: "[] \<notin> set gs \<Longrightarrow> [] \<notin> set (packLoop f items gs cur tot)"
  by (induction f items gs cur tot rule: packLoop.induct) (auto simp: Let_def)

lemma packByAtoms_nonempty: "g \<in> set (packByAtoms f items) \<Longrightarrow> g \<noteq> []"
  using packLoop_nonempty[of "[]" f items "[]" 0] by (auto simp: packByAtoms_def)

definition fits :: "('a \<Rightarrow> nat) \<Rightarrow> 'a list \<Rightarrow> bool" where
  "fits f g \<longleftrightarrow> length g \<le> 1 \<or> TokensFromAtoms (sum_list (map f g)) \<le> MaxTokens"

lemma packLoop_fits:
  assumes "\<forall>g\<in>set gs. fits f g" "fits f cur" "tot = sum_list (map f cur)"
  shows "\<forall>g\<in>set (packLoop f items gs cur tot). fits f g"
  using assms
proof (induction f items gs cur tot rule: packLoop.induct)
  case (2 f item items gs cur tot)
  show ?case
  proof (cases "cur \<noteq> [] \<and> TokensFromAtoms (tot + f item) > MaxTokens")
    case True
    with 2 show ?thesis by (auto simp: Let_def fits_def)
  next
    case False
    then have "fits f (cur @ [item])" using 2 by (auto simp: fits_def)
    with 2 False show ?thesis by (auto simp: Let_def)
  qed
qed auto

lemma packByAtoms_fits: "g \<in> set (packByAtoms f items) \<Longrightarrow> fits f g"
  unfolding packByAtoms_def using packLoop_fits[of "[]" f "[]" 0 items] by (auto simp: fits_def)

subsection \<open>Units keep their blocks\<close>

abbreviation unitBlocks :: "unitT list \<Rightarrow> Block list" where
  "unitBlocks us \<equiv> concat (map uBlocks us)"

lemma sameSection_iff [simp]: "sameSection a b \<longleftrightarrow> a = b"
  by (auto simp: sameSection_def)

lemma groupStep_blocks: "unitBlocks (groupStep us b) = unitBlocks us @ [b]"
proof (cases us rule: rev_cases)
  case (snoc vs v)
  then show ?thesis by (simp add: groupStep_def)
qed (simp add: groupStep_def)

lemma groupBlocks_blocks: "unitBlocks (groupBlocks bs) = bs"
proof -
  have "unitBlocks (foldl groupStep us bs) = unitBlocks us @ bs" for us
    by (induction bs arbitrary: us) (simp_all add: groupStep_blocks)
  then show ?thesis by (simp add: groupBlocks_def)
qed

text \<open>A unit is sound when it holds blocks and each of them belongs to its section or to an
  ancestor section whose stub was folded in.\<close>

definition filed :: "gostring option \<Rightarrow> Block \<Rightarrow> bool" where
  "filed sec b \<longleftrightarrow> Section b = sec \<or> isDescendant sec (Section b)"

definition sound_unit :: "unitT \<Rightarrow> bool" where
  "sound_unit u \<longleftrightarrow> uBlocks u \<noteq> [] \<and> list_all (filed (uSection u)) (uBlocks u)"

lemma filed_refl: "filed (Section b) b"
  by (simp add: filed_def)

lemma sound_unit_make [simp]:
  "sound_unit \<lparr>uSection = sec, uHeadingPath = path, uBlocks = bs\<rparr> \<longleftrightarrow> bs \<noteq> [] \<and> list_all (filed sec) bs"
  by (simp add: sound_unit_def)

lemma sound_unit_extend:
  "sound_unit u \<Longrightarrow> uSection u = Section b \<Longrightarrow> sound_unit (u\<lparr>uBlocks := uBlocks u @ [b]\<rparr>)"
  by (simp add: sound_unit_def filed_refl)

lemma groupStep_sound:
  assumes "list_all sound_unit us"
  shows "list_all sound_unit (groupStep us b)"
proof (cases us rule: rev_cases)
  case (snoc vs v)
  with assms have "list_all sound_unit vs" "sound_unit v" by simp_all
  with snoc show ?thesis by (simp add: groupStep_def sound_unit_extend filed_refl)
qed (simp add: groupStep_def filed_refl)

lemma groupBlocks_sound: "list_all sound_unit (groupBlocks bs)"
proof -
  have "list_all sound_unit us \<Longrightarrow> list_all sound_unit (foldl groupStep us bs)" for us
    by (induction bs arbitrary: us) (simp_all add: groupStep_sound)
  then show ?thesis by (simp add: groupBlocks_def)
qed

lemma absorb_blocks:
  "absorbFollowing U cur us = (m, rest) \<Longrightarrow> uBlocks cur @ unitBlocks us = uBlocks m @ unitBlocks rest"
  by (induction U cur us arbitrary: m rest rule: absorbFollowing.induct) (auto split: if_splits)

lemma absorb_sound:
  "absorbFollowing U cur us = (m, rest) \<Longrightarrow> sound_unit cur \<Longrightarrow> list_all sound_unit us \<Longrightarrow>
   sound_unit m \<and> list_all sound_unit rest"
proof (induction U cur us arbitrary: m rest rule: absorbFollowing.induct)
  case (2 U cur u us)
  show ?case
  proof (cases "unit_tokens U cur < MinTokens \<and> mergeable cur u")
    case True
    have "sound_unit \<lparr>uSection = uSection cur, uHeadingPath = parentOrSelf (uHeadingPath cur),
        uBlocks = uBlocks cur @ uBlocks u\<rparr>"
      using 2(3,4) True by (simp add: mergeable_def) (simp add: sound_unit_def)
    with 2 True show ?thesis by simp
  next
    case False
    with 2(2-) show ?thesis by auto
  qed
qed simp

lemma mergeSmall_blocks: "unitBlocks (mergeSmall U us) = unitBlocks us"
proof (induction U us rule: mergeSmall.induct)
  case (2 U u us)
  obtain m rest where m: "absorbFollowing U u us = (m, rest)" by fastforce
  with 2 have "unitBlocks (mergeSmall U rest) = unitBlocks rest" by simp
  with m show ?case using absorb_blocks[OF m] by simp
qed simp

lemma mergeSmall_sound: "list_all sound_unit us \<Longrightarrow> list_all sound_unit (mergeSmall U us)"
proof (induction U us rule: mergeSmall.induct)
  case (2 U u us)
  obtain m rest where m: "absorbFollowing U u us = (m, rest)" by fastforce
  then have "sound_unit m" "list_all sound_unit rest" using absorb_sound[OF m] 2 by auto
  with 2 m show ?case by simp
qed simp

lemma foldChapterStubs_blocks: "unitBlocks (foldChapterStubs U us) = unitBlocks us"
  by (induction U us rule: foldChapterStubs.induct) auto

lemma isDescendant_trans:
  "isDescendant c b \<Longrightarrow> isDescendant b a \<Longrightarrow> isDescendant c a"
  by (auto simp: isDescendant_def has_prefix_iff split: if_splits)

lemma filed_descendant: "isDescendant sec par \<Longrightarrow> filed par b \<Longrightarrow> filed sec b"
  unfolding filed_def using isDescendant_trans by blast

lemma foldChapterStubs_sound:
  "list_all sound_unit us \<Longrightarrow> list_all sound_unit (foldChapterStubs U us)"
proof (induction U us rule: foldChapterStubs.induct)
  case (1 U cur nxt us)
  show ?case
  proof (cases "isStub U cur nxt")
    case True
    then have "isDescendant (uSection nxt) (uSection cur)" by (simp add: isStub_def)
    with 1(3) have "list_all (filed (uSection nxt)) (uBlocks cur)"
      unfolding sound_unit_def list_all_iff using filed_descendant by auto
    with 1 True show ?thesis by (simp add: sound_unit_def)
  next
    case False
    with 1 show ?thesis by simp
  qed
qed auto

definition shapedUnits :: "unicode \<Rightarrow> Block list \<Rightarrow> unitT list" where
  "shapedUnits U bs = foldChapterStubs U (mergeSmall U (groupBlocks bs))"

lemma shapedUnits_blocks: "unitBlocks (shapedUnits U bs) = bs"
  by (simp add: shapedUnits_def foldChapterStubs_blocks mergeSmall_blocks groupBlocks_blocks)

lemma shapedUnits_sound: "u \<in> set (shapedUnits U bs) \<Longrightarrow> sound_unit u"
  unfolding shapedUnits_def
  using foldChapterStubs_sound[OF mergeSmall_sound[OF groupBlocks_sound]] by (auto simp: list_all_iff)

subsection \<open>Parts keep the visible text\<close>

abbreviation partBlocks :: "part list \<Rightarrow> Block list" where
  "partBlocks ps \<equiv> concat (map pBlocks ps)"

lemma runStep_blocks: "runBlocks (runStep rs b) = runBlocks rs @ [b]"
proof (cases rs rule: rev_cases)
  case (snoc vs v)
  then show ?thesis by (simp add: runStep_def runBlocks_def)
qed (simp add: runStep_def runBlocks_def)

lemma subheadingRuns_blocks: "runBlocks (subheadingRuns bs) = bs"
proof -
  have "runBlocks (foldl runStep rs bs) = runBlocks rs @ bs" for rs
    by (induction bs arbitrary: rs) (simp_all add: runStep_blocks)
  then show ?thesis by (simp add: subheadingRuns_def) (simp add: runBlocks_def)
qed

lemma runStep_nonempty:
  "list_all (\<lambda>r. rBlocks r \<noteq> []) rs \<Longrightarrow> list_all (\<lambda>r. rBlocks r \<noteq> []) (runStep rs b)"
  by (cases rs rule: rev_cases) (simp_all add: runStep_def)

lemma subheadingRuns_nonempty:
  assumes "r \<in> set (subheadingRuns bs)"
  shows "rBlocks r \<noteq> []"
proof -
  have "list_all (\<lambda>r. rBlocks r \<noteq> []) rs \<Longrightarrow> list_all (\<lambda>r. rBlocks r \<noteq> []) (foldl runStep rs bs)" for rs
    by (induction bs arbitrary: rs) (simp_all add: runStep_nonempty)
  from this[of "[]"] assms show ?thesis by (auto simp: subheadingRuns_def list_all_iff)
qed

lemma runBlocks_concat: "concat (map runBlocks rss) = runBlocks (concat rss)"
  by (induction rss) (auto simp: runBlocks_def)

lemma subdivide_blocks: "partBlocks (subdivideAtHeadings U u) = uBlocks u"
  by (simp add: subdivideAtHeadings_def Let_def comp_def runBlocks_concat packByAtoms_concat
      subheadingRuns_blocks)

lemma subdivide_nonempty:
  assumes "uBlocks u \<noteq> []" "p \<in> set (subdivideAtHeadings U u)"
  shows "pBlocks p \<noteq> []"
proof -
  have "runBlocks g \<noteq> []" if g: "g \<in> set (packByAtoms f (subheadingRuns bs))" for g f bs
  proof -
    obtain r rs where r: "g = r # rs" using packByAtoms_nonempty[OF g] by (cases g) auto
    have "r \<in> set (concat (packByAtoms f (subheadingRuns bs)))"
      unfolding set_concat using g r by (intro UN_I[of g]) auto
    then have "rBlocks r \<noteq> []" unfolding packByAtoms_concat by (rule subheadingRuns_nonempty)
    with r show ?thesis by (simp add: runBlocks_def)
  qed
  with assms show ?thesis by (auto simp: subdivideAtHeadings_def Let_def split: if_splits)
qed

lemma splitBlock_visible: "visibleBlocks (splitBlock U b) = visible (blkText b)"
proof -
  have "concat (map (\<lambda>g. visible (join [10] g)) gs) = concat (map visible (concat gs))" for gs
    by (induction gs) (auto simp: visible_join)
  from this[of "packByAtoms (CountAtoms U) (splitPieces (blkText b))"] show ?thesis
    by (auto simp: splitBlock_def visibleBlocks_def comp_def packByAtoms_concat visible_splitPieces)
qed

lemma capPart_visible: "visibleBlocks (partBlocks (capPart U p)) = visibleBlocks (pBlocks p)"
proof -
  have "visibleBlocks (concat (map (splitBlock U) bs)) = visibleBlocks bs" for bs
    by (induction bs) (auto simp: splitBlock_visible)
  then show ?thesis by (simp add: capPart_def comp_def packByAtoms_concat)
qed

lemma capPart_nonempty: "pBlocks p \<noteq> [] \<Longrightarrow> q \<in> set (capPart U p) \<Longrightarrow> pBlocks q \<noteq> []"
  by (auto simp: capPart_def packByAtoms_nonempty split: if_splits)

lemma capAtBlocks_visible: "visibleBlocks (partBlocks (capAtBlocks U ps)) = visibleBlocks (partBlocks ps)"
  by (induction ps) (auto simp: capAtBlocks_def capPart_visible)

lemma anyText_visible: "anyText bs \<longleftrightarrow> visibleBlocks bs \<noteq> []"
  by (auto simp: anyText_def list_ex_iff Strip_empty_iff visibleBlocks_def)

lemma visible_filtered:
  "visibleBlocks (partBlocks (filter (\<lambda>p. anyText (pBlocks p)) ps)) = visibleBlocks (partBlocks ps)"
  by (induction ps) (auto simp: anyText_visible)

lemma unitParts_visible: "visibleBlocks (partBlocks (unitParts U u)) = visibleBlocks (uBlocks u)"
proof (cases "unit_text u = []")
  case True
  then have "visibleBlocks (uBlocks u) = []"
    by (simp add: unit_text_def Strip_empty_iff visible_joinTexts)
  with True show ?thesis by (simp add: unitParts_def)
next
  case False
  then show ?thesis
    by (simp add: unitParts_def Let_def visible_filtered capAtBlocks_visible subdivide_blocks)
qed

lemma unitParts_text:
  assumes "sound_unit u" "p \<in> set (unitParts U u)"
  shows "pBlocks p \<noteq> []" "Strip (joinTexts (pBlocks p)) \<noteq> []"
proof -
  have u: "uBlocks u \<noteq> []" using assms(1) by (simp add: sound_unit_def)
  have "pBlocks p \<noteq> [] \<and> Strip (joinTexts (pBlocks p)) \<noteq> []"
  proof (cases "EstimateTokens U (unit_text u) \<le> MaxTokens")
    case True
    with assms u show ?thesis
      by (auto simp: unitParts_def Let_def unit_text_def split: if_splits)
  next
    case False
    with assms obtain q where "anyText (pBlocks p)" "q \<in> set (subdivideAtHeadings U u)" "p \<in> set (capPart U q)"
      by (auto simp: unitParts_def Let_def capAtBlocks_def split: if_splits)
    then show ?thesis
      using capPart_nonempty subdivide_nonempty[OF u]
      by (auto simp: Strip_empty_iff visible_joinTexts anyText_visible)
  qed
  then show "pBlocks p \<noteq> []" "Strip (joinTexts (pBlocks p)) \<noteq> []" by auto
qed


subsection \<open>Emission\<close>

type_synonym piece = "gostring option \<times> part"

definition unitPieces :: "unicode \<Rightarrow> unitT list \<Rightarrow> piece list" where
  "unitPieces U us = concat (map (\<lambda>u. map (Pair (uSection u)) (unitParts U u)) us)"

definition mkChunk :: "nat \<Rightarrow> piece \<Rightarrow> Chunk" where
  "mkChunk n x = the (emit (int n) (pPath (snd x)) (pBlocks (snd x)) (fst x))"

fun emitList :: "nat \<Rightarrow> piece list \<Rightarrow> Chunk list" where
  "emitList n [] = []"
| "emitList n (x # xs) = mkChunk n x # emitList (Suc n) xs"

lemma emit_mkChunk:
  assumes "pBlocks p \<noteq> []"
  shows "emit (int n) (pPath p) (pBlocks p) s = Some (mkChunk n (s, p))"
    and "chkText (mkChunk n (s, p)) = Strip (joinTexts (pBlocks p))"
    and "Ordinal (mkChunk n (s, p)) = int n"
    and "chkSection (mkChunk n (s, p)) = s"
  using assms by (cases "pBlocks p"; simp add: mkChunk_def emit_def split: prod.split)+

lemma emitList_append: "emitList n (xs @ ys) = emitList n xs @ emitList (n + length xs) ys"
  by (induction xs arbitrary: n) auto

lemma emitList_length [simp]: "length (emitList n xs) = length xs"
  by (induction xs arbitrary: n) auto

lemma emitParts_eq:
  "list_all (\<lambda>p. pBlocks p \<noteq> []) ps \<Longrightarrow>
   emitParts s ps cs = Some (cs @ emitList (length cs) (map (Pair s) ps))"
  by (induction ps arbitrary: cs) (simp_all add: emit_mkChunk(1))

lemma emitUnits_eq:
  "list_all sound_unit us \<Longrightarrow>
   emitUnits U us cs = Some (cs @ emitList (length cs) (unitPieces U us))"
proof (induction us arbitrary: cs)
  case (Cons u us)
  then have "list_all (\<lambda>p. pBlocks p \<noteq> []) (unitParts U u)"
    using unitParts_text(1)[of u] by (auto simp: list_all_iff)
  with Cons show ?case
    by (simp add: emitParts_eq unitPieces_def emitList_append)
qed (simp add: unitPieces_def)

definition pieces :: "unicode \<Rightarrow> Extraction \<Rightarrow> piece list" where
  "pieces U ext = unitPieces U (shapedUnits U (Blocks ext))"

lemma Chunks_eq: "Chunks U ext = Some (ClassifyKinds U (emitList 0 (pieces U ext)))"
proof -
  have "list_all sound_unit (shapedUnits U (Blocks ext))"
    using shapedUnits_sound by (auto simp: list_all_iff)
  from emitUnits_eq[OF this] show ?thesis
    by (simp add: Chunks_def pieces_def shapedUnits_def)
qed

lemma pieces_text:
  assumes "(s, p) \<in> set (pieces U ext)"
  shows "pBlocks p \<noteq> []" "Strip (joinTexts (pBlocks p)) \<noteq> []"
proof -
  from assms obtain u where "u \<in> set (shapedUnits U (Blocks ext))" "p \<in> set (unitParts U u)"
    by (auto simp: pieces_def unitPieces_def)
  then show "pBlocks p \<noteq> []" "Strip (joinTexts (pBlocks p)) \<noteq> []"
    using unitParts_text[OF shapedUnits_sound] by auto
qed

lemma pieces_visible: "visibleBlocks (concat (map (pBlocks \<circ> snd) (pieces U ext))) = visibleBlocks (Blocks ext)"
proof -
  have "visibleBlocks (concat (map (pBlocks \<circ> snd) (unitPieces U us))) = visibleBlocks (unitBlocks us)" for us
    by (induction us) (simp_all add: unitPieces_def comp_def unitParts_visible)
  then show ?thesis by (simp add: pieces_def shapedUnits_blocks)
qed

lemma emitList_texts:
  "list_all (\<lambda>x. pBlocks (snd x) \<noteq> []) xs \<Longrightarrow>
   map chkText (emitList n xs) = map (\<lambda>x. Strip (joinTexts (pBlocks (snd x)))) xs"
  by (induction xs arbitrary: n) (auto simp: emit_mkChunk)

lemma emitList_ordinals:
  "list_all (\<lambda>x. pBlocks (snd x) \<noteq> []) xs \<Longrightarrow> map Ordinal (emitList n xs) = map int [n..<n + length xs]"
proof (induction xs arbitrary: n)
  case (Cons x xs)
  have "[n..<n + length (x # xs)] = n # [Suc n..<Suc n + length xs]" by (simp add: upt_conv_Cons del: upt_Suc)
  with Cons show ?case by (cases x) (simp add: emit_mkChunk del: upt_Suc)
qed simp

lemma pieces_nonempty: "list_all (\<lambda>x. pBlocks (snd x) \<noteq> []) (pieces U ext)"
  using pieces_text(1) by (fastforce simp: list_all_iff)

subsection \<open>Classification\<close>

definition unkind :: "Chunk \<Rightarrow> Chunk" where
  "unkind c = c\<lparr>Kind := KindProse\<rparr>"

lemma unkind_sel [simp]:
  "chkText (unkind c) = chkText c" "Ordinal (unkind c) = Ordinal c"
  "chkHeadingPath (unkind c) = chkHeadingPath c" "chkSection (unkind c) = chkSection c"
  "PageStart (unkind c) = PageStart c" "PageEnd (unkind c) = PageEnd c"
  by (simp_all add: unkind_def)

lemma unkind_mark [simp]: "unkind (c\<lparr>Kind := k\<rparr>) = unkind c"
  by (simp add: unkind_def)

lemma markMember_unkind: "map unkind (markMember cs i) = map unkind cs"
  by (cases "i < length cs")
    (auto simp: markMember_def map_update list_update_beyond intro: list_update_same_conv[THEN iffD2])

lemma foldl_markMember_unkind: "map unkind (foldl markMember cs is) = map unkind cs"
  by (induction "is" arbitrary: cs) (simp_all add: markMember_unkind)

lemma markFamily_unkind: "map unkind (markFamily U cs f) = map unkind cs"
  by (simp add: markFamily_def foldl_markMember_unkind)

lemma foldl_markFamily_unkind: "map unkind (foldl (markFamily U) cs fs) = map unkind cs"
  by (induction fs arbitrary: cs) (simp_all add: markFamily_unkind)

lemma ClassifyKinds_unkind: "map unkind (ClassifyKinds U cs) = map unkind cs"
  by (simp add: ClassifyKinds_def foldl_markFamily_unkind)

lemma map_via_unkind:
  assumes "map unkind xs = map unkind ys" "\<And>c. f (unkind c) = f c"
  shows "map f xs = map f ys"
proof -
  have "map f xs = map f (map unkind xs)" "map f ys = map f (map unkind ys)"
    by (simp_all add: comp_def assms(2))
  with assms(1) show ?thesis by simp
qed

lemmas ClassifyKinds_texts = map_via_unkind[OF ClassifyKinds_unkind, of chkText]
lemmas ClassifyKinds_ordinals = map_via_unkind[OF ClassifyKinds_unkind, of Ordinal]
lemmas ClassifyKinds_sections = map_via_unkind[OF ClassifyKinds_unkind, of chkSection]

lemma ClassifyKinds_length [simp]: "length (ClassifyKinds U cs) = length cs"
  using arg_cong[OF ClassifyKinds_unkind, of length] by simp

lemma Chunks_texts:
  "Chunks U ext = Some cs \<Longrightarrow> map chkText cs = map (\<lambda>x. Strip (joinTexts (pBlocks (snd x)))) (pieces U ext)"
  by (auto simp: Chunks_eq ClassifyKinds_texts emitList_texts pieces_nonempty)


text \<open>The members of a family, in document order.\<close>

fun memFrom :: "unicode \<Rightarrow> Chunk list \<Rightarrow> nat \<Rightarrow> gostring \<Rightarrow> nat list" where
  "memFrom U [] i key = []"
| "memFrom U (c # cs) i key =
     (if referenceFamily U (chkHeadingPath c) = Some key then [i] else []) @ memFrom U cs (Suc i) key"

abbreviation members :: "unicode \<Rightarrow> Chunk list \<Rightarrow> gostring \<Rightarrow> nat list" where
  "members U cs key \<equiv> memFrom U cs 0 key"

lemma memFrom_iff:
  "j \<in> set (memFrom U cs i key) \<longleftrightarrow>
   i \<le> j \<and> j < i + length cs \<and> referenceFamily U (chkHeadingPath (cs ! (j - i))) = Some key"
proof (induction cs arbitrary: i)
  case (Cons c cs)
  have "i < j \<Longrightarrow> (c # cs) ! (j - i) = cs ! (j - Suc i)" by (simp add: nth_Cons')
  then show ?case
    using Cons.IH[of "Suc i"] by (cases "j = i") (auto simp: Suc_le_eq)
qed simp

definition famLookup :: "(gostring \<times> nat list) list \<Rightarrow> gostring \<Rightarrow> nat list" where
  "famLookup fs k = (case map_of fs k of None \<Rightarrow> [] | Some l \<Rightarrow> l)"

lemma famLookup_add:
  "famLookup (addMember key i fs) k = famLookup fs k @ (if k = key then [i] else [])"
  by (induction key i fs rule: addMember.induct) (auto simp: famLookup_def)

lemma addMember_keys: "fst ` set (addMember key i fs) = insert key (fst ` set fs)"
  by (induction key i fs rule: addMember.induct) auto

lemma addMember_distinct: "distinct (map fst fs) \<Longrightarrow> distinct (map fst (addMember key i fs))"
  by (induction key i fs rule: addMember.induct) (auto simp: addMember_keys simp del: set_map simp: set_map)

lemma families_lookup: "famLookup (families U cs i fs) k = famLookup fs k @ memFrom U cs i k"
  by (induction U cs i fs rule: families.induct) (auto simp: famLookup_add split: option.splits)

lemma families_distinct: "distinct (map fst fs) \<Longrightarrow> distinct (map fst (families U cs i fs))"
  by (induction U cs i fs rule: families.induct) (auto simp: addMember_distinct split: option.splits)

lemma families_keys:
  "k \<in> fst ` set (families U cs i fs) \<longleftrightarrow> k \<in> fst ` set fs \<or> memFrom U cs i k \<noteq> []"
  by (induction U cs i fs rule: families.induct) (auto simp: addMember_keys split: option.splits)

lemma families_iff:
  "(k, l) \<in> set (families U cs 0 []) \<longleftrightarrow> l = members U cs k \<and> l \<noteq> []"
proof -
  let ?f = "families U cs 0 []"
  have d: "distinct (map fst ?f)" by (rule families_distinct) simp
  have m: "famLookup ?f k = members U cs k"
    using families_lookup[of U cs 0 "[]" k] by (simp add: famLookup_def[of "[]"])
  show ?thesis
  proof
    assume kl: "(k, l) \<in> set ?f"
    then have "map_of ?f k = Some l" using d by simp
    moreover have "k \<in> fst ` set ?f" using kl by force
    ultimately show "l = members U cs k \<and> l \<noteq> []"
      using m families_keys[of k U cs 0 "[]"] by (auto simp: famLookup_def)
  next
    assume l: "l = members U cs k \<and> l \<noteq> []"
    then have "map_of ?f k \<noteq> None"
      using families_keys[of k U cs 0 "[]"] by (auto simp: map_of_eq_None_iff)
    with m l have "map_of ?f k = Some l" by (auto simp: famLookup_def)
    then show "(k, l) \<in> set ?f" by (rule map_of_SomeD)
  qed
qed

lemma isReferenceListing_cong:
  assumes "map unkind cs = map unkind ds" "\<forall>i\<in>set is. i < length ds"
  shows "isReferenceListing U cs is = isReferenceListing U ds is"
proof -
  have len: "length cs = length ds" using arg_cong[OF assms(1), of length] by simp
  have "chkHeadingPath (cs ! i) = chkHeadingPath (ds ! i)" if "i < length ds" for i
    using arg_cong[OF assms(1), of "\<lambda>l. chkHeadingPath (l ! i)"] that len by simp
  then have "filter (\<lambda>i. letterWords U (leafOf (chkHeadingPath (cs ! i))) \<le> referenceLeafMaxWords) is
      = filter (\<lambda>i. letterWords U (leafOf (chkHeadingPath (ds ! i))) \<le> referenceLeafMaxWords) is"
    using assms(2) by (intro filter_cong) auto
  then show ?thesis by (simp add: isReferenceListing_def)
qed

lemma markMembers_kind:
  assumes "j < length cs"
  shows "Kind (foldl markMember cs is ! j) = (if j \<in> set is then KindKeywordReference else Kind (cs ! j))"
  using assms by (induction "is" arbitrary: cs) (auto simp: markMember_def nth_list_update)

lemma foldl_markMember_length [simp]: "length (foldl markMember cs is) = length cs"
  by (induction "is" arbitrary: cs) (auto simp: markMember_def)

lemma markFamilies_kind:
  assumes "map unkind ds = map unkind cs" "j < length cs" "\<forall>f\<in>set fs. \<forall>i\<in>set (snd f). i < length cs"
  shows "Kind (foldl (markFamily U) ds fs ! j) =
    (if \<exists>f\<in>set fs. j \<in> set (snd f) \<and> isReferenceListing U cs (snd f)
     then KindKeywordReference else Kind (ds ! j))"
  using assms
proof (induction fs arbitrary: ds)
  case (Cons f fs)
  have l: "length ds = length cs" using arg_cong[OF Cons.prems(1), of length] by simp
  have r: "isReferenceListing U ds (snd f) = isReferenceListing U cs (snd f)"
    using Cons.prems by (intro isReferenceListing_cong) auto
  have k: "Kind (markFamily U ds f ! j) =
      (if j \<in> set (snd f) \<and> isReferenceListing U cs (snd f) then KindKeywordReference else Kind (ds ! j))"
    using Cons.prems l by (auto simp: markFamily_def r markMembers_kind)
  have "map unkind (markFamily U ds f) = map unkind cs" using Cons.prems(1) by (simp add: markFamily_unkind)
  with Cons.IH[of "markFamily U ds f"] Cons.prems k show ?case by auto
qed simp

lemma ClassifyKinds_kind:
  assumes "j < length cs"
  shows "Kind (ClassifyKinds U cs ! j) =
    (case referenceFamily U (chkHeadingPath (cs ! j)) of
       None \<Rightarrow> Kind (cs ! j)
     | Some key \<Rightarrow> if isReferenceListing U cs (members U cs key) then KindKeywordReference
                   else Kind (cs ! j))"
proof -
  have "\<forall>f\<in>set (families U cs 0 []). \<forall>i\<in>set (snd f). i < length cs"
    by (auto simp: families_iff memFrom_iff)
  note k = markFamilies_kind[OF refl assms this, of U]
  have "(\<exists>f\<in>set (families U cs 0 []). j \<in> set (snd f) \<and> isReferenceListing U cs (snd f)) \<longleftrightarrow>
    (\<exists>key. referenceFamily U (chkHeadingPath (cs ! j)) = Some key \<and>
        isReferenceListing U cs (members U cs key))"
    (is "?L \<longleftrightarrow> ?R")
  proof
    assume ?L
    then obtain key l where "(key, l) \<in> set (families U cs 0 [])" "j \<in> set l" "isReferenceListing U cs l"
      by auto
    then show ?R by (auto simp: families_iff memFrom_iff)
  next
    assume ?R
    then obtain key where key: "referenceFamily U (chkHeadingPath (cs ! j)) = Some key"
      "isReferenceListing U cs (members U cs key)" by blast
    then have j: "j \<in> set (members U cs key)" using assms by (simp add: memFrom_iff)
    then have "(key, members U cs key) \<in> set (families U cs 0 [])" by (auto simp: families_iff)
    with j key(2) show ?L by (intro bexI[of _ "(key, members U cs key)"]) auto
  qed
  then show ?thesis unfolding ClassifyKinds_def k by (auto split: option.split)
qed


subsection \<open>Chunk sizes\<close>

definition cjkFree :: "Block list \<Rightarrow> bool" where
  "cjkFree bs \<longleftrightarrow> list_all (\<lambda>b. cjkCount (blkText b) = 0) bs"

lemma cjkFree_append [simp]: "cjkFree (as @ bs) \<longleftrightarrow> cjkFree as \<and> cjkFree bs"
  by (simp add: cjkFree_def)

lemma cjkFree_concat: "cjkFree (concat bss) \<longleftrightarrow> list_all cjkFree bss"
  by (induction bss) (auto simp: cjkFree_def)

lemma cjkFree_pack: "cjkFree bs \<Longrightarrow> g \<in> set (packByAtoms f bs) \<Longrightarrow> cjkFree g"
  using cjkFree_concat[of "packByAtoms f bs"] by (auto simp: packByAtoms_concat list_all_iff)

lemma cjkCount_mem: "cjkCount s = 0 \<longleftrightarrow> (\<forall>r\<in>set s. \<not> in_table cjkTable r)"
  by (simp add: cjkCount_def filter_empty_conv)

lemma SplitLines_subset: "l \<in> set (SplitLines s) \<Longrightarrow> set l \<subseteq> set s"
proof (induction s rule: SplitLines.induct)
  case (1 s)
  show ?case
  proof (cases "s = [] \<or> firstLineBreak s = None")
    case True
    with 1(2) show ?thesis by (subst (asm) SplitLines.simps) (auto split: if_splits)
  next
    case False
    then obtain i w where f: "firstLineBreak s = Some (i, w)" by fastforce
    with False 1(2) have "l = take i s \<or> l \<in> set (SplitLines (drop (i + w) s))"
      by (subst (asm) SplitLines.simps) auto
    moreover have "l \<in> set (SplitLines (drop (i + w) s)) \<Longrightarrow> set l \<subseteq> set (drop (i + w) s)"
      using f False 1(1) by simp
    ultimately show ?thesis using set_drop_subset[of "i + w" s] set_take_subset[of i s] by blast
  qed
qed

lemma join_subset: "l \<in> set ls \<Longrightarrow> set l \<subseteq> set (join sep ls)"
  by (induction sep ls rule: join.induct) auto

lemma splitPieces_cjkFree:
  assumes "cjkCount s = 0" "t \<in> set (splitPieces s)"
  shows "cjkCount t = 0"
proof -
  have "set t \<subseteq> set s"
    using assms(2) SplitLines_subset join_subset[of t "split [10, 10] s" "[10, 10]"]
    by (auto simp: splitPieces_def Let_def join_split split: if_splits)
  with assms(1) show ?thesis by (auto simp: cjkCount_mem)
qed

text \<open>A block offers no boundary when it is one of the pieces its text splits into.\<close>

definition indivisible :: "Block list \<Rightarrow> gostring \<Rightarrow> bool" where
  "indivisible bs t \<longleftrightarrow> (\<exists>b\<in>set bs. t \<in> set (splitPieces (blkText b)))"

definition sized :: "unicode \<Rightarrow> Block list \<Rightarrow> gostring \<Rightarrow> bool" where
  "sized U bs t \<longleftrightarrow> EstimateTokens U t \<le> MaxTokens \<or> indivisible bs t"

lemma fits_joined:
  assumes "unicode_ok U" "sep = [10] \<or> sep = [10, 10]" "\<forall>t\<in>set ts. cjkCount t = 0"
    "fits (CountAtoms U) ts" "1 < length ts"
  shows "EstimateTokens U (join sep ts) \<le> MaxTokens"
  using assms by (simp add: EstimateTokens_def CountAtoms_joined fits_def)

lemma splitBlock_sized:
  assumes "unicode_ok U" "cjkCount (blkText b) = 0" "b \<in> set bs" "c \<in> set (splitBlock U b)"
  shows "sized U bs (blkText c)" "cjkCount (blkText c) = 0"
proof -
  have "sized U bs (blkText c) \<and> cjkCount (blkText c) = 0"
  proof (cases "EstimateTokens U (blkText b) \<le> MaxTokens")
    case True
    with assms show ?thesis by (simp add: splitBlock_def sized_def)
  next
    case False
    then obtain g where g: "g \<in> set (packByAtoms (CountAtoms U) (splitPieces (blkText b)))"
      and c: "blkText c = join [10] g" using assms(4) by (auto simp: splitBlock_def)
    have sub: "set g \<subseteq> set (splitPieces (blkText b))"
      using g packByAtoms_concat[of "CountAtoms U" "splitPieces (blkText b)"] by (metis UN_upper set_concat)
    then have free: "\<forall>t\<in>set g. cjkCount t = 0" using splitPieces_cjkFree[OF assms(2)] by auto
    then have "cjkCount (blkText c) = 0"
      using cjkCount_joined[of "[10]" g] c by simp
    moreover have "sized U bs (blkText c)"
    proof (cases "1 < length g")
      case True
      from fits_joined[OF assms(1) _ free packByAtoms_fits[OF g] True, of "[10]"] c
      show ?thesis by (simp add: sized_def)
    next
      case False
      with packByAtoms_nonempty[OF g] obtain t where "g = [t]" by (cases g) auto
      with c sub assms(3) show ?thesis by (auto simp: sized_def indivisible_def)
    qed
    ultimately show ?thesis by simp
  qed
  then show "sized U bs (blkText c)" "cjkCount (blkText c) = 0" by auto
qed

lemma fits_map: "fits (blockAtoms U) g \<longleftrightarrow> fits (CountAtoms U) (map blkText g)"
  by (simp add: fits_def blockAtoms_def[abs_def] comp_def)

lemma capPart_sized:
  assumes "unicode_ok U" "cjkFree (pBlocks p)" "set (pBlocks p) \<subseteq> set bs" "q \<in> set (capPart U p)"
  shows "sized U bs (joinTexts (pBlocks q))"
proof (cases "EstimateTokens U (joinTexts (pBlocks p)) \<le> MaxTokens")
  case True
  with assms(4) show ?thesis by (simp add: capPart_def sized_def)
next
  case False
  let ?e = "concat (map (splitBlock U) (pBlocks p))"
  from False assms(4) have q: "pBlocks q \<in> set (packByAtoms (blockAtoms U) ?e)"
    by (auto simp: capPart_def)
  have e: "sized U bs (blkText c) \<and> cjkCount (blkText c) = 0" if "c \<in> set (pBlocks q)" for c
  proof -
    have "c \<in> set ?e"
      using that q packByAtoms_concat[of "blockAtoms U" ?e] by (metis UN_I set_concat)
    then obtain b where "b \<in> set (pBlocks p)" "c \<in> set (splitBlock U b)" by auto
    then show ?thesis using splitBlock_sized[OF assms(1), of b bs c] assms(2,3)
      by (auto simp: cjkFree_def list_all_iff)
  qed
  show ?thesis
  proof (cases "1 < length (pBlocks q)")
    case True
    have "EstimateTokens U (join [10, 10] (map blkText (pBlocks q))) \<le> MaxTokens"
      using e True packByAtoms_fits[OF q] by (intro fits_joined[OF assms(1)]) (auto simp: fits_map)
    then show ?thesis by (simp add: sized_def joinTexts_def)
  next
    case False
    with packByAtoms_nonempty[OF q] obtain c where "pBlocks q = [c]" by (cases "pBlocks q") auto
    with e show ?thesis by (simp add: joinTexts_def)
  qed
qed

lemma unitParts_sized:
  assumes "unicode_ok U" "cjkFree (uBlocks u)" "set (uBlocks u) \<subseteq> set bs" "p \<in> set (unitParts U u)"
  shows "EstimateTokens U (Strip (joinTexts (pBlocks p))) \<le> MaxTokens \<or> indivisible bs (joinTexts (pBlocks p))"
proof (cases "EstimateTokens U (unit_text u) \<le> MaxTokens")
  case True
  with assms(4) show ?thesis by (auto simp: unitParts_def Let_def unit_text_def split: if_splits)
next
  case False
  with assms(4) obtain q where q: "q \<in> set (subdivideAtHeadings U u)" "p \<in> set (capPart U q)"
    by (auto simp: unitParts_def Let_def capAtBlocks_def split: if_splits)
  have "set (pBlocks q) \<subseteq> set (uBlocks u)"
    using q(1) subdivide_blocks[of U u] by (metis (no_types, lifting) UN_upper image_eqI set_concat set_map)
  then have "sized U bs (joinTexts (pBlocks p))"
    using assms q(2) by (intro capPart_sized[of U q]) (auto simp: cjkFree_def list_all_iff)
  then show ?thesis
    using EstimateTokens_Strip[OF assms(1), of "joinTexts (pBlocks p)"] by (auto simp: sized_def)
qed

lemma pieces_sized:
  assumes "unicode_ok U" "cjkFree (Blocks ext)" "(s, p) \<in> set (pieces U ext)"
  shows "EstimateTokens U (Strip (joinTexts (pBlocks p))) \<le> MaxTokens \<or>
    indivisible (Blocks ext) (joinTexts (pBlocks p))"
proof -
  from assms(3) obtain u where u: "u \<in> set (shapedUnits U (Blocks ext))" "p \<in> set (unitParts U u)"
    by (auto simp: pieces_def unitPieces_def)
  then have "set (uBlocks u) \<subseteq> set (Blocks ext)"
    using shapedUnits_blocks[of U "Blocks ext"] by (metis (no_types, lifting) UN_upper image_eqI set_concat set_map)
  with assms u show ?thesis
    by (intro unitParts_sized[of U u]) (auto simp: cjkFree_def list_all_iff)
qed


subsection \<open>Properties of the chunker\<close>

text \<open>C10: chunking an extraction always produces chunks, and their texts, read in order, are exactly
  the visible characters of the blocks in order: nothing but white space is dropped, nothing is
  duplicated and nothing is reordered, whatever was grouped, merged, folded, split or packed.\<close>

theorem Chunks_preserve_text:
  "\<exists>cs. Chunks U ext = Some cs \<and>
     concat (map (\<lambda>c. visible (chkText c)) cs) = concat (map (\<lambda>b. visible (blkText b)) (Blocks ext))"
proof -
  let ?cs = "ClassifyKinds U (emitList 0 (pieces U ext))"
  have c: "Chunks U ext = Some ?cs" by (rule Chunks_eq)
  have "concat (map visible (map chkText ?cs)) =
      concat (map (visibleBlocks \<circ> (pBlocks \<circ> snd)) (pieces U ext))"
    unfolding Chunks_texts[OF c] by (simp add: comp_def visible_joinTexts)
  also have "\<dots> = visibleBlocks (Blocks ext)"
    using pieces_visible[of U ext] by (simp add: visibleBlocks_concat comp_def)
  finally show ?thesis using c by (auto simp: comp_def visibleBlocks_def)
qed

text \<open>the chunks are numbered 0, 1, 2, \<dots> in order, and each carries a stripped, non-empty text.\<close>

theorem Chunks_ordinals_nonempty:
  "\<exists>cs. Chunks U ext = Some cs \<and> map Ordinal cs = map int [0..<length cs] \<and>
     list_all (\<lambda>c. chkText c \<noteq> [] \<and> Strip (chkText c) = chkText c) cs"
proof -
  let ?cs = "ClassifyKinds U (emitList 0 (pieces U ext))"
  have c: "Chunks U ext = Some ?cs" by (rule Chunks_eq)
  have "map Ordinal ?cs = map int [0..<length ?cs]"
    by (simp add: ClassifyKinds_ordinals emitList_ordinals pieces_nonempty)
  moreover have "list_all (\<lambda>t. t \<noteq> [] \<and> Strip t = t) (map chkText ?cs)"
    unfolding Chunks_texts[OF c] using pieces_text(2)
    by (auto simp: list_all_iff Strip_def trim_func_idem)
  ultimately show ?thesis using c by (auto simp: list_all_iff)
qed


definition ex_extraction :: Extraction where
  "ex_extraction = NewExtraction (lit ''T'') (lit ''text'') SourceBlankLines
     [NewOffsetBlock [lit ''Intro''] 0 (lit ''one two''), NewOffsetBlock [lit ''Intro''] 9 (lit ''three'')]"


text \<open>C19: units shaped by grouping, merging small units and folding chapter stubs keep the document's
  blocks in order, and a block is only ever filed under its own section or under a numbered
  subsection of it: no merge crosses a boundary the document declared.\<close>

theorem units_respect_sections:
  "unitBlocks (foldChapterStubs U (mergeSmall U (groupBlocks bs))) = bs \<and>
   list_all (\<lambda>u. uBlocks u \<noteq> [] \<and>
       list_all (\<lambda>b. Section b = uSection u \<or> isDescendant (uSection u) (Section b)) (uBlocks u))
     (foldChapterStubs U (mergeSmall U (groupBlocks bs)))"
  using shapedUnits_blocks[of U bs] shapedUnits_sound[of _ U bs]
  by (auto simp: shapedUnits_def list_all_iff sound_unit_def filed_def)

text \<open>packing keeps every item in order, never makes an empty group, and a group of more than one
  item never exceeds the cap in accumulated atoms.\<close>

theorem packByAtoms_correct:
  "concat (packByAtoms f items) = items \<and>
   list_all (\<lambda>g. g \<noteq> [] \<and> (length g \<le> 1 \<or> TokensFromAtoms (sum_list (map f g)) \<le> MaxTokens))
     (packByAtoms f items)"
  using packByAtoms_concat[of f items] packByAtoms_nonempty[of _ f items] packByAtoms_fits[of _ f items]
  by (auto simp: list_all_iff fits_def)

text \<open>classification changes nothing but kinds, and a chunk becomes a keyword reference exactly
  when its heading path has an ancestor that declares a listing and the whole family of that
  ancestor, in document order, passes the listing test.\<close>

theorem ClassifyKinds_correct:
  assumes "j < length cs"
  shows "map (\<lambda>c. c\<lparr>Kind := KindProse\<rparr>) (ClassifyKinds U cs) = map (\<lambda>c. c\<lparr>Kind := KindProse\<rparr>) cs \<and>
    Kind (ClassifyKinds U cs ! j) =
      (case referenceFamily U (chkHeadingPath (cs ! j)) of
         None \<Rightarrow> Kind (cs ! j)
       | Some key \<Rightarrow> if isReferenceListing U cs (members U cs key) then KindKeywordReference
                     else Kind (cs ! j))"
  using ClassifyKinds_kind[OF assms, of U] ClassifyKinds_unkind[of U cs] by (simp add: unkind_def[abs_def])

definition ex_chunk :: "gostring \<Rightarrow> Chunk" where
  "ex_chunk path = \<lparr>chkSection = None, PageStart = None, PageEnd = None, PrintedPageStart = None,
     chkURL = None, chkFragment = None, chkHeadingPath = path, chkText = lit ''x'', Ordinal = 0,
     chkImageCount = 0, Kind = KindProse\<rparr>"

theorem ClassifyKinds_correct_witness:
  "(0::nat) < length (replicate 30 (ex_chunk (lit ''Glossary > atom''))) \<and>
   map (\<lambda>c. c\<lparr>Kind := KindProse\<rparr>)
       (ClassifyKinds ascii_unicode (replicate 30 (ex_chunk (lit ''Glossary > atom'')))) =
     map (\<lambda>c. c\<lparr>Kind := KindProse\<rparr>) (replicate 30 (ex_chunk (lit ''Glossary > atom'')))"
proof -
  have h: "(0::nat) < length (replicate 30 (ex_chunk (lit ''Glossary > atom'')))" by simp
  show ?thesis using h ClassifyKinds_correct[OF h, of ascii_unicode] by blast
qed

end
