(* ===== verification/Gofmt.thy ===== *)
theory Gofmt
  imports Document
begin

text \<open>
  What the sources use of Go's \<^verbatim>\<open>fmt\<close> and \<^verbatim>\<open>strconv\<close>: fixed-point formatting of a float, the default
  rendering \<^verbatim>\<open>fmt.Sprint\<close> gives a value, and padding.  A float is its exact rational value, so the
  formatting verbs round that value to the nearest decimal, halves to even, as \<^verbatim>\<open>strconv\<close> does.
\<close>

definition pad_left :: "nat \<Rightarrow> rune \<Rightarrow> gostring \<Rightarrow> gostring" where
  "pad_left w c s = replicate (w - length s) c @ s"

definition pad_right :: "nat \<Rightarrow> rune \<Rightarrow> gostring \<Rightarrow> gostring" where
  "pad_right w c s = s @ replicate (w - length s) c"

text \<open>\<^verbatim>\<open>strconv.FormatFloat(x, 'f', prec, 64)\<close>, the verb \<^verbatim>\<open>%.<prec>f\<close>.\<close>

definition formatF :: "nat \<Rightarrow> rat \<Rightarrow> gostring" where
  "formatF prec x =
     (let n = nat (round_even (\<bar>x\<bar> * 10 ^ prec));
          whole = show_nat (n div 10 ^ prec);
          frac = (if prec = 0 then [] else 46 # pad_left prec 48 (show_nat (n mod 10 ^ prec)))
      in (if x < 0 then [45] else []) @ whole @ frac)"

text \<open>The shortest decimal \<open>m * 10 ^ e\<close> that reads back as \<open>x\<close>: one digit is tried first, and
  seventeen always suffice for a float.  \<open>ilog10\<close> is the exponent of the leading digit.\<close>

definition pow10 :: "int \<Rightarrow> rat" where
  "pow10 e = (if 0 \<le> e then 10 ^ nat e else 1 / 10 ^ nat (- e))"

definition ilog10 :: "rat \<Rightarrow> int" where
  "ilog10 x =
     (let (p, q) = quotient_of x;
          e = int (length (show_nat (nat p))) - int (length (show_nat (nat q)))
      in if pow10 e \<le> x then e else e - 1)"

fun shortest_from :: "nat \<Rightarrow> nat \<Rightarrow> rat \<Rightarrow> int \<times> int" where
  "shortest_from 0 n x = (round_even (x / pow10 (ilog10 x + 1 - int n)), ilog10 x + 1 - int n)"
| "shortest_from (Suc left) n x =
     (let e = ilog10 x + 1 - int n; m = round_even (x / pow10 e)
      in if rnd (of_int m * pow10 e) = x then (m, e) else shortest_from left (Suc n) x)"

definition drop_zeros :: "gostring \<Rightarrow> gostring" where
  "drop_zeros s = rev (dropWhile (\<lambda>c. c = 48) (rev s))"

text \<open>\<^verbatim>\<open>%v\<close> of a float: \<^verbatim>\<open>%g\<close> with the fewest digits, in exponent form below \<open>1e-4\<close> and from \<open>1e+06\<close>.\<close>

definition show_float :: "rat \<Rightarrow> gostring" where
  "show_float x =
     (if x = 0 then [48]
      else
        let (m, e) = shortest_from 16 1 \<bar>x\<bar>;
            raw = show_nat (nat m);
            ex = e + int (length raw) - 1;
            digits = drop_zeros raw;
            body =
              (if ex < -4 \<or> 6 \<le> ex then
                 take 1 digits @ (if length digits \<le> 1 then [] else 46 # drop 1 digits)
                   @ 101 # (if ex < 0 then [45] else [43]) @ pad_left 2 48 (show_nat (nat \<bar>ex\<bar>))
               else if ex < 0 then lit ''0.'' @ replicate (nat (- ex - 1)) 48 @ digits
               else if int (length digits) \<le> ex + 1 then pad_right (nat (ex + 1)) 48 digits
               else take (nat (ex + 1)) digits @ 46 # drop (nat (ex + 1)) digits)
        in (if x < 0 then [45] else []) @ body)"

fun insert_key :: "string \<times> 'a \<Rightarrow> (string \<times> 'a) list \<Rightarrow> (string \<times> 'a) list" where
  "insert_key x [] = [x]"
| "insert_key x (y # ys) =
     (if text_le (lit (fst x)) (lit (fst y)) then x # y # ys else y # insert_key x ys)"

text \<open>\<^verbatim>\<open>fmt.Sprint\<close> of one value.  A map prints its entries in key order.\<close>

fun Sprint :: "any \<Rightarrow> gostring" where
  "Sprint AnyNil = lit ''<nil>''"
| "Sprint (AnyBool b) = (if b then lit ''true'' else lit ''false'')"
| "Sprint (AnyInt i) = show_int i"
| "Sprint (AnyFloat x) = show_float x"
| "Sprint (AnyString s) = s"
| "Sprint (AnyStrings ss) = 91 # join [32] ss @ [93]"
| "Sprint (AnyList xs) = 91 # join [32] (map Sprint xs) @ [93]"
| "Sprint (AnyMap kvs) =
     lit ''map['' @ join [32] (map (\<lambda>(k, v). lit k @ 58 # v)
       (foldr insert_key (map (\<lambda>(k, v). (k, Sprint v)) kvs) [])) @ [93]"

text \<open>\<^verbatim>\<open>int(x)\<close> of a float: truncation toward zero.  Go leaves the result outside the range of an
  \<^verbatim>\<open>int\<close> to the implementation; amd64 gives the least integer.\<close>

definition int_of_float :: "rat \<Rightarrow> int" where
  "int_of_float x =
     (let t = (if 0 \<le> x then \<lfloor>x\<rfloor> else \<lceil>x\<rceil>)
      in if - (2 ^ 63) \<le> t \<and> t < 2 ^ 63 then t else - (2 ^ 63))"

lemma int_of_float_nonneg: "0 \<le> x \<Longrightarrow> x < 2 ^ 63 \<Longrightarrow> int_of_float x = \<lfloor>x\<rfloor>"
proof -
  assume x: "0 \<le> x" "x < 2 ^ 63"
  have "\<lfloor>x\<rfloor> < 2 ^ 63" using x(2) by (simp add: floor_less_iff)
  moreover have "- (2 ^ 63) \<le> \<lfloor>x\<rfloor>" using x(1) by (simp add: le_floor_iff)
  ultimately show ?thesis using x(1) unfolding int_of_float_def Let_def by simp
qed

end
