(* ===== verification/Structure.thy ===== *)
theory Structure
  imports Gofmt Tokens
begin

text \<open>
  \<^verbatim>\<open>internal/domain/structure.go\<close>: what extraction and chunking noticed about a document's structure,
  and the policy that refuses or downgrades a document on it.  A Go \<^verbatim>\<open>map\<close> from heading paths to counts
  is the list of paths it was filled from, read by \<open>count_list\<close>; a nil slice and an empty one are the
  same list.  The bounds are the \<^verbatim>\<open>float64\<close> nearest to the decimal the source writes.
\<close>

subsection \<open>Bounds\<close>

definition SiteIncompleteFatalShare :: rat where "SiteIncompleteFatalShare = rnd (20 / 100)"
definition AddressableMin :: rat where "AddressableMin = rnd (50 / 100)"
definition UndividedShare :: rat where "UndividedShare = rnd (50 / 100)"
definition AddressabilityMinChunks :: nat where "AddressabilityMinChunks = 25"
definition HeadlessDegradedRate :: rat where "HeadlessDegradedRate = rnd (2 / 100)"
definition UncalibratedScriptNoteShare :: rat where "UncalibratedScriptNoteShare = rnd (10 / 100)"
definition UncalibratedScriptDegradedShare :: rat where
  "UncalibratedScriptDegradedShare = rnd (50 / 100)"
definition listLimit :: nat where "listLimit = 20"
definition pathShown :: nat where "pathShown = 80"
definition unreachableLimit :: nat where "unreachableLimit = 10"
definition uncalibratedSamples :: nat where "uncalibratedSamples = 200"
definition PipelineVersion :: int where "PipelineVersion = 3"

record StructureReport =
  LargestSectionPath :: gostring
  InTOCNotInBody :: "gostring list"
  InBodyNotInTOC :: "gostring list"
  DetectedMoreThanOnce :: "gostring list"
  repScatteredSections :: "gostring list"
  CandidatesRejectedByOrdering :: "gostring list"
  UnreachablePages :: "gostring list"
  PlacedByPath :: "gostring list"
  TOCSections :: int
  BodySections :: int
  repChunks :: nat
  DistinctHeadingPaths :: nat
  LargestSectionChunks :: nat
  repHeadlessChunks :: nat
  UncalibratedScriptShare :: rat
  PagesDeclared :: int
  PagesFetched :: int
  repPipelineVersion :: int
  repStructureSource :: StructureSource

definition zeroReport :: StructureReport where
  "zeroReport = \<lparr>LargestSectionPath = [], InTOCNotInBody = [], InBodyNotInTOC = [],
     DetectedMoreThanOnce = [], repScatteredSections = [], CandidatesRejectedByOrdering = [],
     UnreachablePages = [], PlacedByPath = [], TOCSections = 0, BodySections = 0, repChunks = 0,
     DistinctHeadingPaths = 0, LargestSectionChunks = 0, repHeadlessChunks = 0,
     UncalibratedScriptShare = 0, PagesDeclared = 0, PagesFetched = 0, repPipelineVersion = 0,
     repStructureSource = 0\<rparr>"

subsection \<open>Reading diagnostics\<close>

definition lookup :: "(string \<times> any) list \<Rightarrow> string \<Rightarrow> any" where
  "lookup m k = (case map_of m k of Some v \<Rightarrow> v | None \<Rightarrow> AnyNil)"

fun mapOf :: "any \<Rightarrow> (string \<times> any) list" where
  "mapOf (AnyMap m) = m"
| "mapOf _ = []"

fun intOf :: "any \<Rightarrow> int" where
  "intOf (AnyInt n) = n"
| "intOf (AnyFloat x) = int_of_float x"
| "intOf _ = 0"

fun stringsOf :: "any \<Rightarrow> gostring list" where
  "stringsOf (AnyStrings ss) = ss"
| "stringsOf (AnyList items) = map Sprint items"
| "stringsOf _ = []"

definition diagnosedSource :: "(string \<times> any) list \<Rightarrow> StructureSource" where
  "diagnosedSource diagnostics =
     (case map_of diagnostics ''structure_source'' of
        None \<Rightarrow> SourceUnknown
      | Some s \<Rightarrow>
          (case ParseStructureSource (Sprint s) of Inl _ \<Rightarrow> SourceUnknown | Inr parsed \<Rightarrow> parsed))"

definition NewStructureReport :: "(string \<times> any) list \<Rightarrow> StructureReport" where
  "NewStructureReport diagnostics =
     (let source = diagnosedSource diagnostics;
          site = mapOf (lookup diagnostics ''site'')
      in if 0 < length site then
           zeroReport\<lparr>repPipelineVersion := PipelineVersion, repStructureSource := source,
             TOCSections := intOf (lookup site ''pages_declared''),
             BodySections := intOf (lookup site ''pages_fetched''),
             PagesDeclared := intOf (lookup site ''pages_declared''),
             PagesFetched := intOf (lookup site ''pages_fetched''),
             UnreachablePages := stringsOf (lookup site ''unreachable''),
             PlacedByPath := stringsOf (lookup site ''placed_by_path'')\<rparr>
         else
           let xv = mapOf (lookup diagnostics ''cross_validation'')
           in zeroReport\<lparr>repPipelineVersion := PipelineVersion, repStructureSource := source,
                TOCSections := intOf (lookup xv ''toc_sections''),
                BodySections := intOf (lookup xv ''body_sections''),
                InTOCNotInBody := stringsOf (lookup xv ''in_toc_not_in_body''),
                InBodyNotInTOC := stringsOf (lookup xv ''in_body_not_in_toc''),
                DetectedMoreThanOnce := stringsOf (lookup xv ''detected_more_than_once''),
                CandidatesRejectedByOrdering :=
                  stringsOf (lookup diagnostics ''candidates_rejected_by_ordering'')\<rparr>)"

subsection \<open>Measuring the chunks\<close>

text \<open>The ordinals of the chunks of one section, in document order, as the map
  \<^verbatim>\<open>ordinals[section]\<close> of \<^verbatim>\<open>ScatteredSections\<close> collects them.\<close>

definition named :: "Chunk \<Rightarrow> bool" where
  "named c = (chkSection c \<noteq> None \<and> chkSection c \<noteq> Some [])"

definition sectionOrdinals :: "Chunk list \<Rightarrow> gostring \<Rightarrow> int list" where
  "sectionOrdinals chunks s = map Ordinal (filter (\<lambda>c. named c \<and> chkSection c = Some s) chunks)"

fun contiguousFrom :: "int \<Rightarrow> int list \<Rightarrow> bool" where
  "contiguousFrom n [] = True"
| "contiguousFrom n (o' # os) = (o' = n \<and> contiguousFrom (n + 1) os)"

definition contiguous :: "int list \<Rightarrow> bool" where
  "contiguous ordinals = (case ordinals of [] \<Rightarrow> True | first # _ \<Rightarrow> contiguousFrom first ordinals)"

definition ScatteredSections :: "Chunk list \<Rightarrow> gostring list" where
  "ScatteredSections chunks =
     sort_texts (filter (\<lambda>s. \<not> contiguous (sectionOrdinals chunks s))
       (remdups (map (the \<circ> chkSection) (filter named chunks))))"

text \<open>\<^verbatim>\<open>largestSection\<close>: the loop keeps the path and count that are the most so far.\<close>

definition largestStep ::
  "gostring list \<Rightarrow> gostring \<Rightarrow> gostring \<times> nat \<Rightarrow> gostring \<times> nat" where
  "largestStep paths p acc = (if snd acc < count_list paths p then (p, count_list paths p) else acc)"

definition largestSection :: "gostring list \<Rightarrow> gostring \<times> nat" where
  "largestSection paths = fold (largestStep paths) paths ([], 0)"

text \<open>\<^verbatim>\<open>for i := 0; i < len(chunks); i += stride\<close>, with a stride of at least one.\<close>

function every :: "nat \<Rightarrow> 'a list \<Rightarrow> 'a list" where
  "every stride [] = []"
| "every stride (x # xs) = x # every stride (drop (stride - 1) xs)"
  by pat_completeness auto
termination
  by (relation "measure (\<lambda>(stride, xs). length xs)") auto

definition round3 :: "rat \<Rightarrow> rat" where
  "round3 x = rnd (of_int (round_even (x * 1000)) / 1000)"

definition MeasureChunks :: "unicode \<Rightarrow> Chunk list \<Rightarrow> StructureReport \<Rightarrow> StructureReport" where
  "MeasureChunks U chunks r =
     (let paths = map chkHeadingPath chunks;
          stride = max 1 (length chunks div uncalibratedSamples);
          sample = map chkText (every stride chunks)
      in r\<lparr>repScatteredSections := ScatteredSections chunks,
           repChunks := length chunks,
           repHeadlessChunks := length (filter (\<lambda>p. Strip p = []) paths),
           DistinctHeadingPaths := length (remdups paths),
           LargestSectionPath := fst (largestSection paths),
           LargestSectionChunks := snd (largestSection paths),
           UncalibratedScriptShare := round3 (UncalibratedLetterShare U (join [10] sample))\<rparr>)"

subsection \<open>The policy\<close>

definition Validatable :: "StructureReport \<Rightarrow> bool" where
  "Validatable r = (repStructureSource r \<in> set [SourceFrontTOC, SourceSidebarDOM, SourceIndexPage])"

definition Authoritative :: "StructureReport \<Rightarrow> bool" where
  "Authoritative r = (repStructureSource r = SourceOutline)"

definition CrossValidated :: "StructureReport \<Rightarrow> bool" where
  "CrossValidated r = (Validatable r \<and> 0 < TOCSections r \<and> 0 < BodySections r)"

text \<open>\<^verbatim>\<open>float64(a) / float64(b)\<close> of two counts.\<close>

definition ratio :: "nat \<Rightarrow> nat \<Rightarrow> rat" where
  "ratio a b = rnd (rnd (of_nat a) / rnd (of_nat b))"

definition Addressability :: "StructureReport \<Rightarrow> rat" where
  "Addressability r = (if repChunks r = 0 then 0 else ratio (DistinctHeadingPaths r) (repChunks r))"

definition LargestSectionShare :: "StructureReport \<Rightarrow> rat" where
  "LargestSectionShare r = (if repChunks r = 0 then 0 else ratio (LargestSectionChunks r) (repChunks r))"

definition Undivided :: "StructureReport \<Rightarrow> bool" where
  "Undivided r = (AddressabilityMinChunks \<le> repChunks r \<and> UndividedShare \<le> LargestSectionShare r)"

definition Unaddressable :: "StructureReport \<Rightarrow> bool" where
  "Unaddressable r = (Undivided r \<or>
     (AddressabilityMinChunks \<le> repChunks r \<and> \<not> MarkedUp (repStructureSource r) \<and>
      Addressability r < AddressableMin))"

definition UnreachableShare :: "StructureReport \<Rightarrow> rat" where
  "UnreachableShare r =
     (if PagesDeclared r = 0 then 0
      else if PagesDeclared r < 0
      then - rnd (rnd (of_nat (length (UnreachablePages r))) / rnd (of_int (- PagesDeclared r)))
      else rnd (rnd (of_nat (length (UnreachablePages r))) / rnd (of_int (PagesDeclared r))))"

definition Incomplete :: "StructureReport \<Rightarrow> bool" where
  "Incomplete r = (0 < PagesDeclared r \<and> SiteIncompleteFatalShare \<le> UnreachableShare r)"

definition MostlyHeadless :: "StructureReport \<Rightarrow> bool" where
  "MostlyHeadless r =
     (0 < repChunks r \<and> HeadlessDegradedRate \<le> ratio (repHeadlessChunks r) (repChunks r))"

definition SymmetricDifference :: "StructureReport \<Rightarrow> gostring list" where
  "SymmetricDifference r = sort_texts (remdups (InTOCNotInBody r @ InBodyNotInTOC r))"

definition Fatal :: "StructureReport \<Rightarrow> bool" where
  "Fatal r = ((Validatable r \<and> 0 < length (SymmetricDifference r)) \<or> Incomplete r)"

definition Degraded :: "StructureReport \<Rightarrow> bool" where
  "Degraded r = (0 < length (DetectedMoreThanOnce r) \<or> 0 < length (repScatteredSections r) \<or>
     Unaddressable r \<or> MostlyHeadless r \<or>
     UncalibratedScriptDegradedShare \<le> UncalibratedScriptShare r)"

definition report_Quality :: "StructureReport \<Rightarrow> Quality" where
  "report_Quality r =
     (if Fatal r then QualityFailed else if Degraded r then QualityDegraded else QualityOK)"

subsection \<open>Messages\<close>

definition percent :: "rat \<Rightarrow> gostring" where
  "percent share = formatF 0 (rnd (share * 100)) @ lit ''%''"

definition truncate_text :: "gostring \<Rightarrow> nat \<Rightarrow> gostring" where
  "truncate_text s n = (if length s \<le> n then s else take n s)"

definition listed :: "gostring list \<Rightarrow> gostring" where
  "listed items =
     (let shown = join (lit '', '') (take (min (length items) listLimit) items)
      in if listLimit < length items then shown @ lit '' ...'' else shown)"

text \<open>The quoting is the format the caller gives, a mark on either side of the source's name.\<close>

definition headingOrigin :: "StructureSource \<Rightarrow> rune \<Rightarrow> gostring" where
  "headingOrigin source quote =
     (if source = 0 \<or> source = SourceUnknown then lit ''headings from a source that was not recorded''
      else lit ''headings from structure source '' @ quote # StructureSource_String source @ [quote])"

definition shareOf :: "nat \<Rightarrow> nat \<Rightarrow> rat \<Rightarrow> gostring" where
  "shareOf n all share =
     show_nat n @ lit '' of '' @ show_nat all @ lit '' chunks ('' @ percent share @ lit '')''"

definition addressabilityNote :: "unicode \<Rightarrow> StructureReport \<Rightarrow> gostring" where
  "addressabilityNote U r =
     (if Undivided r \<and> Strip (LargestSectionPath r) = [] then
        shareOf (LargestSectionChunks r) (repChunks r) (LargestSectionShare r)
        @ lit '' carry no heading path: their boundaries came from the ''
        @ lit ''token budget rather than the document, so section_filter cannot narrow ''
        @ lit ''within them and outline cannot describe them''
      else if Undivided r then
        shareOf (LargestSectionChunks r) (repChunks r) (LargestSectionShare r)
        @ lit '' share one heading path, '' @ Repr U (truncate_text (LargestSectionPath r) pathShown)
        @ lit '': their boundaries came from ''
        @ lit ''the token budget rather than the document, so section_filter cannot narrow ''
        @ lit ''within that part of it and outline gives that part one entry''
      else if Unaddressable r then
        show_nat (repChunks r) @ lit '' chunks share only '' @ show_nat (DistinctHeadingPaths r)
        @ lit '' distinct heading paths ('' @ formatF 2 (Addressability r) @ lit '' per chunk) under ''
        @ headingOrigin (repStructureSource r) 39
        @ lit '', which can miss headings: where it did, boundaries came from the token budget ''
        @ lit ''rather than the document, so section_filter cannot narrow within those runs ''
        @ lit ''and outline describes the document in '' @ show_nat (DistinctHeadingPaths r)
        @ lit '' entries''
      else [])"

definition scaleNotes :: "StructureReport \<Rightarrow> gostring list" where
  "scaleNotes r =
     (if 0 < repHeadlessChunks r then
        [show_nat (repHeadlessChunks r)
         @ lit '' chunk(s) carry no heading path and cannot be reached by heading, filtered, ''
         @ lit ''or described in an outline''] else [])
     @ (if UncalibratedScriptNoteShare \<le> UncalibratedScriptShare r then
        [percent (UncalibratedScriptShare r)
         @ lit '' of letters are in a script the token estimator has no calibration for, so ''
         @ lit ''chunk sizes for this document are in an unknown unit and it may be chunked ''
         @ lit ''coarser than intended''] else [])
     @ (if Validatable r \<and> \<not> CrossValidated r then
        [lit ''structure source '' @ 39 # StructureSource_String (repStructureSource r) @ 39
         # lit '' was not cross-validated: '' @ show_int (TOCSections r)
         @ lit '' table-of-contents section(s) and '' @ show_int (BodySections r)
         @ lit '' body heading(s) were available to compare''] else [])"

definition Notes :: "unicode \<Rightarrow> StructureReport \<Rightarrow> gostring list" where
  "Notes U r =
     (if 0 < length (UnreachablePages r) then
        [show_nat (length (UnreachablePages r)) @ lit '' of '' @ show_int (PagesDeclared r)
         @ lit '' known page(s) ('' @ percent (UnreachableShare r)
         @ lit '') could not be fetched and are absent from the index''] else [])
     @ (if 0 < length (PlacedByPath r) then
        [show_nat (length (PlacedByPath r))
         @ lit '' page(s) were named by no navigation source and are nested by their URL ''
         @ lit ''path instead, which is inferred and has nothing to check it against''] else [])
     @ (let note = addressabilityNote U r in if note \<noteq> [] then [note] else [])
     @ scaleNotes r"

definition FailureMessage :: "StructureReport \<Rightarrow> gostring" where
  "FailureMessage r =
     (if Incomplete r then
        let pages = UnreachablePages r;
            shown = take (min (length pages) unreachableLimit) pages;
            more = (if unreachableLimit < length pages
                    then lit '' (+'' @ show_nat (length pages - unreachableLimit) @ lit '' more)'' else [])
        in lit ''completeness gate failed: '' @ show_nat (length pages) @ lit '' of ''
           @ show_int (PagesDeclared r) @ lit '' known page(s) ('' @ percent (UnreachableShare r)
           @ lit '') could not be fetched, at or above the '' @ percent SiteIncompleteFatalShare
           @ lit '' threshold. The site was not navigable enough to index. Unreachable: ''
           @ join (lit '', '') shown @ more
           @ lit ''. The site was not indexed: an index built from a fraction ''
           @ lit ''of a site answers confidently from the part it happens to hold, and nothing ''
           @ lit ''a caller can see reveals the rest is missing.''
      else
        join (lit '' '')
          ([lit ''structure validation failed: the '' @ StructureSource_String (repStructureSource r)
            @ lit '' table of contents and the document body disagree on ''
            @ show_nat (length (SymmetricDifference r)) @ lit '' section(s).'']
           @ (if 0 < length (InTOCNotInBody r) then
              [show_nat (length (InTOCNotInBody r))
               @ lit '' section(s) listed in the table of contents were not found as headings in ''
               @ lit ''the body: '' @ listed (InTOCNotInBody r)] else [])
           @ (if 0 < length (InBodyNotInTOC r) then
              [show_nat (length (InBodyNotInTOC r))
               @ lit '' heading(s) found in the body are absent from the table of contents: ''
               @ listed (InBodyNotInTOC r)] else [])
           @ [lit ''The document was not indexed. Chunks would carry section paths ''
              @ lit ''that are not known to match the document.'']))"

subsection \<open>The stored report\<close>

text \<open>\<^verbatim>\<open>JSON\<close> marshals the fields, decodes them into a map, adds the grade, the rounded
  addressability and the notes, and marshals the map: the model is that map, in the key order the
  encoder writes.  Decoding turns every number into a float.  Marshalling fails where the
  structure source has no name.\<close>

definition countField :: "int \<Rightarrow> any" where
  "countField n = AnyFloat (if n < 0 then - rnd (of_int (- n)) else rnd (of_int n))"

definition stringField :: "gostring list \<Rightarrow> any" where
  "stringField ss = AnyList (map AnyString ss)"

definition report_JSON :: "unicode \<Rightarrow> StructureReport \<Rightarrow> enum_error + (string \<times> any) list" where
  "report_JSON U r =
     (case enum_marshal structureSourceText (repStructureSource r) of
        Inl e \<Rightarrow> Inl e
      | Inr source \<Rightarrow>
         (case enum_marshal qualityText (report_Quality r) of
            Inl e \<Rightarrow> Inl e
          | Inr quality \<Rightarrow> Inr
             [(''addressability'', AnyFloat (round3 (Addressability r))),
              (''body_sections'', countField (BodySections r)),
              (''candidates_rejected_by_ordering'', stringField (CandidatesRejectedByOrdering r)),
              (''chunks'', countField (int (repChunks r))),
              (''detected_more_than_once'', stringField (DetectedMoreThanOnce r)),
              (''distinct_heading_paths'', countField (int (DistinctHeadingPaths r))),
              (''headless_chunks'', countField (int (repHeadlessChunks r))),
              (''in_body_not_in_toc'', stringField (InBodyNotInTOC r)),
              (''in_toc_not_in_body'', stringField (InTOCNotInBody r)),
              (''largest_section_chunks'', countField (int (LargestSectionChunks r))),
              (''largest_section_path'', AnyString (LargestSectionPath r)),
              (''notes'', stringField (Notes U r)),
              (''pages_declared'', countField (PagesDeclared r)),
              (''pages_fetched'', countField (PagesFetched r)),
              (''pipeline_version'', countField (repPipelineVersion r)),
              (''placed_by_path'', stringField (PlacedByPath r)),
              (''quality'', AnyString quality),
              (''scattered_sections'', stringField (repScatteredSections r)),
              (''structure_source'', AnyString source),
              (''toc_sections'', countField (TOCSections r)),
              (''uncalibrated_script_share'', AnyFloat (UncalibratedScriptShare r)),
              (''unreachable_pages'', stringField (UnreachablePages r))]))"

text \<open>\<^verbatim>\<open>summary.go\<close> and \<^verbatim>\<open>pipeline.go\<close> read a stored report back.  \<^verbatim>\<open>encoding/json\<close>'s decoder is an
  argument: it gives the object a stored text holds, or nothing where the text is not one the
  target struct accepts.\<close>

record finding =
  fLabel :: gostring
  fItems :: "gostring list"

definition shownPerFinding :: nat where "shownPerFinding = 10"

definition finding_note :: "finding \<Rightarrow> gostring" where
  "finding_note f =
     (if length (fItems f) = 0 then []
      else
        let shown = take (min (length (fItems f)) shownPerFinding) (fItems f);
            note = show_nat (length (fItems f)) @ 32 # fLabel f @ lit '': '' @ join (lit '', '') shown
        in if length shown < length (fItems f)
           then note @ lit '' (+'' @ show_nat (length (fItems f) - length shown) @ lit '' more)''
           else note)"

record storedReport =
  stQuality :: gostring
  stStructureSource :: gostring
  stInTOCNotInBody :: "gostring list"
  stInBodyNotInTOC :: "gostring list"
  stDetectedMoreThanOnce :: "gostring list"
  stScatteredSections :: "gostring list"
  stNotes :: "gostring list"

text \<open>What the decoder puts in the struct from an object whose fields have the types the struct
  asks for.\<close>

fun textOf :: "any \<Rightarrow> gostring" where
  "textOf (AnyString s) = s"
| "textOf _ = []"

fun textsOf :: "any \<Rightarrow> gostring list" where
  "textsOf (AnyList xs) = map textOf xs"
| "textsOf _ = []"

definition storedOf :: "(string \<times> any) list \<Rightarrow> storedReport" where
  "storedOf p = \<lparr>stQuality = textOf (lookup p ''quality''),
     stStructureSource = textOf (lookup p ''structure_source''),
     stInTOCNotInBody = textsOf (lookup p ''in_toc_not_in_body''),
     stInBodyNotInTOC = textsOf (lookup p ''in_body_not_in_toc''),
     stDetectedMoreThanOnce = textsOf (lookup p ''detected_more_than_once''),
     stScatteredSections = textsOf (lookup p ''scattered_sections''),
     stNotes = textsOf (lookup p ''notes'')\<rparr>"

definition Summary ::
  "(gostring \<Rightarrow> storedReport option) \<Rightarrow> gostring \<Rightarrow> Quality \<times> gostring list" where
  "Summary unmarshal stored =
     (if stored = [] then (0, [])
      else case unmarshal stored of
        None \<Rightarrow> (0, [])
      | Some report \<Rightarrow>
          let (err, q) = Quality_UnmarshalText (stQuality report) 0;
              quality = (if err \<noteq> None then 0 else q);
              notes = filter (\<lambda>note. note \<noteq> []) (map finding_note
                [\<lparr>fLabel = lit ''sections in the table of contents but not the body'',
                   fItems = stInTOCNotInBody report\<rparr>,
                 \<lparr>fLabel = lit ''headings in the body but not the table of contents'',
                   fItems = stInBodyNotInTOC report\<rparr>,
                 \<lparr>fLabel = lit ''sections detected more than once'',
                   fItems = stDetectedMoreThanOnce report\<rparr>,
                 \<lparr>fLabel = lit ''sections spanning non-adjacent chunks'',
                   fItems = stScatteredSections report\<rparr>])
          in (quality, notes @ stNotes report))"

definition StoredSource :: "(gostring \<Rightarrow> storedReport option) \<Rightarrow> gostring \<Rightarrow> StructureSource" where
  "StoredSource unmarshal stored =
     (case unmarshal stored of
        None \<Rightarrow> SourceUnknown
      | Some report \<Rightarrow>
          (case ParseStructureSource (stStructureSource report) of
             Inl _ \<Rightarrow> SourceUnknown
           | Inr source \<Rightarrow> source))"

definition StoredPipelineVersion :: "(gostring \<Rightarrow> int option) \<Rightarrow> gostring \<Rightarrow> int" where
  "StoredPipelineVersion unmarshal warnings =
     (case unmarshal warnings of None \<Rightarrow> 0 | Some version \<Rightarrow> version)"

end
