(* ===== verification/GradeModel.thy ===== *)
theory GradeModel
  imports Structure Chunking "HOL-Library.AList"
begin

text \<open>
  \<^verbatim>\<open>internal/domain/grade.go\<close>: whether chunking produced a searchable document.  A check that finds
  nothing returns a nil pointer, here \<open>None\<close>.  The maps a check fills are association lists in the
  order their keys were first written; nothing it computes depends on the order Go visits them.
\<close>

type_synonym Verdict = "8 word"

definition VerdictGood :: Verdict where "VerdictGood = 1"
definition VerdictDegraded :: Verdict where "VerdictDegraded = 2"
definition VerdictUnusable :: Verdict where "VerdictUnusable = 3"

lemmas verdict_defs = VerdictGood_def VerdictDegraded_def VerdictUnusable_def

definition verdictText :: enumText where
  "verdictText = newEnumText (lit ''verdict'')
     [(VerdictGood, lit ''good''), (VerdictDegraded, lit ''degraded''), (VerdictUnusable, lit ''unusable'')]"

interpretation verdict: enum_table verdictText
  by unfold_locales (simp_all add: verdictText_def verdict_defs lit_def)

definition GradeMinChunks :: nat where "GradeMinChunks = 25"
definition OversizedDegradedRate :: rat where "OversizedDegradedRate = rnd (10 / 100)"
definition OversizedUnusableRate :: rat where "OversizedUnusableRate = rnd (35 / 100)"
definition FragmentedDegradedRate :: rat where "FragmentedDegradedRate = rnd (30 / 100)"
definition FragmentedUnusableRate :: rat where "FragmentedUnusableRate = rnd (60 / 100)"
definition FlatMinChunks :: nat where "FlatMinChunks = 50"
definition AddressableDegradedRatio :: rat where "AddressableDegradedRatio = rnd (50 / 100)"
definition AddressableUnusableRatio :: rat where "AddressableUnusableRatio = rnd (35 / 100)"
definition FigureMaxTokens :: nat where "FigureMaxTokens = 40"
definition FigureDegradedRate :: rat where "FigureDegradedRate = rnd (25 / 100)"
definition BoilerplateChunkFraction :: rat where "BoilerplateChunkFraction = rnd (25 / 100)"
definition BoilerplateMinChunks :: nat where "BoilerplateMinChunks = 8"
definition BoilerplateMaxLineChars :: nat where "BoilerplateMaxLineChars = 120"
definition BoilerplateMinLineChars :: nat where "BoilerplateMinLineChars = 20"

lemmas grade_bounds = GradeMinChunks_def OversizedDegradedRate_def OversizedUnusableRate_def
  FragmentedDegradedRate_def FragmentedUnusableRate_def FlatMinChunks_def AddressableDegradedRatio_def
  AddressableUnusableRatio_def FigureMaxTokens_def FigureDegradedRate_def BoilerplateChunkFraction_def
  BoilerplateMinChunks_def BoilerplateMaxLineChars_def BoilerplateMinLineChars_def

record Finding =
  Code :: gostring
  Detail :: gostring
  Severity :: Verdict

record ChunkFacts =
  fcText :: gostring
  fcHeadingPath :: gostring
  fcTokens :: nat
  fcImageCount :: int
  Depth :: nat
  Numbered :: bool

definition FigureDominated :: "ChunkFacts \<Rightarrow> bool" where
  "FigureDominated c = (0 < fcImageCount c \<and> fcTokens c < FigureMaxTokens)"

definition FactsOf :: "unicode \<Rightarrow> Chunk \<Rightarrow> ChunkFacts" where
  "FactsOf U c = \<lparr>fcText = chkText c, fcHeadingPath = chkHeadingPath c,
     fcTokens = EstimateTokens U (chkText c), fcImageCount = chkImageCount c,
     Depth = length (split PathSep (chkHeadingPath c)),
     Numbered = (chkSection c \<noteq> None \<and> chkSection c \<noteq> Some [])\<rparr>"

definition severity :: "bool \<Rightarrow> Verdict" where
  "severity unusable = (if unusable then VerdictUnusable else VerdictDegraded)"

text \<open>A comma before every third digit from the right: \<open>thousandsFrom\<close> is the loop, at index \<open>i\<close>.\<close>

fun thousandsFrom :: "nat \<Rightarrow> nat \<Rightarrow> gostring \<Rightarrow> gostring" where
  "thousandsFrom len i [] = []"
| "thousandsFrom len i (r # ds) =
     (if 0 < i \<and> (len - i) mod 3 = 0 then 44 # r # thousandsFrom len (Suc i) ds
      else r # thousandsFrom len (Suc i) ds)"

definition thousands :: "int \<Rightarrow> gostring" where
  "thousands n = (let digits = show_int n in thousandsFrom (length digits) 0 digits)"

definition oversized :: "ChunkFacts list \<Rightarrow> Finding option" where
  "oversized chunks =
     (let over = filter (\<lambda>c. MaxTokens < fcTokens c) chunks;
          count = length over;
          biggest = fold (\<lambda>c b. max b (fcTokens c)) over 0;
          rate = ratio count (length chunks)
      in if count = 0 \<or> rate < OversizedDegradedRate then None
         else Some \<lparr>Code = lit ''oversized'',
           Detail = shareOf count (length chunks) rate @ lit '' exceed the '' @ show_nat MaxTokens
             @ lit ''-token chunk cap, the largest at '' @ thousands (int biggest)
             @ lit ''. Subdivision found no boundary inside them, which means the heading ''
             @ lit ''structure was too coarse or was not derived at all. Search returns ''
             @ lit ''whole chapters.'',
           Severity = severity (OversizedUnusableRate \<le> rate)\<rparr>)"

definition mergeablePopulation :: "ChunkFacts list \<Rightarrow> nat \<times> nat" where
  "mergeablePopulation chunks =
     (let pop = filter (\<lambda>c. \<not> (Numbered c \<or> FigureDominated c)) chunks
      in (length pop, length (filter (\<lambda>c. fcTokens c < MinTokens) pop)))"

definition fragmented :: "ChunkFacts list \<Rightarrow> Finding option" where
  "fragmented chunks =
     (let (mergeable, fragments) = mergeablePopulation chunks
      in if mergeable < GradeMinChunks \<or> fragments = 0 then None
         else
           let rate = ratio fragments mergeable
           in if rate < FragmentedDegradedRate then None
              else Some \<lparr>Code = lit ''fragmented'',
                Detail = show_nat fragments @ lit '' of '' @ show_nat mergeable
                  @ lit '' mergeable chunks ('' @ percent rate @ lit '') are under ''
                  @ show_nat MinTokens @ lit '' tokens after merge-forward. ''
                  @ lit ''A heading level was detected too eagerly and split prose into fragments, ''
                  @ lit ''so no single chunk carries enough context to answer a question.'',
                Severity = severity (FragmentedUnusableRate \<le> rate)\<rparr>)"

definition flatHierarchy :: "ChunkFacts list \<Rightarrow> Finding option" where
  "flatHierarchy chunks =
     (if length chunks < FlatMinChunks then None
      else
        let deepest = fold (\<lambda>c d. max d (Depth c)) chunks 0
        in if 1 < deepest then None
           else Some \<lparr>Code = lit ''flat_hierarchy'',
             Detail = lit ''All '' @ show_nat (length chunks)
               @ lit '' chunks sit at heading depth 1, so the document has no hierarchy. ''
               @ lit ''`outline` cannot orient a caller and `section_filter` cannot narrow a ''
               @ lit ''search -- the largest measured retrieval lever is unavailable and every ''
               @ lit ''query falls back to cold keyword search.'',
             Severity = VerdictDegraded\<rparr>)"

definition figureDominated :: "ChunkFacts list \<Rightarrow> Finding option" where
  "figureDominated chunks =
     (let count = length (filter FigureDominated chunks);
          rate = ratio count (length chunks)
      in if count = 0 \<or> rate < FigureDegradedRate then None
         else Some \<lparr>Code = lit ''figure_dominated'',
           Detail = shareOf count (length chunks) rate @ lit '' carry an image and under ''
             @ show_nat FigureMaxTokens @ lit '' tokens of text. Their ''
             @ lit ''content is in the picture, which no retrieval reaches; a caller receives ''
             @ lit ''the caption and must be told to look at the page.'',
           Severity = VerdictDegraded\<rparr>)"

record sectionCounts =
  largestPath :: gostring
  scDistinct :: nat
  largest :: nat
  headless :: nat

definition sectionsOf :: "ChunkFacts list \<Rightarrow> sectionCounts" where
  "sectionsOf chunks =
     (let paths = map fcHeadingPath chunks
      in \<lparr>largestPath = fst (largestSection paths), scDistinct = length (remdups paths),
          largest = snd (largestSection paths), headless = length (filter (\<lambda>p. Strip p = []) paths)\<rparr>)"

definition unaddressable :: "unicode \<Rightarrow> ChunkFacts list \<Rightarrow> StructureSource \<Rightarrow> Finding option" where
  "unaddressable U chunks source =
     (let sections = sectionsOf chunks;
          rat = ratio (scDistinct sections) (length chunks);
          share = ratio (largest sections) (length chunks);
          undivided = (UndividedShare \<le> share)
      in if \<not> undivided \<and> (MarkedUp source \<or> AddressableDegradedRatio \<le> rat) then None
         else
           let headless' = (if 0 < headless sections
                 then 32 # show_nat (headless sections)
                   @ lit '' chunks carry no heading at all and cannot be reached by heading, ''
                   @ lit ''filtered, or described in an outline.'' else []);
               detail =
                 (if undivided \<and> Strip (largestPath sections) = [] then
                    shareOf (largest sections) (length chunks) share
                    @ lit '' carry no heading at all, so their boundaries came ''
                    @ lit ''from the token budget rather than from the document. They cannot be ''
                    @ lit ''reached by heading or filtered, and `outline` cannot describe them.''
                  else if undivided then
                    shareOf (largest sections) (length chunks) share
                    @ lit '' share one heading path, ''
                    @ Repr U (truncate_text (largestPath sections) pathShown)
                    @ lit '', so their boundaries came ''
                    @ lit ''from the token budget rather than from the document. `section_filter` ''
                    @ lit ''cannot narrow within that part of it and `outline` gives that part one ''
                    @ lit ''entry.'' @ headless'
                  else
                    show_nat (length chunks) @ lit '' chunks share only ''
                    @ show_nat (scDistinct sections) @ lit '' distinct heading paths (''
                    @ formatF 2 rat @ lit '' per chunk), under '' @ headingOrigin source 96
                    @ lit '', which can miss headings. Where it missed one, consecutive chunks inherit ''
                    @ lit ''the heading before it and their boundaries came from the token budget ''
                    @ lit ''rather than from the document. `section_filter` cannot separate them and ''
                    @ lit ''`outline` describes the document in '' @ show_nat (scDistinct sections)
                    @ lit '' entries.'' @ headless')
           in Some \<lparr>Code = lit ''unaddressable'', Detail = detail,
                Severity = severity (rat < AddressableUnusableRatio)\<rparr>)"

subsection \<open>Boilerplate\<close>

text \<open>\<^verbatim>\<open>\s\<close> and \<^verbatim>\<open>\d\<close> of Go's \<^verbatim>\<open>regexp\<close> are ASCII classes.\<close>

definition re_space :: "rune \<Rightarrow> bool" where
  "re_space r = (r = 9 \<or> r = 10 \<or> r = 12 \<or> r = 13 \<or> r = 32)"

definition re_digit :: "rune \<Rightarrow> bool" where
  "re_digit r = (48 \<le> r \<and> r \<le> 57)"

definition lineKey :: "gostring \<Rightarrow> gostring" where
  "lineKey line = replace_runs re_digit (lit ''#'') (replace_runs re_space (lit '' '') line)"

definition boilerplateCandidate :: "unicode \<Rightarrow> gostring \<Rightarrow> bool" where
  "boilerplateCandidate U line =
     (let n = length line
      in BoilerplateMinLineChars \<le> n \<and> n \<le> BoilerplateMaxLineChars \<and> list_ex (IsLetter U) line)"

definition put :: "'k \<Rightarrow> 'v \<Rightarrow> ('k \<times> 'v) list \<Rightarrow> ('k \<times> 'v) list" where
  "put k v m = AList.update k v m"

definition candidateStep ::
  "unicode \<Rightarrow> gostring \<Rightarrow> (gostring \<times> gostring) list \<Rightarrow> (gostring \<times> gostring) list" where
  "candidateStep U raw lines =
     (let line = Strip raw
      in if \<not> boilerplateCandidate U line then lines else put (lineKey line) line lines)"

definition candidateLines :: "unicode \<Rightarrow> gostring \<Rightarrow> (gostring \<times> gostring) list" where
  "candidateLines U t = fold (candidateStep U) (SplitLines t) []"

definition tallyCandidate ::
  "gostring \<times> gostring \<Rightarrow> (gostring \<times> nat) list \<times> (gostring \<times> gostring) list
    \<Rightarrow> (gostring \<times> nat) list \<times> (gostring \<times> gostring) list" where
  "tallyCandidate kr acc =
     (let (key, raw) = kr; (counts, example) = acc;
          n = (case map_of counts key of Some n \<Rightarrow> n | None \<Rightarrow> 0)
      in (put key (n + 1) counts,
          (case map_of example key of Some _ \<Rightarrow> example | None \<Rightarrow> put key raw example)))"

definition countCandidates ::
  "unicode \<Rightarrow> ChunkFacts list \<Rightarrow> (gostring \<times> nat) list \<times> (gostring \<times> gostring) list" where
  "countCandidates U chunks =
     fold (\<lambda>c acc. fold tallyCandidate (candidateLines U (fcText c)) acc) chunks ([], [])"

record repeatLine =
  rpExample :: gostring
  rpCount :: nat

definition repeat_le :: "repeatLine \<Rightarrow> repeatLine \<Rightarrow> bool" where
  "repeat_le a b = (rpCount b < rpCount a \<or> (rpCount b = rpCount a \<and> text_le (rpExample a) (rpExample b)))"

fun insert_repeat :: "repeatLine \<Rightarrow> repeatLine list \<Rightarrow> repeatLine list" where
  "insert_repeat x [] = [x]"
| "insert_repeat x (y # ys) = (if repeat_le x y then x # y # ys else y # insert_repeat x ys)"

definition repeatFloor :: "nat \<Rightarrow> nat" where
  "repeatFloor n = max BoilerplateMinChunks
     (nat (int_of_float (rnd (rnd (of_nat n) * BoilerplateChunkFraction))))"

definition repeatedLines :: "unicode \<Rightarrow> ChunkFacts list \<Rightarrow> repeatLine list" where
  "repeatedLines U chunks =
     (let (counts, example) = countCandidates U chunks;
          floor' = repeatFloor (length chunks);
          out = map (\<lambda>(key, n). \<lparr>rpExample = the (map_of example key), rpCount = n\<rparr>)
            (filter (\<lambda>(key, n). floor' \<le> n) counts)
      in foldr insert_repeat out [])"

definition boilerplate :: "unicode \<Rightarrow> ChunkFacts list \<Rightarrow> Finding option" where
  "boilerplate U chunks =
     (case repeatedLines U chunks of
        [] \<Rightarrow> None
      | worst # rest \<Rightarrow> Some \<lparr>Code = lit ''boilerplate'',
          Detail = show_nat (length (worst # rest))
            @ lit '' line(s) repeat across a quarter or more of the document, the most ''
            @ lit ''frequent in '' @ show_nat (rpCount worst) @ lit '' of '' @ show_nat (length chunks)
            @ lit '' chunks: '' @ Repr U (truncate_text (rpExample worst) 80)
            @ lit ''. Running headers and footers were not ''
            @ lit ''stripped, so a share of the BM25 term mass is furniture and every chunk ''
            @ lit ''matches it equally.'',
          Severity = VerdictDegraded\<rparr>)"

subsection \<open>The grade\<close>

definition Grade :: "unicode \<Rightarrow> ChunkFacts list \<Rightarrow> StructureSource \<Rightarrow> Finding list" where
  "Grade U chunks source =
     (if length chunks < GradeMinChunks then []
      else List.map_filter id
        [oversized chunks, fragmented chunks, flatHierarchy chunks, figureDominated chunks,
         unaddressable U chunks source, boilerplate U chunks])"

definition GradeVerdict :: "Finding list \<Rightarrow> Verdict" where
  "GradeVerdict findings =
     fold (\<lambda>f worst. if worst < Severity f then Severity f else worst) findings VerdictGood"

end
