(* ===== verification/Structure_Props.thy ===== *)
theory Structure_Props
  imports Structure
begin

text \<open>
  Lemmas and properties of the structure report: the float comparisons of the policy as comparisons
  of integers, what the measured fields count, and what a caller reads back from a stored report.
\<close>

subsection \<open>Rates as integer comparisons\<close>

lemma ratio_exact: "a < 2 ^ 53 \<Longrightarrow> b < 2 ^ 53 \<Longrightarrow> ratio a b = rnd (of_nat a / of_nat b)"
  by (simp add: ratio_def rnd_of_nat)

lemma ratio_ge_iff:
  assumes "0 < b" "b < 2 ^ 45" "a < 2 ^ 53" "p \<le> 100"
  shows "rnd (of_nat p / 100) \<le> ratio a b \<longleftrightarrow> p * b \<le> a * 100"
proof -
  have b: "b < 2 ^ 53" using assms(2) by simp
  have "p * b \<le> 100 * 2 ^ 45" using assms by (intro mult_le_mono) auto
  then have "p * b \<le> 2 ^ 52" by simp
  then show ?thesis
    using rnd_ratio_ge_iff[of b 100 p a] assms(1) by (simp add: ratio_exact[OF assms(3) b])
qed

lemma half_le_ratio:
  assumes "0 < b" "b < 2 ^ 45" "a < 2 ^ 53"
  shows "rnd (50 / 100) \<le> ratio a b \<longleftrightarrow> b \<le> 2 * a"
  using ratio_ge_iff[OF assms, of 50] by auto

lemma ratio_zero [simp]: "ratio 0 b = 0"
  by (simp add: ratio_def)

text \<open>What the fields of a report measured on chunks satisfy.\<close>

definition report_ok :: "StructureReport \<Rightarrow> bool" where
  "report_ok r = (repChunks r < 2 ^ 45 \<and> LargestSectionChunks r \<le> repChunks r \<and>
     DistinctHeadingPaths r \<le> repChunks r \<and> repHeadlessChunks r \<le> repChunks r)"

lemma report_okD:
  assumes "report_ok r"
  shows "repChunks r < 2 ^ 45" "LargestSectionChunks r < 2 ^ 53" "DistinctHeadingPaths r < 2 ^ 53"
    "repHeadlessChunks r < 2 ^ 53"
  using assms by (auto simp: report_ok_def)

lemma Undivided_iff:
  assumes "report_ok r"
  shows "Undivided r \<longleftrightarrow> 25 \<le> repChunks r \<and> repChunks r \<le> 2 * LargestSectionChunks r"
proof (cases "25 \<le> repChunks r")
  case True
  then have "0 < repChunks r" by simp
  then show ?thesis
    using half_le_ratio report_okD[OF assms]
    by (simp add: Undivided_def AddressabilityMinChunks_def UndividedShare_def LargestSectionShare_def)
qed (simp add: Undivided_def AddressabilityMinChunks_def)

lemma Addressability_lt_iff:
  assumes "report_ok r" "0 < repChunks r"
  shows "Addressability r < AddressableMin \<longleftrightarrow> 2 * DistinctHeadingPaths r < repChunks r"
proof -
  have "AddressableMin \<le> Addressability r \<longleftrightarrow> repChunks r \<le> 2 * DistinctHeadingPaths r"
    unfolding AddressableMin_def Addressability_def
    using half_le_ratio[OF assms(2) report_okD(1,3)[OF assms(1)]] assms(2) by simp
  then show ?thesis by (simp only: not_le[symmetric])
qed

lemma Unaddressable_iff:
  assumes "report_ok r"
  shows "Unaddressable r \<longleftrightarrow> 25 \<le> repChunks r \<and>
    (repChunks r \<le> 2 * LargestSectionChunks r \<or>
     (\<not> MarkedUp (repStructureSource r) \<and> 2 * DistinctHeadingPaths r < repChunks r))"
  using Addressability_lt_iff[OF assms]
  by (cases "25 \<le> repChunks r")
     (auto simp: Unaddressable_def Undivided_iff[OF assms] AddressabilityMinChunks_def)

lemma MostlyHeadless_iff:
  assumes "report_ok r"
  shows "MostlyHeadless r \<longleftrightarrow> 0 < repChunks r \<and> repChunks r \<le> 50 * repHeadlessChunks r"
proof (cases "0 < repChunks r")
  case True
  then show ?thesis
    using ratio_ge_iff[of "repChunks r" "repHeadlessChunks r" 2] report_okD[OF assms]
    by (simp add: MostlyHeadless_def HeadlessDegradedRate_def)
qed (simp add: MostlyHeadless_def)

lemma Incomplete_iff:
  assumes "PagesDeclared r < 2 ^ 45" "length (UnreachablePages r) < 2 ^ 53"
  shows "Incomplete r \<longleftrightarrow>
    0 < PagesDeclared r \<and> PagesDeclared r \<le> 5 * int (length (UnreachablePages r))"
proof (cases "0 < PagesDeclared r")
  case True
  define d where "d = nat (PagesDeclared r)"
  have d: "PagesDeclared r = int d" "0 < d" "d < 2 ^ 45" using True assms(1) by (auto simp: d_def)
  have "UnreachableShare r = ratio (length (UnreachablePages r)) d"
    using True d by (simp add: UnreachableShare_def ratio_def)
  then show ?thesis
    using ratio_ge_iff[OF d(2,3) assms(2), of 20] d
    by (simp add: Incomplete_def SiteIncompleteFatalShare_def) linarith
qed (simp add: Incomplete_def)

subsection \<open>What the measured fields count\<close>

lemma fold_largest:
  "fold (largestStep paths) qs acc =
     (if (\<exists>q\<in>set qs. snd acc < count_list paths q)
      then (let m = Max (count_list paths ` set qs); p = hd (filter (\<lambda>q. count_list paths q = m) qs)
            in (p, m))
      else acc)"
proof (induction qs arbitrary: acc)
  case (Cons q qs)
  let ?c = "count_list paths"
  have mx: "Max (?c ` set (q # qs)) = (if qs = [] then ?c q else max (?c q) (Max (?c ` set qs)))"
    by simp
  have in_max: "qs \<noteq> [] \<Longrightarrow> \<exists>x\<in>set qs. ?c x = Max (?c ` set qs)"
    using Max_in[of "?c ` set qs"] by fastforce
  have ge: "x \<in> set qs \<Longrightarrow> ?c x \<le> Max (?c ` set qs)" for x by simp
  show ?case
  proof (cases "\<exists>x\<in>set qs. snd (largestStep paths q acc) < ?c x")
    case True
    then obtain x where x: "x \<in> set qs" "snd (largestStep paths q acc) < ?c x" by blast
    then have ne: "qs \<noteq> []" by auto
    have "?c q \<le> snd (largestStep paths q acc)" "snd acc \<le> snd (largestStep paths q acc)"
      by (auto simp: largestStep_def)
    with x ge[OF x(1)] have "?c q < Max (?c ` set qs)" "snd acc < ?c x" by linarith+
    with x True ne show ?thesis by (auto simp: Cons.IH mx max_def Let_def)
  next
    case False
    then have small: "x \<in> set qs \<Longrightarrow> ?c x \<le> snd (largestStep paths q acc)" for x
      by (auto simp: not_less)
    show ?thesis
    proof (cases "snd acc < ?c q")
      case True
      then have st: "largestStep paths q acc = (q, ?c q)" by (simp add: largestStep_def)
      have "qs \<noteq> [] \<Longrightarrow> Max (?c ` set qs) \<le> ?c q" using small in_max st by fastforce
      then have "Max (?c ` set (q # qs)) = ?c q" unfolding mx by (cases "qs = []") (simp_all del: Max_le_iff)
      with True False st show ?thesis by (simp add: Cons.IH Let_def)
    next
      case acc: False
      then have "largestStep paths q acc = acc" by (simp add: largestStep_def)
      with acc False show ?thesis by (simp add: Cons.IH)
    qed
  qed
qed simp

lemma largestSection_eq:
  assumes "paths \<noteq> []"
  shows "largestSection paths =
    (hd (filter (\<lambda>q. count_list paths q = Max (count_list paths ` set paths)) paths),
     Max (count_list paths ` set paths))"
proof -
  have "0 < count_list paths (hd paths)" using assms count_list_0_iff[of paths "hd paths"] by simp
  moreover have "hd paths \<in> set paths" using assms by simp
  ultimately have "\<exists>q\<in>set paths. snd ([], 0) < count_list paths q" by auto
  then show ?thesis unfolding largestSection_def fold_largest by (simp add: Let_def)
qed

lemma largestSection_Nil [simp]: "largestSection [] = ([], 0)"
  by (simp add: largestSection_def)

lemma largestSection_le: "snd (largestSection paths) \<le> length paths"
proof (cases "paths = []")
  case False
  then show ?thesis by (simp add: largestSection_eq count_le_length)
qed simp

lemma MeasureChunks_ok:
  "length chunks < 2 ^ 45 \<Longrightarrow> report_ok (MeasureChunks U chunks r)"
  using largestSection_le[of "map chkHeadingPath chunks"]
    length_remdups_leq[of "map chkHeadingPath chunks"]
    length_filter_le[of "\<lambda>p. Strip p = []" "map chkHeadingPath chunks"]
  by (simp add: report_ok_def MeasureChunks_def Let_def)

lemma contiguousFrom_iff: "contiguousFrom n os \<longleftrightarrow> os = map (\<lambda>i. n + int i) [0..<length os]"
proof (induction os arbitrary: n)
  case (Cons o' os)
  have "map (\<lambda>i. n + int i) [0..<Suc (length os)] = n # map (\<lambda>i. (n + 1) + int i) [0..<length os]"
    by (simp add: upt_rec[of 0] map_Suc_upt[symmetric] add.assoc del: upt_Suc)
  then show ?case by (simp add: Cons.IH del: upt_Suc)
qed simp

lemma contiguous_iff: "contiguous os \<longleftrightarrow> os = map (\<lambda>i. hd os + int i) [0..<length os]"
  by (cases os) (simp_all add: contiguous_def contiguousFrom_iff del: upt_Suc)

lemma set_ScatteredSections:
  "s \<in> set (ScatteredSections chunks) \<longleftrightarrow>
     s \<noteq> [] \<and> (\<exists>c\<in>set chunks. chkSection c = Some s) \<and> \<not> contiguous (sectionOrdinals chunks s)"
  by (auto simp: ScatteredSections_def named_def image_iff)

lemma distinct_sort_texts [simp]: "distinct (sort_texts xs) \<longleftrightarrow> distinct xs"
  by (metis mset_eq_imp_distinct_iff mset_sort_texts)

lemma ScatteredSections_sorted:
  "sorted_wrt text_le (ScatteredSections chunks) \<and> distinct (ScatteredSections chunks)"
  by (simp add: ScatteredSections_def sorted_sort_texts)

subsection \<open>What a caller is told\<close>

lemma show_nat_nonempty [simp]: "show_nat n \<noteq> []"
  by (cases "n < 10") (simp_all add: show_nat_small show_nat_ge)

lemma addressabilityNote_iff: "addressabilityNote U r \<noteq> [] \<longleftrightarrow> Unaddressable r"
  by (simp add: addressabilityNote_def shareOf_def Unaddressable_def)

lemma finding_note_iff: "finding_note f \<noteq> [] \<longleftrightarrow> fItems f \<noteq> []"
  by (simp add: finding_note_def Let_def)

lemma rate_pos: "0 < p \<Longrightarrow> 0 < rnd (of_nat p / 100)"
  by (rule rnd_pos) simp

lemma Incomplete_pages: "Incomplete r \<Longrightarrow> UnreachablePages r \<noteq> []"
  using rate_pos[of 20]
  by (auto simp: Incomplete_def SiteIncompleteFatalShare_def UnreachableShare_def)

lemma MostlyHeadless_some: "MostlyHeadless r \<Longrightarrow> 0 < repHeadlessChunks r"
  using rate_pos[of 2]
  by (cases "repHeadlessChunks r = 0") (auto simp: MostlyHeadless_def HeadlessDegradedRate_def)

lemma Uncalibrated_noted:
  "UncalibratedScriptDegradedShare \<le> x \<Longrightarrow> UncalibratedScriptNoteShare \<le> x"
  using rnd_mono[of "10 / 100" "50 / 100"]
  by (simp add: UncalibratedScriptDegradedShare_def UncalibratedScriptNoteShare_def)

text \<open>Every ground for a grade below \<open>QualityOK\<close> puts something in the notes or in one of the four
  lists a summary renders.\<close>

lemma low_grade_reason:
  assumes "report_Quality r \<noteq> QualityOK"
  shows "Notes U r \<noteq> [] \<or> InTOCNotInBody r \<noteq> [] \<or> InBodyNotInTOC r \<noteq> [] \<or>
    DetectedMoreThanOnce r \<noteq> [] \<or> repScatteredSections r \<noteq> []"
proof -
  have "set (SymmetricDifference r) = set (InTOCNotInBody r) \<union> set (InBodyNotInTOC r)"
    by (simp add: SymmetricDifference_def)
  then have sym: "SymmetricDifference r \<noteq> [] \<Longrightarrow> InTOCNotInBody r \<noteq> [] \<or> InBodyNotInTOC r \<noteq> []"
    by (cases "InTOCNotInBody r"; cases "InBodyNotInTOC r") auto
  from assms have "Fatal r \<or> Degraded r"
    by (auto simp: report_Quality_def split: if_splits)
  then show ?thesis
    using sym Incomplete_pages[of r] MostlyHeadless_some[of r] Uncalibrated_noted
      addressabilityNote_iff[of U r]
    unfolding Fatal_def Degraded_def Notes_def scaleNotes_def Let_def by fastforce
qed

lemma textsOf_stringField [simp]: "textsOf (stringField ss) = ss"
  by (simp add: stringField_def comp_def)

lemma report_JSON_fields:
  assumes "report_JSON U r = Inr p"
  shows "storedOf p = \<lparr>stQuality = Quality_String (report_Quality r),
     stStructureSource = StructureSource_String (repStructureSource r),
     stInTOCNotInBody = InTOCNotInBody r, stInBodyNotInTOC = InBodyNotInTOC r,
     stDetectedMoreThanOnce = DetectedMoreThanOnce r, stScatteredSections = repScatteredSections r,
     stNotes = Notes U r\<rparr>"
proof -
  from assms obtain source q where src: "enum_marshal structureSourceText (repStructureSource r) = Inr source"
    and q: "enum_marshal qualityText (report_Quality r) = Inr q"
    by (auto simp: report_JSON_def split: sum.splits)
  have names: "source = StructureSource_String (repStructureSource r)" "q = Quality_String (report_Quality r)"
    using structureSource.marshal_name[OF src] quality.marshal_name[OF q]
    by (simp_all add: StructureSource_String_def Quality_String_def)
  show ?thesis
    using assms unfolding report_JSON_def src q names
    by (auto simp: storedOf_def lookup_def)
qed

lemma Quality_named: "enum_marshal qualityText (report_Quality r) = Inr (Quality_String (report_Quality r))"
proof -
  have "report_Quality r \<in> {QualityOK, QualityDegraded, QualityFailed}" by (simp add: report_Quality_def)
  then show ?thesis
    by (auto simp: enum_marshal_def Quality_String_def enum_name_def qualityText_def quality_defs)
qed

lemma Quality_read: "Quality_UnmarshalText (Quality_String (report_Quality r)) q = (None, report_Quality r)"
proof -
  have "enum_parse qualityText (Quality_String (report_Quality r)) = Inr (report_Quality r)"
    using quality.parse_marshal[of "report_Quality r"] Quality_named[of r] by blast
  then show ?thesis by (simp add: Quality_UnmarshalText_def enum_unmarshal_def)
qed

lemma Summary_eq:
  assumes "report_JSON U r = Inr p" "stored \<noteq> []" "unmarshal stored = Some (storedOf p)"
  shows "fst (Summary unmarshal stored) = report_Quality r"
    "snd (Summary unmarshal stored) = filter (\<lambda>note. note \<noteq> []) (map finding_note
       [\<lparr>fLabel = lit ''sections in the table of contents but not the body'', fItems = InTOCNotInBody r\<rparr>,
        \<lparr>fLabel = lit ''headings in the body but not the table of contents'', fItems = InBodyNotInTOC r\<rparr>,
        \<lparr>fLabel = lit ''sections detected more than once'', fItems = DetectedMoreThanOnce r\<rparr>,
        \<lparr>fLabel = lit ''sections spanning non-adjacent chunks'', fItems = repScatteredSections r\<rparr>])
       @ Notes U r"
  using assms(2,3) by (simp_all add: Summary_def report_JSON_fields[OF assms(1)] Quality_read Let_def)

subsection \<open>Properties\<close>

text \<open>The heading path a report names as the largest section is the first in document order
  among those that hold the most chunks, also where a section's chunks are scattered: it occurs in
  the document, no path occurs more often, and every path met before it occurs less often.\<close>

theorem largestSection_first_of_most:
  assumes "paths \<noteq> []" and "largestSection paths = (p, n)"
  shows "n = count_list paths p \<and> 0 < n \<and> (\<forall>q. count_list paths q \<le> n) \<and>
    (\<exists>before after. paths = before @ p # after \<and> list_all (\<lambda>q. count_list paths q < n) before)"
proof -
  let ?c = "count_list paths" and ?m = "Max (count_list paths ` set paths)"
  have n: "n = ?m" and p: "p = hd (filter (\<lambda>q. ?c q = ?m) paths)"
    using assms by (auto simp: largestSection_eq)
  have "?m \<in> ?c ` set paths" using assms(1) by (intro Max_in) auto
  then have "filter (\<lambda>q. ?c q = ?m) paths \<noteq> []" by (fastforce simp: filter_empty_conv)
  then obtain rest where "filter (\<lambda>q. ?c q = ?m) paths = p # rest"
    using p by (metis list.collapse)
  then obtain before after where split: "paths = before @ p # after"
    and pm: "?c p = ?m" and before: "\<forall>q\<in>set before. ?c q \<noteq> ?m"
    by (auto simp: filter_eq_Cons_iff)
  have le: "?c q \<le> ?m" for q
  proof (cases "q \<in> set paths")
    case False
    then have "?c q = 0" by (simp add: count_list_0_iff)
    then show ?thesis by simp
  qed simp
  have "list_all (\<lambda>q. ?c q < ?m) before" using before le by (auto simp: list_all_iff less_le)
  moreover have "p \<in> set paths" using split by (metis in_set_conv_decomp)
  then have "0 < ?c p" using count_list_0_iff[of paths p] by auto
  ultimately show ?thesis unfolding n using le split pm by metis
qed

theorem largestSection_first_of_most_witness:
  "largestSection [lit ''c'', lit ''b'', lit ''a'', lit ''a'', lit ''b''] = (lit ''b'', 2) \<and>
   (\<forall>q. count_list [lit ''c'', lit ''b'', lit ''a'', lit ''a'', lit ''b''] q \<le> 2)"
proof -
  have "largestSection [lit ''c'', lit ''b'', lit ''a'', lit ''a'', lit ''b''] = (lit ''b'', 2)"
    by (simp add: largestSection_def largestStep_def lit_def)
  then show ?thesis using largestSection_first_of_most by blast
qed

text \<open>\<^verbatim>\<open>ScatteredSections\<close> lists, sorted and without repetition, exactly the sections whose chunks'
  ordinals are not a run of consecutive numbers in document order.\<close>

theorem ScatteredSections_exact:
  "sorted_wrt text_le (ScatteredSections chunks) \<and> distinct (ScatteredSections chunks) \<and>
   set (ScatteredSections chunks) =
     {s. s \<noteq> [] \<and> (\<exists>c\<in>set chunks. chkSection c = Some s) \<and>
         (let os = sectionOrdinals chunks s in os \<noteq> map (\<lambda>i. hd os + int i) [0..<length os])}"
  using ScatteredSections_sorted[of chunks] set_ScatteredSections
  by (auto simp: contiguous_iff Let_def)



text \<open>A site is refused for completeness exactly where at least one known page in five did not
  arrive, and a refusal always comes with the pages it names.\<close>

theorem Incomplete_one_in_five:
  assumes "PagesDeclared r < 2 ^ 45" and "length (UnreachablePages r) < 2 ^ 53"
  shows "(Incomplete r \<longleftrightarrow>
      0 < PagesDeclared r \<and> PagesDeclared r \<le> 5 * int (length (UnreachablePages r))) \<and>
    (Incomplete r \<longrightarrow> UnreachablePages r \<noteq> [] \<and> report_Quality r = QualityFailed)"
  using Incomplete_iff[OF assms] Incomplete_pages[of r] by (auto simp: report_Quality_def Fatal_def)

theorem Incomplete_one_in_five_witness:
  "Incomplete (zeroReport\<lparr>PagesDeclared := 5, UnreachablePages := [lit ''u'']\<rparr>)"
  using Incomplete_one_in_five[of "zeroReport\<lparr>PagesDeclared := 5, UnreachablePages := [lit ''u'']\<rparr>"]
  by simp

text \<open>C22: What the worker stored is what a caller reads: where the decoder reads back what the encoder
  wrote, \<^verbatim>\<open>Summary\<close> gives the grade the report had, \<^verbatim>\<open>StoredSource\<close> its structure source, and a grade
  below \<^verbatim>\<open>ok\<close> always comes with at least one note saying why.\<close>

theorem Summary_of_stored:
  assumes "report_JSON U r = Inr p" and "stored \<noteq> []" and "unmarshal stored = Some (storedOf p)"
  shows "fst (Summary unmarshal stored) = report_Quality r \<and>
    StoredSource unmarshal stored = repStructureSource r \<and>
    suffix (Notes U r) (snd (Summary unmarshal stored)) \<and>
    (report_Quality r \<noteq> QualityOK \<longrightarrow> snd (Summary unmarshal stored) \<noteq> [])"
proof (intro conjI impI)
  note sum = Summary_eq(2)[where unmarshal = unmarshal and stored = stored, OF assms]
  show "fst (Summary unmarshal stored) = report_Quality r" using Summary_eq(1) assms by blast
  have "enum_marshal structureSourceText (repStructureSource r) =
      Inr (StructureSource_String (repStructureSource r))"
    using assms(1) by (auto simp: report_JSON_def enum_marshal_def StructureSource_String_def
      enum_name_def split: sum.splits option.splits)
  then show "StoredSource unmarshal stored = repStructureSource r"
    using structureSource.parse_marshal[of "repStructureSource r"] assms(3)
    by (simp add: StoredSource_def report_JSON_fields[OF assms(1)] ParseStructureSource_def)
  show "suffix (Notes U r) (snd (Summary unmarshal stored))"
    unfolding sum by (simp add: suffix_def)
  assume "report_Quality r \<noteq> QualityOK"
  from low_grade_reason[OF this, of U] show "snd (Summary unmarshal stored) \<noteq> []"
    unfolding sum by (auto simp: finding_note_iff)
qed

theorem Summary_of_stored_witness:
  "\<exists>p. report_JSON ascii_unicode (zeroReport\<lparr>repStructureSource := SourceOutline,
      DetectedMoreThanOnce := [lit ''1.2'']\<rparr>) = Inr p \<and>
    Summary (\<lambda>s. Some (storedOf p)) (lit ''{}'') \<noteq> (QualityOK, [])"
proof -
  let ?r = "zeroReport\<lparr>repStructureSource := SourceOutline, DetectedMoreThanOnce := [lit ''1.2'']\<rparr>"
  obtain p where p: "report_JSON ascii_unicode ?r = Inr p"
    using Quality_named[of ?r]
    by (simp add: report_JSON_def enum_marshal_def structureSourceText_def source_defs)
  have "report_Quality ?r \<noteq> QualityOK"
    by (simp add: report_Quality_def Degraded_def quality_defs)
  with Summary_of_stored[OF p, of "lit ''{}''" "\<lambda>s. Some (storedOf p)"] p show ?thesis
    by (auto simp: lit_def)
qed

end
