(* ===== verification/Grade_Props.thy ===== *)
theory Grade_Props
  imports GradeModel Structure_Props
begin

text \<open>
  Lemmas and properties of the grader: each rate check as a comparison of counts, the verdict as the
  worst severity, and the repeated lines a document's chunks share.
\<close>

subsection \<open>The rate checks\<close>

definition overCount :: "ChunkFacts list \<Rightarrow> nat" where
  "overCount cs = length (filter (\<lambda>c. 1200 < fcTokens c) cs)"

definition figureCount :: "ChunkFacts list \<Rightarrow> nat" where
  "figureCount cs = length (filter (\<lambda>c. 0 < fcImageCount c \<and> fcTokens c < 40) cs)"

definition mergeableFacts :: "ChunkFacts list \<Rightarrow> ChunkFacts list" where
  "mergeableFacts cs = filter (\<lambda>c. \<not> Numbered c \<and> \<not> (0 < fcImageCount c \<and> fcTokens c < 40)) cs"

definition fragmentCount :: "ChunkFacts list \<Rightarrow> nat" where
  "fragmentCount cs = length (filter (\<lambda>c. fcTokens c < MinTokens) (mergeableFacts cs))"

lemma rate_lt_iff:
  assumes "0 < b" "b < 2 ^ 45" "a \<le> b" "p \<le> 100"
  shows "ratio a b < rnd (of_nat p / 100) \<longleftrightarrow> a * 100 < p * b"
proof -
  have "a < 2 ^ 53" using assms by simp
  from ratio_ge_iff[OF assms(1,2) this assms(4)] show ?thesis by linarith
qed

lemma rate_ge_iff:
  assumes "0 < b" "b < 2 ^ 45" "a \<le> b" "p \<le> 100"
  shows "rnd (of_nat p / 100) \<le> ratio a b \<longleftrightarrow> p * b \<le> a * 100"
  using rate_lt_iff[OF assms] by (simp only: not_less[symmetric])

lemma oversized_sev:
  assumes "cs \<noteq> []" "length cs < 2 ^ 45"
  shows "map_option (\<lambda>f. (Code f, Severity f)) (oversized cs) =
    (if length cs \<le> 10 * overCount cs
     then Some (lit ''oversized'', severity (35 * length cs \<le> 100 * overCount cs)) else None)"
proof -
  have n: "0 < length cs" "overCount cs \<le> length cs" using assms by (simp_all add: overCount_def)
  have c: "length (filter (\<lambda>c. MaxTokens < fcTokens c) cs) = overCount cs"
    by (simp add: overCount_def MaxTokens_def)
  show ?thesis
    using rate_lt_iff[OF n(1) assms(2) n(2), of 10] rate_ge_iff[OF n(1) assms(2) n(2), of 35] n(1)
    unfolding oversized_def Let_def c by (auto simp: grade_bounds mult.commute)
qed

lemma figureDominated_sev:
  assumes "cs \<noteq> []" "length cs < 2 ^ 45"
  shows "map_option (\<lambda>f. (Code f, Severity f)) (figureDominated cs) =
    (if length cs \<le> 4 * figureCount cs then Some (lit ''figure_dominated'', VerdictDegraded) else None)"
proof -
  have n: "0 < length cs" "figureCount cs \<le> length cs" using assms by (simp_all add: figureCount_def)
  have c: "length (filter FigureDominated cs) = figureCount cs"
    by (simp add: figureCount_def FigureDominated_def[abs_def] FigureMaxTokens_def)
  show ?thesis
    using rate_lt_iff[OF n(1) assms(2) n(2), of 25] n(1)
    unfolding figureDominated_def Let_def c by (auto simp: grade_bounds)
qed

lemma fragmented_sev:
  assumes "length cs < 2 ^ 45"
  shows "map_option (\<lambda>f. (Code f, Severity f)) (fragmented cs) =
    (let m = length (mergeableFacts cs); k = fragmentCount cs
     in if 25 \<le> m \<and> 3 * m \<le> 10 * k
        then Some (lit ''fragmented'', severity (3 * m \<le> 5 * k)) else None)"
proof -
  let ?m = "length (mergeableFacts cs)" and ?k = "fragmentCount cs"
  have pop: "mergeablePopulation cs = (?m, ?k)"
    by (simp add: mergeablePopulation_def mergeableFacts_def fragmentCount_def FigureDominated_def
      FigureMaxTokens_def Let_def)
  show ?thesis
  proof (cases "25 \<le> ?m")
    case True
    then have n: "0 < ?m" by linarith
    have k: "?k \<le> ?m" by (simp add: fragmentCount_def)
    have m: "?m < 2 ^ 45"
      using assms by (metis (no_types, lifting) length_filter_le mergeableFacts_def order_le_less_trans)
    show ?thesis
      using rate_lt_iff[OF n m k, of 30] rate_ge_iff[OF n m k, of 60] n True
      unfolding fragmented_def Let_def pop by (auto simp: grade_bounds)
  qed (simp add: fragmented_def Let_def pop grade_bounds)
qed

lemma fold_max_le: "fold (\<lambda>c d. max d (f c)) cs a \<le> (b::nat) \<longleftrightarrow> a \<le> b \<and> list_all (\<lambda>c. f c \<le> b) cs"
  by (induction cs arbitrary: a) auto

lemma flatHierarchy_sev:
  "map_option (\<lambda>f. (Code f, Severity f)) (flatHierarchy cs) =
    (if 50 \<le> length cs \<and> list_all (\<lambda>c. Depth c \<le> 1) cs
     then Some (lit ''flat_hierarchy'', VerdictDegraded) else None)"
  using fold_max_le[of Depth cs 0 1]
  by (auto simp: flatHierarchy_def Let_def FlatMinChunks_def not_less)

definition mostUnderOnePath :: "ChunkFacts list \<Rightarrow> nat" where
  "mostUnderOnePath cs = Max (count_list (map fcHeadingPath cs) ` set (map fcHeadingPath cs))"

definition distinctPaths :: "ChunkFacts list \<Rightarrow> nat" where
  "distinctPaths cs = card (set (map fcHeadingPath cs))"

lemma sectionsOf_fields:
  "cs \<noteq> [] \<Longrightarrow> largest (sectionsOf cs) = mostUnderOnePath cs"
  "scDistinct (sectionsOf cs) = distinctPaths cs"
  by (simp_all add: sectionsOf_def Let_def largestSection_eq mostUnderOnePath_def distinctPaths_def
    length_remdups_card_conv)

lemma unaddressable_sev:
  assumes "cs \<noteq> []" "length cs < 2 ^ 45"
  shows "map_option (\<lambda>f. (Code f, Severity f)) (unaddressable U cs source) =
    (if length cs \<le> 2 * mostUnderOnePath cs \<or> (\<not> MarkedUp source \<and> 2 * distinctPaths cs < length cs)
     then Some (lit ''unaddressable'', severity (100 * distinctPaths cs < 35 * length cs)) else None)"
proof -
  let ?n = "length cs"
  have n: "0 < ?n" using assms by simp
  have d: "distinctPaths cs \<le> ?n"
    unfolding distinctPaths_def by (metis card_length length_map)
  have l: "mostUnderOnePath cs \<le> ?n"
    using largestSection_le[of "map fcHeadingPath cs"] assms(1)
    by (simp add: largestSection_eq mostUnderOnePath_def)
  have e: "UndividedShare \<le> ratio (mostUnderOnePath cs) ?n \<longleftrightarrow> ?n \<le> 2 * mostUnderOnePath cs"
    "AddressableDegradedRatio \<le> ratio (distinctPaths cs) ?n \<longleftrightarrow> ?n \<le> 2 * distinctPaths cs"
    "ratio (distinctPaths cs) ?n < AddressableUnusableRatio \<longleftrightarrow> distinctPaths cs * 100 < 35 * ?n"
    using rate_ge_iff[OF n assms(2) l, of 50] rate_ge_iff[OF n assms(2) d, of 50]
      rate_lt_iff[OF n assms(2) d, of 35] by (auto simp: UndividedShare_def grade_bounds)
  show ?thesis
    unfolding unaddressable_def Let_def sectionsOf_fields(1)[OF assms(1)] sectionsOf_fields(2) e
    by (auto simp: mult.commute)
qed

subsection \<open>Repeated lines\<close>

text \<open>What a map of counts holds at a key, zero where the key is absent.\<close>

definition cnt :: "('k \<times> nat) list \<Rightarrow> 'k \<Rightarrow> nat" where
  "cnt m k = (case map_of m k of Some n \<Rightarrow> n | None \<Rightarrow> 0)"

lemma map_of_put [simp]: "map_of (put k v m) = (map_of m)(k \<mapsto> v)"
  by (simp add: put_def update_conv')

lemma distinct_put: "distinct (map fst m) \<Longrightarrow> distinct (map fst (put k v m))"
  by (simp add: put_def distinct_update)

lemma fst_put [simp]: "fst ` set (put k v m) = insert k (fst ` set m)"
  by (simp add: put_def dom_update)

text \<open>The keys under which a chunk's text has a furniture candidate.\<close>

definition candidateKeys :: "unicode \<Rightarrow> gostring \<Rightarrow> gostring set" where
  "candidateKeys U t =
     {lineKey (Strip raw) |raw. raw \<in> set (SplitLines t) \<and> boilerplateCandidate U (Strip raw)}"

definition spelled :: "unicode \<Rightarrow> (gostring \<times> gostring) list \<Rightarrow> bool" where
  "spelled U m = (\<forall>k line. map_of m k = Some line \<longrightarrow> k = lineKey line \<and> boilerplateCandidate U line)"

lemma candidate_fold:
  assumes "distinct (map fst m)" "spelled U m"
  shows "distinct (map fst (fold (candidateStep U) ls m)) \<and> spelled U (fold (candidateStep U) ls m) \<and>
    fst ` set (fold (candidateStep U) ls m) = fst ` set m \<union>
      {lineKey (Strip raw) |raw. raw \<in> set ls \<and> boilerplateCandidate U (Strip raw)}"
  using assms
proof (induction ls arbitrary: m)
  case (Cons l ls)
  show ?case
  proof (cases "boilerplateCandidate U (Strip l)")
    case True
    let ?m = "put (lineKey (Strip l)) (Strip l) m"
    have "spelled U ?m" using Cons.prems(2) True by (simp add: spelled_def)
    moreover have "candidateStep U l m = ?m" using True by (simp add: candidateStep_def Let_def)
    ultimately show ?thesis using Cons.IH[OF distinct_put[OF Cons.prems(1)]] True by auto
  next
    case False
    then have "candidateStep U l m = m" by (simp add: candidateStep_def Let_def)
    with Cons.IH[OF Cons.prems] False show ?thesis by auto
  qed
qed auto

lemma candidateLines_props:
  "distinct (map fst (candidateLines U t))" "spelled U (candidateLines U t)"
  "fst ` set (candidateLines U t) = candidateKeys U t"
  using candidate_fold[of "[]" U "SplitLines t"]
  by (simp_all add: candidateLines_def spelled_def candidateKeys_def)

definition tallied :: "unicode \<Rightarrow> (gostring \<times> nat) list \<times> (gostring \<times> gostring) list \<Rightarrow> bool" where
  "tallied U acc \<longleftrightarrow> distinct (map fst (fst acc)) \<and> spelled U (snd acc) \<and>
     (\<forall>k. (map_of (snd acc) k = None) = (map_of (fst acc) k = None)) \<and>
     (\<forall>k. map_of (fst acc) k \<noteq> Some 0)"

lemma tally_step:
  assumes "tallied U acc" "k = lineKey raw" "boilerplateCandidate U raw"
  shows "tallied U (tallyCandidate (k, raw) acc)"
    "cnt (fst (tallyCandidate (k, raw) acc)) k' = cnt (fst acc) k' + of_bool (k = k')"
  using assms by (cases acc; auto simp: tallyCandidate_def tallied_def spelled_def cnt_def distinct_put
    split: option.splits)+

lemma tally_chunk:
  assumes "distinct (map fst kvs)" "\<forall>(k, raw)\<in>set kvs. k = lineKey raw \<and> boilerplateCandidate U raw"
    "tallied U acc"
  shows "tallied U (fold tallyCandidate kvs acc) \<and>
    cnt (fst (fold tallyCandidate kvs acc)) k' = cnt (fst acc) k' + of_bool (k' \<in> fst ` set kvs)"
  using assms
proof (induction kvs arbitrary: acc)
  case (Cons kv kvs)
  obtain k raw where kv: "kv = (k, raw)" by force
  have c: "k = lineKey raw" "boilerplateCandidate U raw" using Cons.prems(2) kv by auto
  note step = tally_step[OF Cons.prems(3) c]
  from Cons.IH[OF _ _ step(1)] Cons.prems kv step(2)[of k'] show ?case by auto
qed simp

lemma countCandidates_fold:
  assumes "tallied U acc"
  shows "tallied U (fold (\<lambda>c acc. fold tallyCandidate (candidateLines U (fcText c)) acc) cs acc) \<and>
    cnt (fst (fold (\<lambda>c acc. fold tallyCandidate (candidateLines U (fcText c)) acc) cs acc)) k =
      cnt (fst acc) k + length (filter (\<lambda>c. k \<in> candidateKeys U (fcText c)) cs)"
  using assms
proof (induction cs arbitrary: acc)
  case (Cons c cs)
  let ?kvs = "candidateLines U (fcText c)"
  have d: "distinct (map fst ?kvs)" by (rule candidateLines_props)
  have sp: "\<forall>(k, raw)\<in>set ?kvs. k = lineKey raw \<and> boilerplateCandidate U raw"
    using candidateLines_props(2)[of U "fcText c"] map_of_eq_Some_iff[OF d] unfolding spelled_def by blast
  from tally_chunk[OF d sp Cons.prems] Cons.IH show ?case
    by (auto simp: candidateLines_props(3))
qed simp

lemma countCandidates_props:
  "tallied U (countCandidates U cs)"
  "cnt (fst (countCandidates U cs)) k = length (filter (\<lambda>c. k \<in> candidateKeys U (fcText c)) cs)"
  using countCandidates_fold[of U "([], [])" cs k]
  by (simp_all add: countCandidates_def tallied_def spelled_def cnt_def)

lemma rnd_quarter: "rnd (25 / 100) = 1 / 4"
  by code_simp

lemma repeatFloor_eq:
  assumes "n < 2 ^ 50"
  shows "repeatFloor n = max 8 (n div 4)"
proof -
  define t where "t = n div 4"
  let ?x = "of_nat n * (1 / 4) :: rat"
  have n: "(of_nat n :: rat) < 2 ^ 50" using rat_of_nat_less[OF assms] by simp
  have t: "4 * t \<le> n" "n \<le> 4 * t + 3" unfolding t_def by linarith+
  have tq: "4 * (of_nat t :: rat) \<le> of_nat n" "(of_nat n :: rat) \<le> 4 * of_nat t + 3"
    using rat_of_nat_le[OF t(1)] rat_of_nat_le[OF t(2)] by simp_all
  have "t < 2 ^ 53" "n < 2 ^ 53" using assms t by simp_all
  then have rt: "rnd (of_nat t) = of_nat t" "rnd (of_nat n) = of_nat n"
    using rnd_of_nat by blast+
  have "(of_nat t :: rat) \<le> ?x" using tq by simp
  then have lo: "of_nat t \<le> rnd ?x" using rnd_mono[of "of_nat t" ?x] rt by simp
  have "rnd ?x \<le> ?x + ?x / 2 ^ 53" by (rule rnd_le) simp
  also have "\<dots> < of_nat t + 1" using tq n by simp
  finally have hi: "rnd ?x < of_nat t + 1" .
  have fl: "\<lfloor>rnd ?x\<rfloor> = int t" using lo hi by (intro floor_unique) auto
  have "rnd ?x < 2 ^ 63" using hi tq n by simp
  moreover have "0 \<le> rnd ?x" by (rule rnd_nonneg) simp
  ultimately have "int_of_float (rnd ?x) = int t" using fl by (simp only: int_of_float_nonneg)
  then show ?thesis by (simp only: repeatFloor_def grade_bounds rnd_quarter rt nat_int t_def)
qed

lemma mset_insert_repeat: "mset (insert_repeat x xs) = {#x#} + mset xs"
  by (induction xs) auto

lemma mset_sort_repeats: "mset (foldr insert_repeat xs []) = mset xs"
  by (induction xs) (auto simp: mset_insert_repeat)

lemma set_sort_repeats [simp]: "set (foldr insert_repeat xs []) = set xs"
  by (metis mset_sort_repeats set_mset_mset)

lemma repeat_le_total: "repeat_le a b \<or> repeat_le b a"
  using text_le_total by (auto simp: repeat_le_def)

lemma repeat_le_trans: "repeat_le a b \<Longrightarrow> repeat_le b c \<Longrightarrow> repeat_le a c"
  using text_le_trans by (auto simp: repeat_le_def)

lemma set_insert_repeat: "set (insert_repeat x xs) = insert x (set xs)"
  by (induction xs) auto

lemma sorted_insert_repeat:
  "sorted_wrt repeat_le xs \<Longrightarrow> sorted_wrt repeat_le (insert_repeat x xs)"
proof (induction xs)
  case (Cons y ys)
  then show ?case using repeat_le_total[of x y] by (auto simp: set_insert_repeat intro: repeat_le_trans)
qed simp

lemma sorted_repeats: "sorted_wrt repeat_le (foldr insert_repeat xs [])"
  by (induction xs) (auto simp: sorted_insert_repeat)

definition chunksWith :: "unicode \<Rightarrow> ChunkFacts list \<Rightarrow> gostring \<Rightarrow> nat" where
  "chunksWith U cs k = length (filter (\<lambda>c. k \<in> candidateKeys U (fcText c)) cs)"

lemma repeatedLines_sorted: "sorted_wrt repeat_le (repeatedLines U cs)"
  by (simp add: repeatedLines_def sorted_repeats Let_def split: prod.splits)

lemma countCandidates_Some:
  assumes "countCandidates U cs = (counts, example)"
  shows "map_of counts k = Some n \<longleftrightarrow> 0 < n \<and> n = chunksWith U cs k"
    and "map_of counts k = Some n \<Longrightarrow> \<exists>line. map_of example k = Some line \<and> lineKey line = k \<and> boilerplateCandidate U line"
    and "distinct (map fst counts)"
proof -
  have t: "tallied U (counts, example)" and c: "cnt counts k = chunksWith U cs k"
    using countCandidates_props[of U cs] assms by (simp_all add: chunksWith_def)
  show "map_of counts k = Some n \<longleftrightarrow> 0 < n \<and> n = chunksWith U cs k"
  proof (cases "map_of counts k")
    case None
    with c show ?thesis by (auto simp: cnt_def)
  next
    case (Some m)
    moreover have "map_of counts k \<noteq> Some 0" using t unfolding tallied_def fst_conv by blast
    ultimately show ?thesis using c by (auto simp: cnt_def)
  qed
  show "distinct (map fst counts)" using t by (simp add: tallied_def)
  show "\<exists>line. map_of example k = Some line \<and> lineKey line = k \<and> boilerplateCandidate U line"
    if "map_of counts k = Some n"
    using t that unfolding tallied_def spelled_def fst_conv snd_conv by (metis option.collapse option.distinct(1))
qed

lemma set_repeatedLines:
  "r \<in> set (repeatedLines U cs) \<Longrightarrow> boilerplateCandidate U (rpExample r) \<and>
     rpCount r = chunksWith U cs (lineKey (rpExample r)) \<and> repeatFloor (length cs) \<le> rpCount r"
  "0 < chunksWith U cs k \<Longrightarrow> repeatFloor (length cs) \<le> chunksWith U cs k \<Longrightarrow>
     \<exists>r\<in>set (repeatedLines U cs). lineKey (rpExample r) = k"
proof -
  obtain counts example where eq: "countCandidates U cs = (counts, example)" by force
  note cc = countCandidates_Some[OF eq]
  have set: "set (repeatedLines U cs) =
     (\<lambda>(k, n). \<lparr>rpExample = the (map_of example k), rpCount = n\<rparr>) `
       {(k, n). map_of counts k = Some n \<and> repeatFloor (length cs) \<le> n}"
    using cc(3) by (auto simp: repeatedLines_def eq Let_def image_iff)
  show "boilerplateCandidate U (rpExample r) \<and>
     rpCount r = chunksWith U cs (lineKey (rpExample r)) \<and> repeatFloor (length cs) \<le> rpCount r"
    if r: "r \<in> set (repeatedLines U cs)"
  proof -
    from r obtain k n where kn: "map_of counts k = Some n" "repeatFloor (length cs) \<le> n"
      "r = \<lparr>rpExample = the (map_of example k), rpCount = n\<rparr>" unfolding set by auto
    from cc(2)[OF kn(1)] cc(1)[of k n] kn show ?thesis by auto
  qed
  assume k: "0 < chunksWith U cs k" "repeatFloor (length cs) \<le> chunksWith U cs k"
  then have m: "map_of counts k = Some (chunksWith U cs k)" using cc(1) by blast
  from cc(2)[OF m] obtain line where line: "map_of example k = Some line" "lineKey line = k" by blast
  have "\<lparr>rpExample = line, rpCount = chunksWith U cs k\<rparr> \<in> set (repeatedLines U cs)"
    unfolding set using m k(2) line(1)
    by (intro image_eqI[of _ _ "(k, chunksWith U cs k)"]) simp_all
  with line(2) show "\<exists>r\<in>set (repeatedLines U cs). lineKey (rpExample r) = k" by force
qed

subsection \<open>The verdict and the rendering of counts\<close>

lemma GradeVerdict_fold:
  "fold (\<lambda>f worst. if worst < Severity f then Severity f else worst) fs w =
     fold max (map Severity fs) w"
  by (induction fs arbitrary: w) (auto simp: max_def)

lemma GradeVerdict_Max: "GradeVerdict fs = Max (insert VerdictGood (set (map Severity fs)))"
proof -
  have "fold max xs w = Max (insert w (set xs))" for xs :: "Verdict list" and w
  proof (induction xs arbitrary: w)
    case (Cons x xs)
    have "Max (insert w (insert x (set xs))) = Max (insert (max x w) (set xs))"
      by (cases "xs = []") (simp_all add: max.assoc max.commute max.left_commute)
    with Cons show ?case by simp
  qed simp
  then show ?thesis by (simp add: GradeVerdict_def GradeVerdict_fold)
qed

lemma thousandsFrom_digits: "44 \<notin> set ds \<Longrightarrow> filter (\<lambda>r. r \<noteq> 44) (thousandsFrom n i ds) = ds"
  by (induction n i ds rule: thousandsFrom.induct) auto

lemma show_nat_digits: "r \<in> set (show_nat n) \<Longrightarrow> 48 \<le> r \<and> r \<le> 57"
proof (induction n rule: show_nat.induct)
  case (1 n)
  then show ?case by (cases "n < 10") (auto simp: show_nat_small show_nat_ge)
qed

subsection \<open>Properties\<close>

text \<open>The severities of the findings in the order the grader reports them.\<close>

definition verdictsOf :: "Finding list \<Rightarrow> (gostring \<times> Verdict) list" where
  "verdictsOf fs = map (\<lambda>f. (Code f, Severity f)) fs"

lemma verdictsOf_map_filter:
  "verdictsOf (List.map_filter id xs) = List.map_filter (map_option (\<lambda>f. (Code f, Severity f))) xs"
  by (induction xs) (auto simp: verdictsOf_def List.map_filter_def)


definition flat_facts :: ChunkFacts where
  "flat_facts = \<lparr>fcText = lit ''x'', fcHeadingPath = lit ''h'', fcTokens = 2000, fcImageCount = 0,
     Depth = 1, Numbered = True\<rparr>"


text \<open>Under 25 chunks nothing is graded, and the verdict is the worst severity found, \<^verbatim>\<open>good\<close> where
  there is no finding.\<close>

theorem GradeVerdict_worst:
  "GradeVerdict fs = Max (insert VerdictGood (set (map Severity fs))) \<and>
   (GradeVerdict fs = VerdictGood \<or> GradeVerdict fs \<in> set (map Severity fs)) \<and>
   (25 \<le> length cs \<or> Grade U cs source = [])"
proof -
  have "Max (insert VerdictGood (set (map Severity fs))) \<in> insert VerdictGood (set (map Severity fs))"
    by (rule Max_in) auto
  then show ?thesis by (auto simp: GradeVerdict_Max Grade_def GradeMinChunks_def)
qed

text \<open>The lines reported as page furniture are exactly those whose normalised form is a candidate in
  at least eight chunks and at least a quarter of them; each is reported with the number of chunks it
  is in, the most frequent first, and with a line of the document as its example.\<close>

theorem repeatedLines_exact:
  assumes "length cs < 2 ^ 50"
  shows "sorted_wrt repeat_le (repeatedLines U cs) \<and>
    {(lineKey (rpExample r), rpCount r) |r. r \<in> set (repeatedLines U cs)} =
      {(k, n). n = chunksWith U cs k \<and> 8 \<le> n \<and> length cs div 4 \<le> n}"
proof -
  note fl = repeatFloor_eq[OF assms]
  have "(k, n) \<in> {(lineKey (rpExample r), rpCount r) |r. r \<in> set (repeatedLines U cs)}"
    if "n = chunksWith U cs k" "8 \<le> n" "length cs div 4 \<le> n" for k n
  proof -
    from that have "0 < chunksWith U cs k" "repeatFloor (length cs) \<le> chunksWith U cs k" by (simp_all add: fl)
    from set_repeatedLines(2)[OF this] obtain r where "r \<in> set (repeatedLines U cs)" "lineKey (rpExample r) = k" by blast
    with set_repeatedLines(1) that(1) show ?thesis by fastforce
  qed
  moreover have "rpCount r = chunksWith U cs (lineKey (rpExample r)) \<and> 8 \<le> rpCount r \<and> length cs div 4 \<le> rpCount r"
    if "r \<in> set (repeatedLines U cs)" for r
    using set_repeatedLines(1)[OF that] unfolding fl by simp
  ultimately show ?thesis using repeatedLines_sorted by blast
qed

definition footer_line :: gostring where
  "footer_line = lit ''Chapter 3 of the Manual''"

lemma footer_line_candidate:
  "SplitLines footer_line = [footer_line]" "Strip footer_line = footer_line"
  "boilerplateCandidate ascii_unicode footer_line" "lineKey footer_line = lit ''Chapter # of the Manual''"
  by code_simp+

theorem repeatedLines_exact_witness:
  "(lit ''Chapter # of the Manual'', 9) \<in>
     {(lineKey (rpExample r), rpCount r) |r.
       r \<in> set (repeatedLines ascii_unicode (replicate 9 (flat_facts\<lparr>fcText := footer_line\<rparr>)))}"
proof -
  have "candidateKeys ascii_unicode footer_line = {lit ''Chapter # of the Manual''}"
    using footer_line_candidate by (auto simp: candidateKeys_def)
  then show ?thesis
    using repeatedLines_exact[of "replicate 9 (flat_facts\<lparr>fcText := footer_line\<rparr>)" ascii_unicode]
    by (simp add: chunksWith_def)
qed

text \<open>\<^verbatim>\<open>thousands\<close> only groups the digits: dropping the commas gives the decimal numeral back.\<close>

theorem thousands_digits: "filter (\<lambda>r. r \<noteq> 44) (thousands n) = show_int n"
proof -
  have "44 \<notin> set (show_int n)" using show_nat_digits[of 44] by (auto simp: show_int_def)
  then show ?thesis by (simp add: thousands_def Let_def thousandsFrom_digits)
qed

end
