(* ===== verification/Measure.thy ===== *)
theory Measure
  imports Structure
begin

text \<open>
  \<^verbatim>\<open>internal/domain/measure.go\<close>: the integrity facts a document's stored chunks show.  An index out of
  range panics in Go; \<open>spread\<close> returns \<open>None\<close> there.
\<close>

record TokenSpread =
  spMin :: nat
  Median :: nat
  P95 :: nat
  spMax :: nat
  Mean :: nat
  Total :: nat

record SizedChunk =
  szHeadingPath :: gostring
  szOrdinal :: int
  szTokens :: nat

record Measurements =
  UncoveredPages :: "int list"
  OrdinalGaps :: "int list"
  msScatteredSections :: "gostring list"
  Longest :: "SizedChunk list"
  Shortest :: "SizedChunk list"
  msTokens :: TokenSpread
  MissingLocator :: nat
  ChunksWithImages :: nat
  ChunkCount :: nat
  msHeadlessChunks :: nat

definition extremes :: nat where "extremes = 10"

definition tally :: "Chunk \<Rightarrow> bool \<Rightarrow> Measurements \<Rightarrow> Measurements" where
  "tally c paginated m =
     (let m = (if 0 < chkImageCount c then m\<lparr>ChunksWithImages := ChunksWithImages m + 1\<rparr> else m);
          m = (if paginated \<and> PageStart c = None then m\<lparr>MissingLocator := MissingLocator m + 1\<rparr> else m)
      in if Strip (chkHeadingPath c) = [] then m\<lparr>msHeadlessChunks := msHeadlessChunks m + 1\<rparr> else m)"

definition percentile :: "nat list \<Rightarrow> rat \<Rightarrow> nat" where
  "percentile sorted' q =
     (if length sorted' = 0 then 0
      else sorted' ! min (length sorted' - 1) (nat (int_of_float (rnd (rnd (of_nat (length sorted')) * q)))))"

definition spread :: "nat list \<Rightarrow> TokenSpread option" where
  "spread counts =
     (let sorted' = sort counts
      in if sorted' = [] then None
         else Some \<lparr>spMin = sorted' ! 0, Median = percentile sorted' (rnd (1 / 2)),
                P95 = percentile sorted' (rnd (95 / 100)), spMax = sorted' ! (length sorted' - 1),
                Mean = sum_list sorted' div length sorted', Total = sum_list sorted'\<rparr>)"

definition extremesOf :: "SizedChunk list \<Rightarrow> SizedChunk list \<times> SizedChunk list" where
  "extremesOf sized =
     (let bySize = sort_key szTokens sized;
          shortest = take (min (length bySize) extremes) bySize;
          tail = drop (length bySize - extremes) bySize
      in (rev tail, shortest))"

definition claimedPages :: "Chunk \<Rightarrow> int list" where
  "claimedPages c =
     (case PageStart c of
        None \<Rightarrow> []
      | Some first \<Rightarrow> [first .. (case PageEnd c of Some stop \<Rightarrow> stop | None \<Rightarrow> first)])"

definition coveredPages :: "Chunk list \<Rightarrow> int set" where
  "coveredPages chunks = \<Union> (set (map (set \<circ> claimedPages) chunks))"

definition uncoveredPages :: "Chunk list \<Rightarrow> int option \<Rightarrow> int list" where
  "uncoveredPages chunks pageCount =
     (case pageCount of
        None \<Rightarrow> []
      | Some n \<Rightarrow> if n = 0 then [] else filter (\<lambda>page. page \<notin> coveredPages chunks) [1 .. n])"

fun ordinalGaps :: "Chunk list \<Rightarrow> int list" where
  "ordinalGaps (a # b # cs) =
     (if Ordinal b \<noteq> Ordinal a + 1 then [Ordinal a + 1] else []) @ ordinalGaps (b # cs)"
| "ordinalGaps _ = []"

definition zeroSpread :: TokenSpread where
  "zeroSpread = \<lparr>spMin = 0, Median = 0, P95 = 0, spMax = 0, Mean = 0, Total = 0\<rparr>"

definition sizedOf :: "unicode \<Rightarrow> Chunk \<Rightarrow> SizedChunk" where
  "sizedOf U c = \<lparr>szHeadingPath = chkHeadingPath c, szOrdinal = Ordinal c,
     szTokens = EstimateTokens U (chkText c)\<rparr>"

definition MeasureOf :: "unicode \<Rightarrow> Chunk list \<Rightarrow> int option \<Rightarrow> Measurements option" where
  "MeasureOf U chunks pageCount =
     (let m = \<lparr>UncoveredPages = [], OrdinalGaps = [], msScatteredSections = ScatteredSections chunks,
            Longest = [], Shortest = [], msTokens = zeroSpread, MissingLocator = 0,
            ChunksWithImages = 0, ChunkCount = length chunks, msHeadlessChunks = 0\<rparr>
      in if length chunks = 0 then Some m
         else
           let sized = map (sizedOf U) chunks;
               counts = map (\<lambda>c. EstimateTokens U (chkText c)) chunks;
               m = fold (\<lambda>c. tally c (pageCount \<noteq> None)) chunks m
           in case spread counts of
                None \<Rightarrow> None
              | Some tokens \<Rightarrow>
                  let (longest, shortest) = extremesOf sized
                  in Some (m\<lparr>msTokens := tokens, Longest := longest, Shortest := shortest,
                       UncoveredPages := uncoveredPages chunks pageCount,
                       OrdinalGaps := ordinalGaps chunks\<rparr>))"

subsection \<open>The token spread\<close>

lemma min_index: "xs \<noteq> [] \<Longrightarrow> min (length xs - 1) k < length xs"
  by (cases xs) (auto simp: min_def)

lemma percentile_between:
  assumes "xs \<noteq> []" "sorted xs"
  shows "xs ! 0 \<le> percentile xs q" "percentile xs q \<le> xs ! (length xs - 1)"
  unfolding percentile_def using assms min_index[OF assms(1)]
  by (auto intro!: sorted_nth_mono)

lemma percentile_mono:
  assumes "sorted xs" "length xs < 2 ^ 53" "0 \<le> p" "p \<le> q" "q \<le> 1"
  shows "percentile xs p \<le> percentile xs q"
proof (cases "xs = []")
  case False
  let ?n = "of_nat (length xs) :: rat"
  let ?i = "\<lambda>q. nat (int_of_float (rnd (rnd ?n * q)))"
  have n: "rnd ?n = ?n" using assms(2) by (rule rnd_of_nat)
  have idx: "?i q = nat \<lfloor>rnd (?n * q)\<rfloor>" if "0 \<le> q" "q \<le> 1" for q
  proof -
    have "?n * q \<le> ?n" using that by (simp add: mult_left_le)
    then have "rnd (?n * q) \<le> rnd ?n" using that by (intro rnd_mono) auto
    moreover have "?n < of_nat (2 ^ 53)" using assms(2) by (simp only: of_nat_less_iff)
    ultimately have "rnd (?n * q) < 2 ^ 63" using n by simp
    moreover have "0 \<le> rnd (?n * q)" using that by (intro rnd_nonneg) simp
    ultimately show ?thesis by (simp only: n int_of_float_nonneg)
  qed
  have "rnd (?n * p) \<le> rnd (?n * q)" using assms by (intro rnd_mono mult_left_mono) auto
  then have "?i p \<le> ?i q" using assms by (simp only: idx nat_mono floor_mono)
  then show ?thesis
    using False assms(1) min_index[OF False] unfolding percentile_def
    by (auto intro!: sorted_nth_mono)
qed (simp add: percentile_def)

lemma spread_ordered:
  assumes "spread counts = Some s" "length counts < 2 ^ 53"
  shows "spMin s \<le> Median s \<and> Median s \<le> P95 s \<and> P95 s \<le> spMax s"
proof -
  let ?xs = "sort counts"
  from assms(1) have ne: "?xs \<noteq> []"
    and s: "spMin s = ?xs ! 0" "spMax s = ?xs ! (length ?xs - 1)" "Median s = percentile ?xs (rnd (1 / 2))"
      "P95 s = percentile ?xs (rnd (95 / 100))"
    by (auto simp: spread_def Let_def split: if_splits)
  have half: "0 \<le> rnd (1 / 2)" and le: "rnd (1 / 2) \<le> rnd (95 / 100)"
    by (auto intro: rnd_nonneg rnd_mono)
  have one: "rnd (95 / 100) \<le> 1"
    using rnd_mono[of "95 / 100" 1] rnd_of_nat[of 1] by simp
  have "percentile ?xs (rnd (1 / 2)) \<le> percentile ?xs (rnd (95 / 100))"
    using assms(2) half le one by (intro percentile_mono) auto
  then show ?thesis
    unfolding s using percentile_between[OF ne] by simp
qed

lemma spread_Some: "counts \<noteq> [] \<Longrightarrow> \<exists>s. spread counts = Some s"
proof -
  assume "counts \<noteq> []"
  then have "sort counts \<noteq> []" by (metis set_empty set_sort)
  then show ?thesis by (simp add: spread_def Let_def)
qed

lemma MeasureOf_total: "\<exists>m. MeasureOf U chunks pageCount = Some m"
  using spread_Some[of "map (\<lambda>c. EstimateTokens U (chkText c)) chunks"]
  by (cases "chunks = []") (auto simp: MeasureOf_def Let_def split: prod.splits)

subsection \<open>Counts, pages and gaps\<close>

lemma tally_fields:
  "ChunksWithImages (tally c b m) = ChunksWithImages m + (if 0 < chkImageCount c then 1 else 0)"
  "MissingLocator (tally c b m) = MissingLocator m + (if b \<and> PageStart c = None then 1 else 0)"
  "msHeadlessChunks (tally c b m) = msHeadlessChunks m + (if Strip (chkHeadingPath c) = [] then 1 else 0)"
  "ChunkCount (tally c b m) = ChunkCount m"
  "msScatteredSections (tally c b m) = msScatteredSections m"
  by (simp_all add: tally_def Let_def)

lemma tally_all:
  "ChunksWithImages (fold (\<lambda>c. tally c b) cs m) =
     ChunksWithImages m + length (filter (\<lambda>c. 0 < chkImageCount c) cs)"
  "MissingLocator (fold (\<lambda>c. tally c b) cs m) =
     MissingLocator m + length (filter (\<lambda>c. b \<and> PageStart c = None) cs)"
  "msHeadlessChunks (fold (\<lambda>c. tally c b) cs m) =
     msHeadlessChunks m + length (filter (\<lambda>c. Strip (chkHeadingPath c) = []) cs)"
  "ChunkCount (fold (\<lambda>c. tally c b) cs m) = ChunkCount m"
  "msScatteredSections (fold (\<lambda>c. tally c b) cs m) = msScatteredSections m"
  by (induction cs arbitrary: m) (simp_all add: tally_fields)

lemma claimedPages_iff:
  "page \<in> set (claimedPages c) \<longleftrightarrow>
     (\<exists>first. PageStart c = Some first \<and> first \<le> page \<and>
        page \<le> (case PageEnd c of Some stop \<Rightarrow> stop | None \<Rightarrow> first))"
  by (cases "PageStart c"; cases "PageEnd c") (auto simp: claimedPages_def)

lemma ordinalGaps_next:
  "g \<in> set (ordinalGaps cs) \<longleftrightarrow>
     (\<exists>i. Suc i < length cs \<and> g = Ordinal (cs ! i) + 1 \<and> Ordinal (cs ! Suc i) \<noteq> g)"
proof (induction cs rule: ordinalGaps.induct)
  case (1 a b cs)
  have "(\<exists>i. Suc i < length (a # b # cs) \<and> g = Ordinal ((a # b # cs) ! i) + 1 \<and>
          Ordinal ((a # b # cs) ! Suc i) \<noteq> g) \<longleftrightarrow>
        (g = Ordinal a + 1 \<and> Ordinal b \<noteq> g) \<or>
        (\<exists>i. Suc i < length (b # cs) \<and> g = Ordinal ((b # cs) ! i) + 1 \<and> Ordinal ((b # cs) ! Suc i) \<noteq> g)"
    (is "?L \<longleftrightarrow> ?R")
  proof
    assume ?L
    then obtain i where "Suc i < length (a # b # cs)" "g = Ordinal ((a # b # cs) ! i) + 1"
      "Ordinal ((a # b # cs) ! Suc i) \<noteq> g" by blast
    then show ?R by (cases i) auto
  next
    assume ?R
    then show ?L by (auto intro: exI[of _ 0] exI[of _ "Suc i" for i])
  qed
  with 1 show ?case by auto
qed auto

lemma ordinalGaps_Nil_iff:
  "ordinalGaps cs = [] \<longleftrightarrow> (\<forall>i. Suc i < length cs \<longrightarrow> Ordinal (cs ! Suc i) = Ordinal (cs ! i) + 1)"
proof -
  have "ordinalGaps cs = [] \<longleftrightarrow> (\<forall>g. g \<notin> set (ordinalGaps cs))" by (cases "ordinalGaps cs") auto
  then show ?thesis unfolding ordinalGaps_next by auto
qed

lemma MeasureOf_eq:
  assumes "MeasureOf U chunks pageCount = Some m" "chunks \<noteq> []"
  shows "spread (map (\<lambda>c. EstimateTokens U (chkText c)) chunks) = Some (msTokens m)"
    "(Longest m, Shortest m) = extremesOf (map (sizedOf U) chunks)"
    "UncoveredPages m = uncoveredPages chunks pageCount" "OrdinalGaps m = ordinalGaps chunks"
  using assms by (auto simp: MeasureOf_def Let_def split: option.splits prod.splits)

lemma MeasureOf_counts:
  assumes "MeasureOf U chunks pageCount = Some m"
  shows "ChunkCount m = length chunks" "msScatteredSections m = ScatteredSections chunks"
    "ChunksWithImages m = length (filter (\<lambda>c. 0 < chkImageCount c) chunks)"
    "MissingLocator m = length (filter (\<lambda>c. pageCount \<noteq> None \<and> PageStart c = None) chunks)"
    "msHeadlessChunks m = length (filter (\<lambda>c. Strip (chkHeadingPath c) = []) chunks)"
  using assms by (cases "chunks = []";
    auto simp: MeasureOf_def Let_def tally_all split: option.splits prod.splits)+

lemma extremesOf_props:
  assumes "extremesOf sized = (longest, shortest)"
  shows "sorted (map szTokens shortest)" "sorted (rev (map szTokens longest))"
    "length shortest = min 10 (length sized)" "length longest = min 10 (length sized)"
    "\<exists>rest. mset sized = mset shortest + mset rest \<and> (\<forall>x\<in>set shortest. \<forall>y\<in>set rest. szTokens x \<le> szTokens y)"
    "\<exists>rest. mset sized = mset longest + mset rest \<and> (\<forall>x\<in>set longest. \<forall>y\<in>set rest. szTokens y \<le> szTokens x)"
proof -
  let ?s = "sort_key szTokens sized"
  let ?n = "min (length ?s) extremes" and ?k = "length ?s - extremes"
  have eq: "shortest = take ?n ?s" "longest = rev (drop ?k ?s)"
    using assms by (auto simp: extremesOf_def Let_def)
  have srt: "sorted (map szTokens ?s)" by simp
  show "sorted (map szTokens shortest)"
    unfolding eq take_map[symmetric] using srt by (rule sorted_wrt_take)
  show "sorted (rev (map szTokens longest))"
    unfolding eq rev_map rev_rev_ident drop_map[symmetric] using srt by (rule sorted_wrt_drop)
  show "length shortest = min 10 (length sized)" "length longest = min 10 (length sized)"
    by (simp_all add: eq extremes_def)
  have ms: "mset sized = mset (take i ?s) + mset (drop i ?s)" for i
    by (metis append_take_drop_id mset_append mset_sort)
  have ord: "\<forall>x\<in>set (take i ?s). \<forall>y\<in>set (drop i ?s). szTokens x \<le> szTokens y" for i
  proof -
    have "sorted (map szTokens (take i ?s) @ map szTokens (drop i ?s))"
      using srt unfolding map_append[symmetric] append_take_drop_id .
    then show ?thesis unfolding sorted_append by simp
  qed
  show "\<exists>rest. mset sized = mset shortest + mset rest \<and> (\<forall>x\<in>set shortest. \<forall>y\<in>set rest. szTokens x \<le> szTokens y)"
    using ms[of ?n] ord[of ?n] unfolding eq by blast
  show "\<exists>rest. mset sized = mset longest + mset rest \<and> (\<forall>x\<in>set longest. \<forall>y\<in>set rest. szTokens y \<le> szTokens x)"
    using ms[of ?k] ord[of ?k] unfolding eq mset_rev set_rev add.commute[of "mset (drop ?k ?s)"]
    by blast
qed

subsection \<open>Properties\<close>

text \<open>Measuring never panics and its counts are exact: the chunks with images, the chunks of a
  paginated document that name no page, the headless chunks, and the numbering gaps, which are
  named by the ordinal the numbering should have gone on with.\<close>

theorem Measure_facts:
  "\<exists>m. MeasureOf U chunks pageCount = Some m \<and> ChunkCount m = length chunks \<and>
     ChunksWithImages m = length (filter (\<lambda>c. 0 < chkImageCount c) chunks) \<and>
     MissingLocator m = length (filter (\<lambda>c. pageCount \<noteq> None \<and> PageStart c = None) chunks) \<and>
     msHeadlessChunks m = length (filter (\<lambda>c. Strip (chkHeadingPath c) = []) chunks) \<and>
     set (OrdinalGaps m) = {g. \<exists>i. Suc i < length chunks \<and> g = Ordinal (chunks ! i) + 1 \<and>
       Ordinal (chunks ! Suc i) \<noteq> g}"
proof -
  obtain m where m: "MeasureOf U chunks pageCount = Some m" using MeasureOf_total by blast
  have "set (OrdinalGaps m) = {g. \<exists>i. Suc i < length chunks \<and> g = Ordinal (chunks ! i) + 1 \<and>
       Ordinal (chunks ! Suc i) \<noteq> g}"
  proof (cases "chunks = []")
    case True
    with m show ?thesis by (auto simp: MeasureOf_def Let_def)
  next
    case False
    show ?thesis unfolding MeasureOf_eq(4)[OF m False] using ordinalGaps_next by blast
  qed
  with m MeasureOf_counts[OF m] show ?thesis by blast
qed

text \<open>For a paginated document with chunks, the uncovered pages are the pages from 1 to its page
  count that lie in no chunk's page range, in ascending order.\<close>

theorem uncovered_pages_exact:
  assumes "MeasureOf U chunks (Some n) = Some m" and "chunks \<noteq> []"
  shows "sorted (UncoveredPages m) \<and> distinct (UncoveredPages m) \<and>
    set (UncoveredPages m) = {page. 1 \<le> page \<and> page \<le> n \<and>
      \<not> (\<exists>c\<in>set chunks. \<exists>first. PageStart c = Some first \<and> first \<le> page \<and>
          page \<le> (case PageEnd c of Some stop \<Rightarrow> stop | None \<Rightarrow> first))}"
proof -
  have "UncoveredPages m = filter (\<lambda>page. page \<notin> coveredPages chunks) [1 .. n]"
    using MeasureOf_eq(3)[OF assms] by (simp add: uncoveredPages_def)
  then show ?thesis
    by (auto simp: coveredPages_def claimedPages_iff sorted_filter[of "\<lambda>x. x", simplified])
qed

definition page_chunk :: "int \<Rightarrow> Chunk" where
  "page_chunk p = \<lparr>chkSection = None, PageStart = Some p, PageEnd = Some p, PrintedPageStart = None,
     chkURL = None, chkFragment = None, chkHeadingPath = lit ''Intro'', chkText = lit ''text'',
     Ordinal = 0, chkImageCount = 0, Kind = KindProse\<rparr>"

theorem uncovered_pages_exact_witness:
  "\<exists>m. MeasureOf ascii_unicode [page_chunk 2] (Some 3) = Some m \<and> 1 \<in> set (UncoveredPages m) \<and>
     2 \<notin> set (UncoveredPages m)"
proof -
  obtain m where m: "MeasureOf ascii_unicode [page_chunk 2] (Some 3) = Some m" using MeasureOf_total by blast
  from uncovered_pages_exact[OF m] m show ?thesis by (simp add: page_chunk_def)
qed

text \<open>The token spread is ordered, least, median, 95th percentile, greatest, and the longest and
  shortest chunks a report names really are the extremes: at most ten of each, in order of size, none
  of the chunks left out being longer than a longest or shorter than a shortest.\<close>

theorem spread_and_extremes:
  assumes "MeasureOf U chunks pageCount = Some m" and "chunks \<noteq> []" and "length chunks < 2 ^ 53"
  shows "spMin (msTokens m) \<le> Median (msTokens m) \<and> Median (msTokens m) \<le> P95 (msTokens m) \<and>
    P95 (msTokens m) \<le> spMax (msTokens m) \<and>
    sorted (map szTokens (Shortest m)) \<and> sorted (rev (map szTokens (Longest m))) \<and>
    length (Shortest m) = min 10 (length chunks) \<and> length (Longest m) = min 10 (length chunks) \<and>
    (\<exists>rest. mset (map (sizedOf U) chunks) = mset (Shortest m) + mset rest \<and>
       (\<forall>x\<in>set (Shortest m). \<forall>y\<in>set rest. szTokens x \<le> szTokens y)) \<and>
    (\<exists>rest. mset (map (sizedOf U) chunks) = mset (Longest m) + mset rest \<and>
       (\<forall>x\<in>set (Longest m). \<forall>y\<in>set rest. szTokens y \<le> szTokens x))"
  using spread_ordered[OF MeasureOf_eq(1)[OF assms(1,2)]] assms(3)
    extremesOf_props[OF MeasureOf_eq(2)[OF assms(1,2), symmetric]] by simp

theorem spread_and_extremes_witness:
  "\<exists>m. MeasureOf ascii_unicode [page_chunk 1, page_chunk 2] None = Some m \<and> length (Longest m) = 2 \<and>
     spMin (msTokens m) \<le> Median (msTokens m)"
proof -
  obtain m where m: "MeasureOf ascii_unicode [page_chunk 1, page_chunk 2] None = Some m"
    using MeasureOf_total by blast
  from spread_and_extremes[OF m] m show ?thesis by simp
qed

end
