(* ===== verification/Inspect.thy ===== *)
theory Inspect
  imports Gofmt
begin

text \<open>
  \<^verbatim>\<open>internal/domain/inspect.go\<close>: the reconnaissance report and how it is printed.  \<open>len\<close> of a Go string
  counts bytes, so the width a line wraps at is measured by \<open>byteLen\<close>.
\<close>

type_synonym Level = "8 word"

definition LevelOK :: Level where "LevelOK = 1"
definition LevelWarn :: Level where "LevelWarn = 2"
definition LevelBlocked :: Level where "LevelBlocked = 3"

definition levelText :: enumText where
  "levelText = newEnumText (lit ''level'')
     [(LevelOK, lit ''ok''), (LevelWarn, lit ''warn''), (LevelBlocked, lit ''blocked'')]"

interpretation level: enum_table levelText
  by unfold_locales (simp_all add: levelText_def LevelOK_def LevelWarn_def LevelBlocked_def lit_def)

record InspectFinding =
  ifLabel :: gostring
  ifDetail :: gostring
  ifLevel :: Level

record InspectReport =
  Target :: gostring
  irFormat :: gostring
  PredictedSource :: gostring
  PredictedTier :: gostring
  irPageCount :: "int option"
  Findings :: "InspectFinding list"

definition Blocked :: "InspectReport \<Rightarrow> bool" where
  "Blocked r = list_ex (\<lambda>f. ifLevel f = LevelBlocked) (Findings r)"

definition Display :: "InspectReport \<Rightarrow> gostring" where
  "Display r =
     (if contains (Target r) (lit ''://'') then Target r
      else case last_index (Target r) (lit ''/'') of
             Some i \<Rightarrow> drop (Suc i) (Target r)
           | None \<Rightarrow> Target r)"

definition AddFinding :: "Level \<Rightarrow> gostring \<Rightarrow> gostring \<Rightarrow> InspectReport \<Rightarrow> InspectReport" where
  "AddFinding level label detail r =
     r\<lparr>Findings := Findings r @ [\<lparr>ifLabel = label, ifDetail = detail, ifLevel = level\<rparr>]\<rparr>"

definition TierAuthoritative :: gostring where "TierAuthoritative = lit ''authoritative''"
definition TierDeclared :: gostring where "TierDeclared = lit ''declared, recovered by parsing''"
definition TierInferred :: gostring where "TierInferred = lit ''inferred, no source to check it against''"

definition levelWidth :: nat where "levelWidth = 7"
definition inspectDetailWidth :: nat where "inspectDetailWidth = 72"

definition centred :: "gostring \<Rightarrow> nat \<Rightarrow> gostring" where
  "centred t width =
     (let padding = int width - int (length t)
      in if padding \<le> 0 then t
         else let left = nat padding div 2
              in replicate left 32 @ t @ replicate (nat padding - left) 32)"

text \<open>\<^verbatim>\<open>unicode.IsSpace\<close>, and \<^verbatim>\<open>strings.Fields\<close>, which splits around runs of it.\<close>

definition go_space :: "rune \<Rightarrow> bool" where
  "go_space r = in_table [(9, 13), (32, 32), (0x85, 0x85), (0xa0, 0xa0), (0x1680, 0x1680),
     (0x2000, 0x200a), (0x2028, 0x2029), (0x202f, 0x202f), (0x205f, 0x205f), (0x3000, 0x3000)] r"

function Fields :: "gostring \<Rightarrow> gostring list" where
  "Fields s =
     (case dropWhile go_space s of
        [] \<Rightarrow> []
      | c # cs \<Rightarrow> takeWhile (\<lambda>r. \<not> go_space r) (c # cs) # Fields (dropWhile (\<lambda>r. \<not> go_space r) (c # cs)))"
  by pat_completeness auto
termination
proof (relation "measure length")
  fix s c cs assume d: "dropWhile go_space s = c # cs"
  then have "\<not> go_space c" by (metis hd_dropWhile list.discI list.sel(1))
  then have "length (dropWhile (\<lambda>r. \<not> go_space r) (c # cs)) \<le> length cs"
    by (simp add: length_dropWhile_le)
  also have "\<dots> < length s" using length_dropWhile_le[of go_space s] d by simp
  finally show "(dropWhile (\<lambda>r. \<not> go_space r) (c # cs), s) \<in> measure length" by simp
qed simp

declare Fields.simps [simp del]

text \<open>The loop of \<^verbatim>\<open>wrapText\<close>: the lines finished so far and the line being filled.\<close>

definition wrapStep :: "nat \<Rightarrow> gostring \<Rightarrow> gostring list \<times> gostring \<Rightarrow> gostring list \<times> gostring" where
  "wrapStep width word acc =
     (let (lines, current) = acc
      in if current = [] then (lines, word)
         else if width < byteLen current + 1 + byteLen word then (lines @ [current], word)
         else (lines, current @ 32 # word))"

definition wrapText :: "gostring \<Rightarrow> nat \<Rightarrow> gostring list" where
  "wrapText t width =
     (let (lines, current) = fold (wrapStep width) (Fields t) ([], [])
      in if current \<noteq> [] then lines @ [current] else lines)"

definition upper :: "gostring \<Rightarrow> gostring" where
  "upper s = map (\<lambda>r. if 97 \<le> r \<and> r \<le> 122 then r - 32 else r) s"

definition findingLines :: "InspectFinding \<Rightarrow> gostring list" where
  "findingLines f =
     (91 # centred (upper (enum_name levelText (ifLevel f))) levelWidth @ lit ''] '' @ ifLabel f)
     # map (\<lambda>wrapped. replicate 12 32 @ wrapped) (wrapText (ifDetail f) inspectDetailWidth)"

definition Report :: "InspectReport \<Rightarrow> gostring" where
  "Report r =
     (let (label, unit) = (if irFormat r = FormatSite then (FormatSite, lit ''pages found'')
                           else (lit ''file'', lit ''pages''));
          lines =
            [pad_right 11 32 label @ 32 # Display r, pad_right 11 32 (lit ''format'') @ 32 # irFormat r]
            @ (case irPageCount r of Some n \<Rightarrow> [pad_right 11 32 unit @ 32 # show_int n] | None \<Rightarrow> [])
            @ [[]] @ concat (map findingLines (Findings r)) @ [[]]
            @ (if Blocked r then [lit ''This document cannot be ingested as it stands.'']
               else [lit ''structure source: '' @ PredictedSource r @ lit '' ('' @ PredictedTier r @ lit '')''])
      in trim_suffix (concat (map (\<lambda>l. l @ [10]) lines)) [10])"

subsection \<open>Wrapping\<close>

lemma Fields_words:
  "list_all (\<lambda>w. w \<noteq> [] \<and> list_all (\<lambda>r. \<not> go_space r) w) (Fields s)"
proof (induction s rule: Fields.induct)
  case (1 s)
  show ?case
  proof (cases "dropWhile go_space s")
    case Nil
    show ?thesis by (subst Fields.simps) (simp only: Nil list.case list.pred_inject)
  next
    case (Cons c cs)
    then have "\<not> go_space c" by (metis hd_dropWhile list.discI list.sel(1))
    then have "takeWhile (\<lambda>r. \<not> go_space r) (c # cs) \<noteq> []" by simp
    moreover have "list_all (\<lambda>r. \<not> go_space r) (takeWhile (\<lambda>r. \<not> go_space r) (c # cs))"
      unfolding list_all_iff by (blast dest: set_takeWhileD)
    ultimately show ?thesis
      using 1[OF Cons] by (subst Fields.simps) (simp only: Cons list.case list.pred_inject simp_thms)
  qed
qed

lemma Fields_runes: "concat (Fields s) = filter (\<lambda>r. \<not> go_space r) s"
proof (induction s rule: Fields.induct)
  case (1 s)
  have skip: "filter (\<lambda>r. \<not> go_space r) (dropWhile go_space s) = filter (\<lambda>r. \<not> go_space r) s"
    by (induction s) auto
  show ?case
  proof (cases "dropWhile go_space s")
    case Nil
    then have "filter (\<lambda>r. \<not> go_space r) s = []" using skip by (simp only: filter.simps)
    then show ?thesis by (subst Fields.simps) (simp only: Nil list.case concat.simps)
  next
    case (Cons c cs)
    let ?d = "c # cs"
    have "concat (Fields s) = takeWhile (\<lambda>r. \<not> go_space r) ?d @ concat (Fields (dropWhile (\<lambda>r. \<not> go_space r) ?d))"
      by (subst Fields.simps) (simp add: Cons)
    also have "takeWhile (\<lambda>r. \<not> go_space r) ?d = filter (\<lambda>r. \<not> go_space r) (takeWhile (\<lambda>r. \<not> go_space r) ?d)"
      by (metis (mono_tags, lifting) filter_True set_takeWhileD)
    also have "\<dots> @ concat (Fields (dropWhile (\<lambda>r. \<not> go_space r) ?d)) = filter (\<lambda>r. \<not> go_space r) ?d"
      unfolding 1[OF Cons] filter_append[symmetric] takeWhile_dropWhile_id ..
    finally show ?thesis using skip Cons by simp
  qed
qed

text \<open>The groups of words a wrapping puts on each line: the lines they fill, that they fit, and that
  none could have taken the first word of the next.\<close>

definition joined :: "gostring list \<Rightarrow> gostring" where
  "joined ws = join [32] ws"

fun greedy :: "nat \<Rightarrow> gostring list list \<Rightarrow> bool" where
  "greedy width (g # h # gs) = (width < byteLen (joined g) + 1 + byteLen (hd h) \<and> greedy width (h # gs))"
| "greedy width _ = True"

definition wrapped :: "nat \<Rightarrow> gostring list \<Rightarrow> gostring list list \<Rightarrow> bool" where
  "wrapped width words gs \<longleftrightarrow> concat gs = words \<and> [] \<notin> set gs \<and>
     list_all (\<lambda>g. byteLen (joined g) \<le> width \<or> length g = 1) gs \<and> greedy width gs"

lemma greedy_snoc:
  "greedy width (gs @ [g]) \<Longrightarrow> width < byteLen (joined g) + 1 + byteLen w \<Longrightarrow> greedy width (gs @ [g, [w]])"
  by (induction width "gs @ [g]" arbitrary: gs rule: greedy.induct)
     (auto simp: Cons_eq_append_conv append_eq_Cons_conv)

lemma greedy_extend: "greedy width (gs @ [g]) \<Longrightarrow> g \<noteq> [] \<Longrightarrow> greedy width (gs @ [g @ [w]])"
proof (induction gs)
  case (Cons h gs)
  then show ?case by (cases gs) auto
qed simp

lemma byteLen_append [simp]: "byteLen (a @ b) = byteLen a + byteLen b"
  by (simp add: byteLen_def)

lemma joined_snoc: "ws \<noteq> [] \<Longrightarrow> joined (ws @ [w]) = joined ws @ 32 # w"
  by (simp add: joined_def join_append)

lemma joined_nonempty: "ws \<noteq> [] \<Longrightarrow> list_all (\<lambda>w. w \<noteq> []) ws \<Longrightarrow> joined ws \<noteq> []"
  unfolding joined_def by (induction "[32] :: gostring" ws rule: join.induct) auto

lemma wrap_fold:
  assumes "wrapped width done (gs @ [g])" "list_all (\<lambda>w. w \<noteq> []) (done @ ws)"
  shows "\<exists>gs' g'. fold (wrapStep width) ws (map joined gs, joined g) = (map joined gs', joined g') \<and>
    wrapped width (done @ ws) (gs' @ [g'])"
  using assms
proof (induction ws arbitrary: "done" gs g)
  case (Cons w ws)
  have ne: "g \<noteq> []" "done = concat gs @ g" using Cons.prems(1) by (auto simp: wrapped_def)
  have "joined g \<noteq> []" using Cons.prems(2) ne by (intro joined_nonempty) auto
  have ws: "list_all (\<lambda>w. w \<noteq> []) ((done @ [w]) @ ws)" using Cons.prems(2) by simp
  show ?case
  proof (cases "width < byteLen (joined g) + 1 + byteLen w")
    case True
    have "wrapped width (done @ [w]) ((gs @ [g]) @ [[w]])"
      using Cons.prems(1) greedy_snoc[of width gs g w] True by (auto simp: wrapped_def)
    from Cons.IH[OF this ws] True \<open>joined g \<noteq> []\<close> show ?thesis
      by (simp add: wrapStep_def joined_def)
  next
    case False
    have j: "joined (g @ [w]) = joined g @ 32 # w" using ne by (simp add: joined_snoc)
    have "byteLen (joined (g @ [w])) \<le> width"
      using False unfolding j byteLen_append by (simp add: byteLen_def runeLen_def)
    then have "wrapped width (done @ [w]) (gs @ [g @ [w]])"
      using Cons.prems(1) greedy_extend[of width gs g w] ne by (auto simp: wrapped_def)
    from Cons.IH[OF this ws] False \<open>joined g \<noteq> []\<close> show ?thesis
      by (simp add: wrapStep_def j)
  qed
qed auto

text \<open>\<^verbatim>\<open>wrapText\<close> is the greedy wrapping: the words of the text in order, none broken, each line no
  wider than the width unless it is one word, and no line short enough to have taken the next word.\<close>

theorem wrapText_greedy:
  "\<exists>gs. wrapText t width = map (join [32]) gs \<and> concat gs = Fields t \<and> [] \<notin> set gs \<and>
     list_all (\<lambda>g. byteLen (join [32] g) \<le> width \<or> length g = 1) gs \<and> greedy width gs"
proof (cases "Fields t")
  case Nil
  then show ?thesis by (intro exI[of _ "[]"]) (simp add: wrapText_def)
next
  case (Cons w ws)
  have words: "list_all (\<lambda>w. w \<noteq> []) (w # ws)"
    using Fields_words[of t] by (simp add: Cons list_all_iff)
  have "wrapped width [w] ([] @ [[w]])" by (simp add: wrapped_def)
  from wrap_fold[OF this, of ws] words obtain gs g where
    f: "fold (wrapStep width) ws (map joined [], joined [w]) = (map joined gs, joined g)"
    and wr: "wrapped width ([w] @ ws) (gs @ [g])" by (metis append_Cons append_Nil)
  from wr have g: "g \<noteq> []" "w # ws = concat gs @ g" by (auto simp: wrapped_def)
  then have "joined g \<noteq> []" using words by (intro joined_nonempty) (auto simp: list_all_iff)
  moreover have "fold (wrapStep width) (Fields t) ([], []) = (map joined gs, joined g)"
    using f by (simp add: Cons wrapStep_def joined_def)
  ultimately have "wrapText t width = map (join [32]) (gs @ [g])"
    by (simp add: wrapText_def joined_def[abs_def])
  then show ?thesis
    using wr Cons unfolding wrapped_def joined_def by (intro exI[of _ "gs @ [g]"]) auto
qed

lemma Blocked_AddFinding: "Blocked (AddFinding l a b r) \<longleftrightarrow> Blocked r \<or> l = LevelBlocked"
  by (auto simp: Blocked_def AddFinding_def)

end
