(* ===== verification/GoErrors.thy ===== *)
theory GoErrors
  imports Prelude
begin

text \<open>
  Go errors as values.  A sentinel is a package variable compared by \<^verbatim>\<open>errors.Is\<close>; \<^verbatim>\<open>fmt.Errorf\<close> with
  \<^verbatim>\<open>%w\<close> wraps an error, at the end of a message (\<open>Errorf\<close>) or at its start (\<open>ErrorfPrefix\<close>)
  or at both (\<open>ErrorfBoth\<close>), and \<^verbatim>\<open>errors.Join\<close> holds several.  \<^verbatim>\<open>errors.Is\<close> and \<^verbatim>\<open>errors.As\<close>
  search that tree.
\<close>

datatype sentinel =
    ErrCancelled
  | ErrUnsupportedFormat
  | ErrLostClaim
  | ErrMissing
  | ErrOutsideRoot
  | ErrBlocked
  | ErrUnresolved
  | ErrNoRows
  | ErrNotFound
  | ErrStoreNotFound
  | ErrNoOwner
  | ErrNotWritable
  | ErrTooLong
  | ErrFetch
  | ErrContext
  | ErrFault
  | ErrSignInRefused
  | ErrNoSuchAccount
  | ErrUsername
  | ErrStranded
  | ErrTaken
  | ErrBuiltinTaken
  | ErrNoAccount
  | ErrNotAllowed
  | ErrExpired
  | ErrAuthNotFound
  | ErrInvalidRefresh
  | ErrInvalidGrant
  | ErrInvalidToken
  | ErrUnchecked

datatype goerror =
    Sentinel sentinel
  | ErrorNew gostring
  | StructureError gostring
  | StrandedError gostring
  | Errorf gostring goerror
  | ErrorfPrefix goerror gostring
  | ErrorfBoth goerror gostring goerror
  | Join "goerror list"

text \<open>\<^verbatim>\<open>ErrMissing\<close> unwraps to \<^verbatim>\<open>ErrOutsideRoot\<close> and \<^verbatim>\<open>ErrUnresolved\<close> to \<^verbatim>\<open>ErrBlocked\<close>; each reads as the
  error it unwraps to.  A refused grant carries the invalid refresh token as its parent.\<close>

fun unwraps :: "sentinel \<Rightarrow> sentinel option" where
  "unwraps ErrMissing = Some ErrOutsideRoot"
| "unwraps ErrUnresolved = Some ErrBlocked"
| "unwraps ErrInvalidGrant = Some ErrInvalidRefresh"
| "unwraps _ = None"

fun errors_Is :: "goerror \<Rightarrow> sentinel \<Rightarrow> bool" where
  "errors_Is (Sentinel t) s = (t = s \<or> unwraps t = Some s)"
| "errors_Is (ErrorNew m) s = False"
| "errors_Is (StructureError m) s = False"
| "errors_Is (StrandedError m) s = (s = ErrStranded)"
| "errors_Is (Errorf m e) s = errors_Is e s"
| "errors_Is (ErrorfPrefix e m) s = errors_Is e s"
| "errors_Is (ErrorfBoth e m f) s = (errors_Is e s \<or> errors_Is f s)"
| "errors_Is (Join es) s = list_ex (\<lambda>e. errors_Is e s) es"

text \<open>\<^verbatim>\<open>errors.As(err, &structure)\<close> for a \<^verbatim>\<open>*ingest.StructureError\<close>.\<close>

fun errors_As_structure :: "goerror \<Rightarrow> bool" where
  "errors_As_structure (Sentinel t) = False"
| "errors_As_structure (ErrorNew m) = False"
| "errors_As_structure (StructureError m) = True"
| "errors_As_structure (StrandedError m) = False"
| "errors_As_structure (Errorf m e) = errors_As_structure e"
| "errors_As_structure (ErrorfPrefix e m) = errors_As_structure e"
| "errors_As_structure (ErrorfBoth e m f) = (errors_As_structure e \<or> errors_As_structure f)"
| "errors_As_structure (Join es) = list_ex errors_As_structure es"

definition sentinelText :: "sentinel \<Rightarrow> gostring" where
  "sentinelText s = (case s of
     ErrCancelled \<Rightarrow> lit ''ingest cancelled''
   | ErrUnsupportedFormat \<Rightarrow> lit ''unsupported format''
   | ErrLostClaim \<Rightarrow> lit ''another worker has taken this job over''
   | ErrMissing \<Rightarrow> lit ''path is not inside a configured library root''
   | ErrOutsideRoot \<Rightarrow> lit ''path is not inside a configured library root''
   | ErrBlocked \<Rightarrow> lit ''url is not permitted''
   | ErrUnresolved \<Rightarrow> lit ''url is not permitted''
   | ErrNoRows \<Rightarrow> lit ''sql: no rows in result set''
   | ErrNotFound \<Rightarrow> lit ''no such document''
   | ErrStoreNotFound \<Rightarrow> lit ''not found''
   | ErrNoOwner \<Rightarrow> lit ''no owner: the request reached a handler without passing the middleware that names a user''
   | ErrNotWritable \<Rightarrow> lit ''you cannot add to that library: name one you edit, or leave library out for your own''
   | ErrTooLong \<Rightarrow> lit ''the job ran past the longest a job may run''
   | ErrFetch \<Rightarrow> lit ''fetch failed''
   | ErrContext \<Rightarrow> lit ''context canceled''
   | ErrFault \<Rightarrow> lit ''database failure''
   | ErrSignInRefused \<Rightarrow> lit ''wrong username or password, or the account is locked after too many attempts; try again later or ask whoever runs this server''
   | ErrNoSuchAccount \<Rightarrow> lit ''no account with that username''
   | ErrUsername \<Rightarrow> lit ''use 1 to 64 lower-case letters, digits, '' @ [39, 46, 39, 44, 32, 39, 95, 39] @ lit '' or '' @ [39, 45, 39]
   | ErrStranded \<Rightarrow> lit ''that would leave a shared library without an admin, and no administrator can take over''
   | ErrTaken \<Rightarrow> lit ''an account by that username already exists''
   | ErrBuiltinTaken \<Rightarrow> lit ''the library from before accounts already has an owner''
   | ErrNoAccount \<Rightarrow> lit ''no account for this identity, and sign-up is closed''
   | ErrNotAllowed \<Rightarrow> lit ''the token does not carry the claim this server requires''
   | ErrExpired \<Rightarrow> lit ''this sign-in request has expired; start again from your app''
   | ErrAuthNotFound \<Rightarrow> lit ''not found''
   | ErrInvalidRefresh \<Rightarrow> lit ''invalid_refresh_token''
   | ErrInvalidGrant \<Rightarrow> lit ''invalid_grant''
   | ErrInvalidToken \<Rightarrow> lit ''invalid token''
   | ErrUnchecked \<Rightarrow> lit ''the token could not be checked'')"

text \<open>\<^verbatim>\<open>Error()\<close>: a wrapped error follows its message, joined errors are one to a line.\<close>

fun errorText :: "goerror \<Rightarrow> gostring" where
  "errorText (Sentinel s) = sentinelText s"
| "errorText (ErrorNew m) = m"
| "errorText (StructureError m) = m"
| "errorText (StrandedError m) = m"
| "errorText (Errorf m e) = m @ lit '': '' @ errorText e"
| "errorText (ErrorfPrefix e m) = errorText e @ m"
| "errorText (ErrorfBoth e m f) = errorText e @ m @ errorText f"
| "errorText (Join es) = join [10] (map errorText es)"

lemma errors_Is_Join2 [simp]: "errors_Is (Join [a, b]) s \<longleftrightarrow> errors_Is a s \<or> errors_Is b s"
  by simp

end
