(* ===== verification/Store.thy ===== *)
theory Store
  imports Structure GoErrors
begin

text \<open>
  One library's tables and the statements the repositories run on them: the generated functions of
  \<^verbatim>\<open>internal/pgstore/pgdbgen\<close> (from \<^verbatim>\<open>query/ingest.sql\<close>, \<^verbatim>\<open>worker.sql\<close>, \<^verbatim>\<open>jobs.sql\<close>), the transactions of
  \<^verbatim>\<open>internal/pgsession\<close> and the repository of \<^verbatim>\<open>internal/repository/postgres/postgres.go\<close>.  Row-level
  security confines a transaction to its library, so the model is the rows of one library.  A table is
  a list of rows in storage order; \<^verbatim>\<open>:one\<close> without an \<^verbatim>\<open>ORDER BY\<close> takes the first that matches.  The
  schema's primary and foreign keys are checked by the statements that could violate them.
\<close>

subsection \<open>Rows\<close>

datatype doc_status = Ingesting | Published

record docRow =
  dDocID :: gostring
  dTitle :: gostring
  dFormat :: gostring
  dSourcePath :: gostring
  dSourceKind :: gostring
  dSha256 :: gostring
  dPageCount :: "int option"
  dChunkCount :: "int option"
  dStatus :: doc_status
  dIngestedAt :: "int option"
  dWarnings :: gostring

record chunkRow =
  cDocID :: gostring
  cOrdinal :: int
  cSection :: "gostring option"
  cPageStart :: "int option"
  cPageEnd :: "int option"
  cPrintedPageStart :: "int option"
  cImageCount :: int
  cKind :: gostring
  cURL :: "gostring option"
  cFragment :: "gostring option"
  cHeadingPath :: gostring
  cText :: gostring

datatype job_status = Queued | Running | Done | FailedJob | CancelledJob

record jobRow =
  jID :: int
  jSourcePath :: gostring
  jTitle :: "gostring option"
  jDocID :: "gostring option"
  jStatus :: job_status
  jPhase :: "gostring option"
  jProgressCur :: "int option"
  jProgressTot :: "int option"
  jAttempts :: int
  jPermanent :: bool
  jCancelReq :: bool
  jError :: "gostring option"
  jWarnings :: gostring
  jLeaseUntil :: "int option"
  jCreatedAt :: int
  jUpdatedAt :: int
  jForce :: bool
  jRequestedBy :: gostring

record db =
  documents :: "docRow list"
  chunks :: "chunkRow list"
  pages :: "(gostring \<times> int \<times> gostring) list"
  index_terms :: "(gostring \<times> gostring \<times> gostring) list"
  jobs :: "jobRow list"
  now :: int  \<comment> \<open>the database's clock, in seconds\<close>

type_synonym 'a tx = "db \<Rightarrow> goerror + 'a \<times> db"

text \<open>A statement after another in one transaction.\<close>

definition tx_bind :: "'a tx \<Rightarrow> ('a \<Rightarrow> 'b tx) \<Rightarrow> 'b tx" where
  "tx_bind m f s = (case m s of Inl e \<Rightarrow> Inl e | Inr (a, s') \<Rightarrow> f a s')"

definition tx_return :: "'a \<Rightarrow> 'a tx" where
  "tx_return a s = Inr (a, s)"

text \<open>\<^verbatim>\<open>fmt.Errorf("...: %w", err)\<close> around what a statement returns.\<close>

definition tx_wrap :: "gostring \<Rightarrow> 'a tx \<Rightarrow> 'a tx" where
  "tx_wrap msg m s = (case m s of Inl e \<Rightarrow> Inl (Errorf msg e) | Inr r \<Rightarrow> Inr r)"

fun tx_each :: "('a \<Rightarrow> unit tx) \<Rightarrow> 'a list \<Rightarrow> unit tx" where
  "tx_each f [] = tx_return ()"
| "tx_each f (x # xs) = tx_bind (f x) (\<lambda>_. tx_each f xs)"

subsection \<open>Values a column takes\<close>

text \<open>An integer column is 32 bits; \<^verbatim>\<open>pgsession.Narrow\<close> clamps to it.  A text column cannot hold NUL.\<close>

definition Narrow :: "int \<Rightarrow> int" where
  "Narrow v = (if v > 2 ^ 31 - 1 then 2 ^ 31 - 1 else if v < - (2 ^ 31) then - (2 ^ 31) else v)"

definition pg_text :: "gostring \<Rightarrow> bool" where
  "pg_text s = (0 \<notin> set s)"

definition pg_text_opt :: "gostring option \<Rightarrow> bool" where
  "pg_text_opt s = (case s of None \<Rightarrow> True | Some t \<Rightarrow> pg_text t)"

definition withoutNUL :: "gostring \<Rightarrow> gostring" where
  "withoutNUL s = (if 0 \<notin> set s then s else replace_all [0] [] s)"

definition invalidText :: goerror where
  "invalidText = ErrorNew (lit ''invalid byte sequence for encoding'')"

definition uniqueViolation :: goerror where
  "uniqueViolation = ErrorNew (lit ''duplicate key value violates unique constraint'')"

definition foreignKeyViolation :: goerror where
  "foreignKeyViolation = ErrorNew (lit ''violates foreign key constraint'')"

definition hasDocument :: "db \<Rightarrow> gostring \<Rightarrow> bool" where
  "hasDocument s docID = (docID \<in> set (map dDocID (documents s)))"

definition referenced :: "db \<Rightarrow> gostring \<Rightarrow> bool" where
  "referenced s docID = (docID \<in> set (map cDocID (chunks s)) \<or> docID \<in> set (map fst (pages s)) \<or>
     docID \<in> set (map fst (index_terms s)))"

subsection \<open>Statements on documents\<close>

definition ReadyDocumentWithDigest :: "gostring \<Rightarrow> docRow tx" where
  "ReadyDocumentWithDigest digest s =
     (case find (\<lambda>d. dSha256 d = digest \<and> dStatus d = Published) (documents s) of
        None \<Rightarrow> Inl (Sentinel ErrNoRows)
      | Some d \<Rightarrow> Inr (d, s))"

definition CountDocumentChunks :: "gostring \<Rightarrow> int tx" where
  "CountDocumentChunks docID s =
     Inr (int (length (filter (\<lambda>c. cDocID c = docID) (chunks s))), s)"

definition DocIDForSourcePath :: "gostring \<Rightarrow> gostring tx" where
  "DocIDForSourcePath path s =
     (case find (\<lambda>d. dSourcePath d = path) (documents s) of
        None \<Rightarrow> Inl (Sentinel ErrNoRows)
      | Some d \<Rightarrow> Inr (dDocID d, s))"

text \<open>SQL's \<^verbatim>\<open>LIKE\<close>: \<^verbatim>\<open>%\<close> matches any text, \<^verbatim>\<open>_\<close> one character, and a backslash the character after it.\<close>

function like :: "gostring \<Rightarrow> gostring \<Rightarrow> bool" where
  "like p s =
     (case p of
        [] \<Rightarrow> s = []
      | c # p' \<Rightarrow>
          if c = 37 then like p' s \<or> (case s of [] \<Rightarrow> False | _ # s' \<Rightarrow> like p s')
          else case s of
            [] \<Rightarrow> False
          | x # s' \<Rightarrow>
              if c = 95 then like p' s'
              else if c = 92 then (case p' of [] \<Rightarrow> False | e # p'' \<Rightarrow> x = e \<and> like p'' s')
              else x = c \<and> like p' s')"
  by pat_completeness auto
termination
  by (relation "measure (\<lambda>(p, s). length p + length s)") auto

declare like.simps [simp del]

definition DocIDsWithPrefixRows :: "gostring \<Rightarrow> gostring list tx" where
  "DocIDsWithPrefixRows pattern s = Inr (filter (like pattern) (map dDocID (documents s)), s)"

definition DocumentStatus :: "gostring \<Rightarrow> doc_status tx" where
  "DocumentStatus docID s =
     (case find (\<lambda>d. dDocID d = docID) (documents s) of
        None \<Rightarrow> Inl (Sentinel ErrNoRows)
      | Some d \<Rightarrow> Inr (dStatus d, s))"

definition InsertDocument :: "docRow \<Rightarrow> unit tx" where
  "InsertDocument row s =
     (if \<not> list_all pg_text [dDocID row, dTitle row, dFormat row, dSourcePath row, dSourceKind row, dSha256 row]
      then Inl invalidText
      else if hasDocument s (dDocID row) then Inl uniqueViolation
      else Inr ((), s\<lparr>documents := documents s @
        [row\<lparr>dChunkCount := None, dStatus := Ingesting, dIngestedAt := None, dWarnings := []\<rparr>]\<rparr>))"

definition InsertChunk :: "chunkRow \<Rightarrow> unit tx" where
  "InsertChunk row s =
     (if \<not> (pg_text_opt (cSection row) \<and> pg_text_opt (cURL row) \<and> pg_text_opt (cFragment row) \<and>
            pg_text (cHeadingPath row) \<and> pg_text (cText row)) then Inl invalidText
      else if \<not> hasDocument s (cDocID row) then Inl foreignKeyViolation
      else Inr ((), s\<lparr>chunks := chunks s @ [row]\<rparr>))"

definition UpsertPage :: "gostring \<Rightarrow> int \<Rightarrow> gostring \<Rightarrow> unit tx" where
  "UpsertPage docID page t s =
     (if \<not> pg_text t then Inl invalidText
      else if \<not> hasDocument s docID then Inl foreignKeyViolation
      else Inr ((), s\<lparr>pages := filter (\<lambda>(d, p, _). \<not> (d = docID \<and> p = page)) (pages s) @ [(docID, page, t)]\<rparr>))"

definition InsertIndexTerm :: "gostring \<Rightarrow> gostring \<Rightarrow> gostring \<Rightarrow> unit tx" where
  "InsertIndexTerm docID term section s =
     (if \<not> (pg_text term \<and> pg_text section) then Inl invalidText
      else if \<not> hasDocument s docID then Inl foreignKeyViolation
      else Inr ((), s\<lparr>index_terms := index_terms s @ [(docID, term, section)]\<rparr>))"

definition MarkDocumentReady :: "int \<Rightarrow> int \<Rightarrow> gostring \<Rightarrow> gostring \<Rightarrow> unit tx" where
  "MarkDocumentReady chunkCount ingestedAt warnings docID s =
     Inr ((), s\<lparr>documents := map (\<lambda>d. if dDocID d = docID
        then d\<lparr>dStatus := Published, dChunkCount := Some chunkCount, dIngestedAt := Some ingestedAt,
               dWarnings := warnings\<rparr> else d) (documents s)\<rparr>)"

definition ConfirmDocument :: "gostring \<Rightarrow> int \<Rightarrow> unit tx" where
  "ConfirmDocument docID ingestedAt s =
     Inr ((), s\<lparr>documents := map (\<lambda>d. if dDocID d = docID then d\<lparr>dIngestedAt := Some ingestedAt\<rparr> else d)
        (documents s)\<rparr>)"

definition DeleteDocumentChunks :: "gostring \<Rightarrow> unit tx" where
  "DeleteDocumentChunks docID s = Inr ((), s\<lparr>chunks := filter (\<lambda>c. cDocID c \<noteq> docID) (chunks s)\<rparr>)"

definition DeleteDocumentPages :: "gostring \<Rightarrow> unit tx" where
  "DeleteDocumentPages docID s = Inr ((), s\<lparr>pages := filter (\<lambda>(d, _). d \<noteq> docID) (pages s)\<rparr>)"

definition DeleteDocumentIndexTerms :: "gostring \<Rightarrow> unit tx" where
  "DeleteDocumentIndexTerms docID s =
     Inr ((), s\<lparr>index_terms := filter (\<lambda>(d, _). d \<noteq> docID) (index_terms s)\<rparr>)"

definition DeleteDocumentRow :: "gostring \<Rightarrow> unit tx" where
  "DeleteDocumentRow docID s =
     (if referenced s docID then Inl foreignKeyViolation
      else Inr ((), s\<lparr>documents := filter (\<lambda>d. dDocID d \<noteq> docID) (documents s)\<rparr>))"

definition DeleteDocumentOnly :: "gostring \<Rightarrow> unit tx" where
  "DeleteDocumentOnly docID s =
     (if referenced s docID then Inl foreignKeyViolation
      else Inr ((), s\<lparr>documents := filter (\<lambda>d. dDocID d \<noteq> docID) (documents s)\<rparr>))"

definition CopyDocumentAs :: "gostring \<Rightarrow> gostring \<Rightarrow> unit tx" where
  "CopyDocumentAs fromID toID s =
     (let copies = map (\<lambda>d. d\<lparr>dDocID := toID\<rparr>) (filter (\<lambda>d. dDocID d = fromID) (documents s))
      in if copies \<noteq> [] \<and> hasDocument s toID then Inl uniqueViolation
         else Inr ((), s\<lparr>documents := documents s @ copies\<rparr>))"

definition MoveChunks :: "gostring \<Rightarrow> gostring \<Rightarrow> unit tx" where
  "MoveChunks fromID toID s =
     (if fromID \<in> set (map cDocID (chunks s)) \<and> \<not> hasDocument s toID then Inl foreignKeyViolation
      else Inr ((), s\<lparr>chunks := map (\<lambda>c. if cDocID c = fromID then c\<lparr>cDocID := toID\<rparr> else c) (chunks s)\<rparr>))"

definition MovePages :: "gostring \<Rightarrow> gostring \<Rightarrow> unit tx" where
  "MovePages fromID toID s =
     (if fromID \<in> set (map fst (pages s)) \<and> \<not> hasDocument s toID then Inl foreignKeyViolation
      else if fromID \<noteq> toID \<and> list_ex (\<lambda>(d, p, _). d = fromID \<and> (toID, p) \<in> set (map (\<lambda>(d, p, _). (d, p)) (pages s))) (pages s)
      then Inl uniqueViolation
      else Inr ((), s\<lparr>pages := map (\<lambda>(d, p, t). (if d = fromID then toID else d, p, t)) (pages s)\<rparr>))"

definition MoveIndexTerms :: "gostring \<Rightarrow> gostring \<Rightarrow> unit tx" where
  "MoveIndexTerms fromID toID s =
     (if fromID \<in> set (map fst (index_terms s)) \<and> \<not> hasDocument s toID then Inl foreignKeyViolation
      else Inr ((), s\<lparr>index_terms := map (\<lambda>(d, t, x). (if d = fromID then toID else d, t, x)) (index_terms s)\<rparr>))"

subsection \<open>Transactions\<close>

text \<open>What a process sees besides the tables: a list that says, for every time it asks the database to
  begin or to commit, whether that fails, and one that says whether the context is cancelled each time
  it is asked.  Past its end a list answers no; a cancelled context stays cancelled.\<close>

record World =
  wDB :: db
  wFaults :: "bool list"
  wCtx :: "bool list"
  wClock :: int
  wLast :: "int option"  \<comment> \<open>when progress was last written\<close>

type_synonym 'a io = "World \<Rightarrow> (goerror + 'a) \<times> World"

definition io_bind :: "'a io \<Rightarrow> ('a \<Rightarrow> 'b io) \<Rightarrow> 'b io" where
  "io_bind m f w = (case m w of (Inl e, w') \<Rightarrow> (Inl e, w') | (Inr a, w') \<Rightarrow> f a w')"

definition io_return :: "'a \<Rightarrow> 'a io" where
  "io_return a w = (Inr a, w)"

definition io_wrap :: "gostring \<Rightarrow> 'a io \<Rightarrow> 'a io" where
  "io_wrap msg m w = (case m w of (Inl e, w') \<Rightarrow> (Inl (Errorf msg e), w') | (Inr a, w') \<Rightarrow> (Inr a, w'))"

definition popFault :: "World \<Rightarrow> bool \<times> World" where
  "popFault w = (case wFaults w of [] \<Rightarrow> (False, w) | f # fs \<Rightarrow> (f, w\<lparr>wFaults := fs\<rparr>))"

definition ctxErr :: "World \<Rightarrow> bool \<times> World" where
  "ctxErr w = (case wCtx w of [] \<Rightarrow> (False, w) | c # cs \<Rightarrow> if c then (True, w) else (False, w\<lparr>wCtx := cs\<rparr>))"

record Scope =
  scUser :: gostring
  scLibrary :: gostring

definition Personal :: "gostring \<Rightarrow> Scope" where
  "Personal user = \<lparr>scUser = user, scLibrary = user\<rparr>"

definition setScope :: "Scope \<Rightarrow> goerror option" where
  "setScope scope =
     (if scUser scope = [] \<or> scLibrary scope = []
      then Some (ErrorNew (lit ''no scope: a statement without a user and a library would match no rows''))
      else None)"

definition Run :: "Scope \<Rightarrow> 'a tx \<Rightarrow> 'a io" where
  "Run scope work w =
     (let (beginFails, w) = popFault w
      in if beginFails then (Inl (Errorf (lit ''begin'') (Sentinel ErrFault)), w)
         else case setScope scope of
           Some e \<Rightarrow> (Inl e, w)
         | None \<Rightarrow>
             (case work (wDB w) of
                Inl e \<Rightarrow> (Inl e, w)
              | Inr (a, s') \<Rightarrow>
                  let (commitFails, w) = popFault w
                  in if commitFails then (Inl (Errorf (lit ''commit'') (Sentinel ErrFault)), w)
                     else (Inr a, w\<lparr>wDB := s'\<rparr>)))"

definition Read :: "Scope \<Rightarrow> 'a tx \<Rightarrow> 'a io" where
  "Read scope statement = Run scope statement"

subsection \<open>The ingest repository\<close>

text \<open>What the service hands over and reads back, from \<^verbatim>\<open>internal/service/ingest\<close>.\<close>

record Document =
  doPageCount :: "int option"
  doDocID :: gostring
  doTitle :: gostring
  doFormat :: gostring
  doIdentity :: gostring
  doDigest :: gostring
  doKind :: SourceKind

record Existing =
  exDocID :: gostring
  exTitle :: gostring
  exIdentity :: gostring
  exChunkCount :: int
  exPipelineVersion :: int

record Ready =
  rdJobID :: "int option"
  rdIngestedAt :: int
  rdDocID :: gostring
  rdReplaces :: gostring
  rdWarnings :: gostring
  rdJobAttempt :: int
  rdChunkCount :: int

definition SourceKind_String :: "SourceKind \<Rightarrow> gostring" where
  "SourceKind_String k = enum_name sourceKindText k"

definition ChunkKind_String :: "ChunkKind \<Rightarrow> gostring" where
  "ChunkKind_String k = enum_name chunkKindText k"

definition nullInt32 :: "int option \<Rightarrow> int option" where
  "nullInt32 v = (case v of None \<Rightarrow> None | Some n \<Rightarrow> Some (Narrow n))"

definition nullStringOf :: "gostring option \<Rightarrow> gostring option" where
  "nullStringOf v = (case v of None \<Rightarrow> None | Some t \<Rightarrow> Some t)"

definition nullString :: "gostring \<Rightarrow> gostring option" where
  "nullString v = (if v = [] then None else Some v)"

definition chunkParams :: "gostring \<Rightarrow> Chunk \<Rightarrow> chunkRow" where
  "chunkParams docID c = \<lparr>cDocID = docID, cOrdinal = Narrow (Ordinal c), cSection = nullStringOf (chkSection c),
     cPageStart = nullInt32 (PageStart c), cPageEnd = nullInt32 (PageEnd c),
     cPrintedPageStart = nullInt32 (PrintedPageStart c), cImageCount = Narrow (chkImageCount c),
     cKind = ChunkKind_String (Kind c), cURL = nullStringOf (chkURL c), cFragment = nullStringOf (chkFragment c),
     cHeadingPath = withoutNUL (chkHeadingPath c), cText = withoutNUL (chkText c)\<rparr>"

definition likeEscape :: "rune \<Rightarrow> gostring" where
  "likeEscape r = (if r = 92 \<or> r = 37 \<or> r = 95 then [92, r] else [r])"

definition likePrefix :: "gostring \<Rightarrow> gostring" where
  "likePrefix pre = concat (map likeEscape pre) @ [37]"

text \<open>The identifier a replacement is written under until it is published.\<close>

definition Staging :: "gostring \<Rightarrow> gostring" where
  "Staging docID = docID @ lit ''~next''"

definition deleteRows :: "gostring \<Rightarrow> unit tx" where
  "deleteRows docID =
     tx_bind (tx_wrap (lit ''delete the chunks of '' @ docID) (DeleteDocumentChunks docID)) (\<lambda>_.
     tx_bind (tx_wrap (lit ''delete the pages of '' @ docID) (DeleteDocumentPages docID)) (\<lambda>_.
     tx_bind (tx_wrap (lit ''delete the index terms of '' @ docID) (DeleteDocumentIndexTerms docID)) (\<lambda>_.
     tx_wrap (lit ''delete '' @ docID) (DeleteDocumentRow docID))))"

definition Confirm :: "Scope \<Rightarrow> gostring \<Rightarrow> int \<Rightarrow> unit io" where
  "Confirm scope docID when = Run scope (ConfirmDocument docID when)"

definition ReadyWithDigest ::
  "(gostring \<Rightarrow> int option) \<Rightarrow> Scope \<Rightarrow> gostring \<Rightarrow> Existing option io" where
  "ReadyWithDigest unmarshal scope digest w =
     (case Read scope (ReadyDocumentWithDigest digest) w of
        (Inl e, w) \<Rightarrow>
          if errors_Is e ErrNoRows then (Inr None, w)
          else (Inl (Errorf (lit ''read the document with hash '' @ digest) e), w)
      | (Inr row, w) \<Rightarrow>
          (case Read scope (CountDocumentChunks (dDocID row)) w of
             (Inl e, w) \<Rightarrow> (Inl (Errorf (lit ''count the chunks of '' @ dDocID row) e), w)
           | (Inr n, w) \<Rightarrow>
               (Inr (Some \<lparr>exDocID = dDocID row, exTitle = dTitle row, exIdentity = dSourcePath row,
                  exChunkCount = n, exPipelineVersion = StoredPipelineVersion unmarshal (dWarnings row)\<rparr>), w)))"

definition DocIDForIdentity :: "Scope \<Rightarrow> gostring \<Rightarrow> gostring io" where
  "DocIDForIdentity scope identity w =
     (case Read scope (DocIDForSourcePath identity) w of
        (Inl e, w) \<Rightarrow>
          if errors_Is e ErrNoRows then (Inr [], w)
          else (Inl (Errorf (lit ''read the document at '' @ identity) e), w)
      | (Inr docID, w) \<Rightarrow> (Inr docID, w))"

text \<open>\<^verbatim>\<open>%q\<close> of a text with nothing but quotes and backslashes to escape.\<close>

definition goQuote :: "gostring \<Rightarrow> gostring" where
  "goQuote s = 34 # concat (map (\<lambda>r. if r = 34 \<or> r = 92 then [92, r] else [r]) s) @ [34]"

definition DocIDsWithPrefix :: "Scope \<Rightarrow> gostring \<Rightarrow> gostring list io" where
  "DocIDsWithPrefix scope pre =
     io_wrap (lit ''read identifiers beginning '' @ goQuote pre) (Read scope (DocIDsWithPrefixRows (likePrefix pre)))"

definition documentRow :: "Document \<Rightarrow> docRow" where
  "documentRow doc = \<lparr>dDocID = doDocID doc, dTitle = doTitle doc, dFormat = doFormat doc,
     dSourcePath = doIdentity doc, dSourceKind = SourceKind_String (doKind doc), dSha256 = doDigest doc,
     dPageCount = nullInt32 (doPageCount doc), dChunkCount = None, dStatus = Ingesting,
     dIngestedAt = None, dWarnings = []\<rparr>"

definition Create :: "Scope \<Rightarrow> Document \<Rightarrow> gostring \<Rightarrow> unit io" where
  "Create scope doc stale =
     Run scope (tx_bind (if stale \<noteq> [] then deleteRows stale else tx_return ())
       (\<lambda>_. InsertDocument (documentRow doc)))"

definition AddChunks :: "Scope \<Rightarrow> gostring \<Rightarrow> Chunk list \<Rightarrow> unit io" where
  "AddChunks scope docID cs =
     Run scope (tx_each (\<lambda>c. tx_wrap (lit ''write chunk '' @ show_int (Ordinal c))
       (InsertChunk (chunkParams docID c))) cs)"

text \<open>A page map's keys are visited in ascending order.\<close>

definition writePages :: "gostring \<Rightarrow> (int \<times> gostring) list \<Rightarrow> unit tx" where
  "writePages docID ps =
     tx_each (\<lambda>page. tx_wrap (lit ''write page '' @ show_int page)
       (UpsertPage docID (Narrow page) (the (map_of ps page)))) (sort (remdups (map fst ps)))"

definition writeTerms :: "gostring \<Rightarrow> (gostring \<times> gostring) list \<Rightarrow> unit tx" where
  "writeTerms docID terms =
     tx_each (\<lambda>(term, section). tx_wrap (lit ''write index term '' @ goQuote term)
       (InsertIndexTerm docID term section)) terms"

definition AddPagesAndTerms ::
  "Scope \<Rightarrow> gostring \<Rightarrow> (int \<times> gostring) list \<Rightarrow> (gostring \<times> gostring) list \<Rightarrow> unit io" where
  "AddPagesAndTerms scope docID ps terms =
     (if ps = [] \<and> terms = [] then io_return ()
      else Run scope (tx_bind (writePages docID ps) (\<lambda>_. writeTerms docID terms)))"

definition promote :: "gostring \<Rightarrow> gostring \<Rightarrow> unit tx" where
  "promote from to =
     tx_bind (tx_wrap (lit ''retire the old '' @ to) (deleteRows to)) (\<lambda>_.
     tx_bind (tx_wrap (lit ''promote '' @ from @ lit '': copy the document row'') (CopyDocumentAs from to)) (\<lambda>_.
     tx_bind (tx_wrap (lit ''promote '' @ from @ lit '': move chunks'') (MoveChunks from to)) (\<lambda>_.
     tx_bind (tx_wrap (lit ''promote '' @ from @ lit '': move pages'') (MovePages from to)) (\<lambda>_.
     tx_bind (tx_wrap (lit ''promote '' @ from @ lit '': move index terms'') (MoveIndexTerms from to)) (\<lambda>_.
     tx_wrap (lit ''promote '' @ from @ lit '': drop the staging row'') (DeleteDocumentOnly from))))))"

definition swapIn :: "Ready \<Rightarrow> gostring tx" where
  "swapIn ready =
     (if rdReplaces ready = [] then tx_return (rdDocID ready)
      else tx_bind (promote (rdDocID ready) (rdReplaces ready)) (\<lambda>_. tx_return (rdReplaces ready)))"

definition fenced :: "int tx \<Rightarrow> unit tx" where
  "fenced m = tx_bind m (\<lambda>rows. if rows = 0 then (\<lambda>_. Inl (Sentinel ErrLostClaim)) else tx_return ())"

text \<open>A worker's write to its job matches the row only while it runs under the attempt claimed.\<close>

definition fence :: "int \<Rightarrow> int \<Rightarrow> jobRow \<Rightarrow> bool" where
  "fence jid attempt j = (jID j = jid \<and> jAttempts j = attempt \<and> jStatus j = Running)"

definition updateJobs :: "(jobRow \<Rightarrow> bool) \<Rightarrow> (jobRow \<Rightarrow> jobRow) \<Rightarrow> int tx" where
  "updateJobs P f s =
     Inr (int (length (filter P (jobs s))), s\<lparr>jobs := map (\<lambda>j. if P j then f j else j) (jobs s)\<rparr>)"

definition CompleteJob :: "gostring option \<Rightarrow> gostring \<Rightarrow> int \<Rightarrow> int \<Rightarrow> int tx" where
  "CompleteJob docID warnings jid attempt s =
     updateJobs (fence jid attempt) (\<lambda>j. j\<lparr>jStatus := Done, jPhase := None, jDocID := docID, jError := None,
       jWarnings := warnings, jLeaseUntil := None, jUpdatedAt := now s\<rparr>) s"

definition MarkReady :: "Scope \<Rightarrow> Ready \<Rightarrow> unit io" where
  "MarkReady scope ready =
     Run scope (tx_bind (swapIn ready) (\<lambda>published.
       tx_bind (tx_wrap (lit ''publish '' @ published)
         (MarkDocumentReady (Narrow (rdChunkCount ready)) (rdIngestedAt ready) (rdWarnings ready) published)) (\<lambda>_.
       case rdJobID ready of
         None \<Rightarrow> tx_return ()
       | Some jid \<Rightarrow> fenced (CompleteJob (nullString published) (rdWarnings ready) jid
           (Narrow (rdJobAttempt ready))))))"

definition DeleteDoc :: "Scope \<Rightarrow> gostring \<Rightarrow> unit io" where
  "DeleteDoc scope docID = Run scope (deleteRows docID)"

end
