(* ===== verification/Ingest.thy ===== *)
theory Ingest
  imports Store Chunking
begin

text \<open>
  \<^verbatim>\<open>internal/service/ingest\<close>: the one ingest path, from a source to a published document.  A \<^verbatim>\<open>Source\<close> is its
  answers and its two effectful calls; the progress and identifier callbacks are functions on the
  world.  Unicode normalisation (\<^verbatim>\<open>golang.org/x/text\<close>) and the JSON codec are fields of \<open>Codecs\<close>.
\<close>

record Codecs =
  cdUnicode :: unicode
  cdStripMarks :: "gostring \<Rightarrow> goerror + gostring"
  cdMarshal :: "(string \<times> any) list \<Rightarrow> gostring"
  cdVersion :: "gostring \<Rightarrow> int option"

subsection \<open>docid.go\<close>

definition slugRune :: "rune \<Rightarrow> bool" where
  "slugRune r = ((97 \<le> r \<and> r \<le> 122) \<or> (48 \<le> r \<and> r \<le> 57))"

definition Slugify :: "Codecs \<Rightarrow> gostring \<Rightarrow> gostring" where
  "Slugify C title =
     (let folded = (case cdStripMarks C title of Inl _ \<Rightarrow> title | Inr t \<Rightarrow> t);
          ascii = filter (\<lambda>r. r < 128) (map (uToLower (cdUnicode C)) folded);
          slug = trim_func (\<lambda>r. r = 45) (replace_runs (\<lambda>r. \<not> slugRune r) [45] ascii)
      in if slug = [] then lit ''document'' else slug)"

definition numbered :: "gostring \<Rightarrow> nat \<Rightarrow> gostring" where
  "numbered base n = base @ 45 # show_nat n"

text \<open>The loop of \<^verbatim>\<open>nextFree\<close> passes over names that are taken; the set of those it still has to pass
  over shrinks at every step, so it ends.\<close>

definition takenFrom :: "gostring \<Rightarrow> gostring list \<Rightarrow> nat \<Rightarrow> nat set" where
  "takenFrom base taken n = {m. n \<le> m \<and> numbered base m \<in> set taken}"

lemma numbered_inj: "numbered base m = numbered base n \<longleftrightarrow> m = n"
  using show_nat_inj by (auto simp: numbered_def)

lemma finite_takenFrom: "finite (takenFrom base taken n)"
proof (rule finite_imageD)
  show "finite (numbered base ` takenFrom base taken n)"
    by (rule finite_subset[of _ "set taken"]) (auto simp: takenFrom_def)
  show "inj_on (numbered base) (takenFrom base taken n)" by (simp add: inj_on_def numbered_inj)
qed

function nextFreeFrom :: "gostring \<Rightarrow> gostring list \<Rightarrow> nat \<Rightarrow> gostring" where
  "nextFreeFrom base taken n =
     (if numbered base n \<notin> set taken then numbered base n else nextFreeFrom base taken (Suc n))"
  by pat_completeness auto
termination
proof (relation "measure (\<lambda>(base, taken, n). card (takenFrom base taken n))")
  fix base :: gostring and taken n
  assume "\<not> numbered base n \<notin> set taken"
  then have "n \<in> takenFrom base taken n" "n \<notin> takenFrom base taken (Suc n)"
    by (simp_all add: takenFrom_def)
  moreover have "takenFrom base taken (Suc n) \<subseteq> takenFrom base taken n"
    by (auto simp: takenFrom_def)
  ultimately have "takenFrom base taken (Suc n) \<subset> takenFrom base taken n" by blast
  then show "((base, taken, Suc n), base, taken, n) \<in> measure (\<lambda>(base, taken, n). card (takenFrom base taken n))"
    by (simp add: psubset_card_mono finite_takenFrom)
qed simp

declare nextFreeFrom.simps [simp del]

definition nextFree :: "gostring \<Rightarrow> gostring list \<Rightarrow> gostring" where
  "nextFree base taken = (if base \<notin> set taken then base else nextFreeFrom base taken 2)"

subsection \<open>Phases and outcomes\<close>

datatype Phase = PhaseDiscover | PhaseFetch | PhaseExtract | PhaseChunk | PhaseIndex

definition Phase_String :: "Phase \<Rightarrow> gostring" where
  "Phase_String p = (case p of PhaseDiscover \<Rightarrow> lit ''discover'' | PhaseFetch \<Rightarrow> lit ''fetch''
     | PhaseExtract \<Rightarrow> lit ''extract'' | PhaseChunk \<Rightarrow> lit ''chunk'' | PhaseIndex \<Rightarrow> lit ''index'')"

datatype IngestOutcome = Ingested | Replaced | Unchanged

definition Outcome_String :: "IngestOutcome \<Rightarrow> gostring" where
  "Outcome_String o' = (case o' of Ingested \<Rightarrow> lit ''ingested'' | Replaced \<Rightarrow> lit ''replaced''
     | Unchanged \<Rightarrow> lit ''unchanged'')"

record Source =
  srcKind :: SourceKind
  srcIdentity :: gostring
  srcDigest :: gostring
  srcAcquire :: "unit io"
  srcExtract :: "Extraction io"

record Options =
  optProgress :: "Phase \<Rightarrow> int \<Rightarrow> int \<Rightarrow> World \<Rightarrow> World"
  optOnDocID :: "gostring \<Rightarrow> World \<Rightarrow> World"
  optJobID :: "int option"
  optTitle :: gostring
  optJobAttempt :: int
  optForce :: bool

record IngestResult =
  resReport :: "StructureReport option"
  resDiagnostics :: "(string \<times> any) list"
  resDocID :: gostring
  resTitle :: gostring
  resNote :: gostring
  resChunkCount :: int
  resOutcome :: IngestOutcome

definition chunkBatch :: nat where "chunkBatch = 200"

subsection \<open>The service\<close>

fun firstNonEmpty :: "gostring list \<Rightarrow> gostring" where
  "firstNonEmpty [] = []"
| "firstNonEmpty (v # vs) = (if v \<noteq> [] then v else firstNonEmpty vs)"

definition cancellation :: "goerror \<Rightarrow> World \<Rightarrow> goerror \<times> World" where
  "cancellation err w =
     (let (cancelled, w) = ctxErr w in if cancelled then (Sentinel ErrCancelled, w) else (err, w))"

definition noChunksMessage :: "gostring \<Rightarrow> StructureReport \<Rightarrow> gostring" where
  "noChunksMessage identity report =
     identity @ lit '': extraction produced no chunks. Structure source was '' @ 39
     # StructureSource_String (repStructureSource report) @ 39 # lit '' and ''
     @ show_int (BodySections report)
     @ lit '' section heading(s) were found, but no body text survived. The document was not indexed.''"

definition outcomeOf :: "gostring \<Rightarrow> IngestOutcome" where
  "outcomeOf replacing = (if replacing \<noteq> [] then Replaced else Ingested)"

definition skips :: "Existing option \<Rightarrow> Options \<Rightarrow> bool" where
  "skips held opts = (case held of None \<Rightarrow> False
     | Some h \<Rightarrow> \<not> optForce opts \<and> PipelineVersion \<le> exPipelineVersion h)"

definition rereadNote :: "Existing option \<Rightarrow> Options \<Rightarrow> gostring" where
  "rereadNote held opts = (case held of None \<Rightarrow> []
     | Some h \<Rightarrow> if optForce opts then []
         else lit ''content hash already ingested as '' @ 39 # exDocID h @ 39
           # lit '', but by pipeline version '' @ show_int (exPipelineVersion h)
           @ lit ''; read again by version '' @ show_int PipelineVersion)"

definition unchanged :: "Existing \<Rightarrow> IngestResult" where
  "unchanged same = \<lparr>resReport = None, resDiagnostics = [], resDocID = exDocID same,
     resTitle = exTitle same,
     resNote = lit ''content hash already ingested as '' @ 39 # exDocID same @ 39 # lit ''; nothing to do'',
     resChunkCount = exChunkCount same, resOutcome = Unchanged\<rparr>"

definition alreadyHeld :: "Scope \<Rightarrow> Existing \<Rightarrow> IngestResult io" where
  "alreadyHeld scope same w =
     (case Confirm scope (exDocID same) (wClock w) w of
        (Inl e, w) \<Rightarrow> (Inl (Errorf (lit ''confirm '' @ exDocID same) e), w)
      | (Inr _, w) \<Rightarrow> (Inr (unchanged same), w))"

record destination =
  dsIdentity :: gostring
  dsTitle :: gostring
  dsReplacing :: gostring

definition destinationOf :: "Scope \<Rightarrow> Source \<Rightarrow> Existing option \<Rightarrow> destination io" where
  "destinationOf scope src held w =
     (case held of
        Some h \<Rightarrow> (Inr \<lparr>dsIdentity = exIdentity h, dsTitle = exTitle h, dsReplacing = exDocID h\<rparr>, w)
      | None \<Rightarrow>
          (case DocIDForIdentity scope (srcIdentity src) w of
             (Inl e, w) \<Rightarrow> (Inl (Errorf (lit ''look up '' @ srcIdentity src) e), w)
           | (Inr replacing, w) \<Rightarrow>
               (Inr \<lparr>dsIdentity = srcIdentity src, dsTitle = [], dsReplacing = replacing\<rparr>, w)))"

definition uniqueDocID :: "Codecs \<Rightarrow> Scope \<Rightarrow> gostring \<Rightarrow> gostring \<Rightarrow> gostring io" where
  "uniqueDocID C scope title replacing w =
     (if replacing \<noteq> [] then (Inr replacing, w)
      else
        let base = Slugify C title
        in case DocIDsWithPrefix scope base w of
             (Inl e, w) \<Rightarrow> (Inl (Errorf (lit ''look up identifiers beginning '' @ goQuote base) e), w)
           | (Inr taken, w) \<Rightarrow> (Inr (nextFree base taken), w))"

record prepared =
  prExtraction :: Extraction
  prReport :: StructureReport
  prChunks :: "Chunk list"
  prReplacing :: gostring
  prDoc :: Document

definition prepare :: "Codecs \<Rightarrow> Scope \<Rightarrow> Source \<Rightarrow> Options \<Rightarrow> destination \<Rightarrow> prepared io" where
  "prepare C scope src opts dest w =
     (case srcExtract src w of
        (Inl e, w) \<Rightarrow> (let (e', w) = cancellation e w in (Inl e', w))
      | (Inr extraction, w) \<Rightarrow>
         (let (cancelled, w) = ctxErr w
          in if cancelled then (Inl (Sentinel ErrCancelled), w)
             else
               let report = NewStructureReport (Diagnostics extraction)
               in if Fatal report then (Inl (StructureError (FailureMessage report)), w)
                  else
                    let title = Strip (firstNonEmpty [optTitle opts, dsTitle dest, extTitle extraction, dsIdentity dest])
                    in case uniqueDocID C scope title (dsReplacing dest) w of
                         (Inl e, w) \<Rightarrow> (Inl e, w)
                       | (Inr docID, w) \<Rightarrow>
                           let w = optProgress opts PhaseChunk 0 1 w
                           in case Chunks (cdUnicode C) extraction of
                                None \<Rightarrow> (Inl (ErrorNew (lit ''panic'')), w)
                              | Some cs \<Rightarrow>
                                  if length cs = 0 then (Inl (StructureError (noChunksMessage (dsIdentity dest) report)), w)
                                  else (Inr \<lparr>prExtraction = extraction,
                                     prReport = MeasureChunks (cdUnicode C) cs report, prChunks = cs,
                                     prReplacing = dsReplacing dest,
                                     prDoc = \<lparr>doPageCount = extPageCount extraction, doDocID = docID, doTitle = title,
                                       doFormat = extFormat extraction, doIdentity = dsIdentity dest,
                                       doDigest = srcDigest src, doKind = srcKind src\<rparr>\<rparr>, w)))"

text \<open>The batch loop of \<^verbatim>\<open>fill\<close>, from chunk \<open>start\<close> on.\<close>

function fillBatches :: "Scope \<Rightarrow> Options \<Rightarrow> gostring \<Rightarrow> Chunk list \<Rightarrow> nat \<Rightarrow> unit io" where
  "fillBatches scope opts writeID cs start w =
     (if length cs \<le> start then (Inr (), w)
      else
        let (cancelled, w) = ctxErr w
        in if cancelled then (Inl (Sentinel ErrCancelled), w)
           else
             let end' = min (start + chunkBatch) (length cs)
             in case AddChunks scope writeID (take (end' - start) (drop start cs)) w of
                  (Inl e, w) \<Rightarrow> (Inl (Errorf (lit ''write chunks '' @ show_nat start @ lit '' to '' @ show_nat end') e), w)
                | (Inr _, w) \<Rightarrow>
                    fillBatches scope opts writeID cs (start + chunkBatch)
                      (optProgress opts PhaseIndex (int end') (int (length cs)) w))"
  by pat_completeness auto
termination
  by (relation "measure (\<lambda>(scope, opts, writeID, cs, start, w). length cs - start)") (auto simp: chunkBatch_def)

declare fillBatches.simps [simp del]

definition fill :: "Codecs \<Rightarrow> Scope \<Rightarrow> prepared \<Rightarrow> gostring \<Rightarrow> Options \<Rightarrow> unit io" where
  "fill C scope p writeID opts w =
     (case fillBatches scope opts writeID (prChunks p) 0 w of
        (Inl e, w) \<Rightarrow> (Inl e, w)
      | (Inr _, w) \<Rightarrow>
         (case AddPagesAndTerms scope writeID (Pages (prExtraction p)) (IndexTerms (prExtraction p)) w of
            (Inl e, w) \<Rightarrow> (Inl (Errorf (lit ''write pages and index terms'') e), w)
          | (Inr _, w) \<Rightarrow>
             (case report_JSON (cdUnicode C) (prReport p) of
                Inl _ \<Rightarrow> (Inl (ErrorNew (lit ''encode the structure report'')), w)
              | Inr payload \<Rightarrow>
                 (case MarkReady scope \<lparr>rdJobID = optJobID opts, rdIngestedAt = wClock w,
                         rdDocID = writeID, rdReplaces = prReplacing p, rdWarnings = cdMarshal C payload,
                         rdJobAttempt = optJobAttempt opts, rdChunkCount = int (length (prChunks p))\<rparr> w of
                    (Inl e, w) \<Rightarrow> (Inl (Errorf (lit ''publish '' @ doDocID (prDoc p)) e), w)
                  | (Inr _, w) \<Rightarrow> (Inr (), w)))))"

definition stagedID :: "prepared \<Rightarrow> gostring" where
  "stagedID p = (if prReplacing p \<noteq> [] then Staging (doDocID (prDoc p)) else doDocID (prDoc p))"

definition writeDoc :: "Codecs \<Rightarrow> Scope \<Rightarrow> prepared \<Rightarrow> Options \<Rightarrow> unit io" where
  "writeDoc C scope p opts w =
     (let staged = (prDoc p)\<lparr>doDocID := stagedID p\<rparr>;
          stale = (if prReplacing p \<noteq> [] then doDocID staged else [])
      in case Create scope staged stale w of
           (Inl e, w) \<Rightarrow> (Inl (Errorf (lit ''create '' @ doDocID staged) e), w)
         | (Inr _, w) \<Rightarrow>
            (case fill C scope p (doDocID staged) opts w of
               (Inl e, w) \<Rightarrow>
                 (case DeleteDoc scope (doDocID staged) w of
                    (Inl delErr, w) \<Rightarrow> (Inl (Join [e, Errorf (lit ''clean up '' @ doDocID staged) delErr]), w)
                  | (Inr _, w) \<Rightarrow> (Inl e, w))
             | (Inr _, w) \<Rightarrow> (Inr (), w)))"

definition ingest_Run :: "Codecs \<Rightarrow> Scope \<Rightarrow> Source \<Rightarrow> Options \<Rightarrow> IngestResult io" where
  "ingest_Run C scope src opts w =
     (case srcAcquire src w of
        (Inl e, w) \<Rightarrow> (let (e', w) = cancellation e w in (Inl e', w))
      | (Inr _, w) \<Rightarrow>
         (let (cancelled, w) = ctxErr w
          in if cancelled then (Inl (Sentinel ErrCancelled), w)
             else case ReadyWithDigest (cdVersion C) scope (srcDigest src) w of
               (Inl e, w) \<Rightarrow> (Inl (Errorf (lit ''look up content hash'') e), w)
             | (Inr held, w) \<Rightarrow>
                 if skips held opts then alreadyHeld scope (the held) w
                 else case destinationOf scope src held w of
                   (Inl e, w) \<Rightarrow> (Inl e, w)
                 | (Inr dest, w) \<Rightarrow>
                    (case prepare C scope src opts dest w of
                       (Inl e, w) \<Rightarrow> (Inl e, w)
                     | (Inr p, w) \<Rightarrow>
                         let w = optOnDocID opts (doDocID (prDoc p)) w
                         in case writeDoc C scope p opts w of
                              (Inl e, w) \<Rightarrow> (Inl e, w)
                            | (Inr _, w) \<Rightarrow>
                                (Inr \<lparr>resReport = Some (prReport p), resDiagnostics = Diagnostics (prExtraction p),
                                   resDocID = doDocID (prDoc p), resTitle = doTitle (prDoc p),
                                   resNote = rereadNote held opts, resChunkCount = int (length (prChunks p)),
                                   resOutcome = outcomeOf (dsReplacing dest)\<rparr>, w))))"

end
