(* ===== verification/JobStore.thy ===== *)
theory JobStore
  imports Store
begin

text \<open>
  \<^verbatim>\<open>internal/repository/postgres/jobs.go\<close>: the ingest queue.  A handle remembers the job it last claimed
  and the attempt it claimed it as, and every write it makes to the job is fenced by that attempt.
\<close>

subsection \<open>Statements\<close>

text \<open>\<^verbatim>\<open>lease_until < now()\<close>, which a NULL lease does not satisfy.\<close>

definition expired :: "int \<Rightarrow> jobRow \<Rightarrow> bool" where
  "expired t j = (case jLeaseUntil j of None \<Rightarrow> False | Some u \<Rightarrow> u < t)"

definition claimable :: "gostring \<Rightarrow> int \<Rightarrow> int \<Rightarrow> jobRow \<Rightarrow> bool" where
  "claimable user maxAttempts t j = (\<not> jCancelReq j \<and> jRequestedBy j = user \<and> jAttempts j < maxAttempts \<and>
     (jStatus j = Queued \<or> (jStatus j = Running \<and> expired t j)))"

definition queue_before :: "jobRow \<Rightarrow> jobRow \<Rightarrow> bool" where
  "queue_before a b = (jCreatedAt a < jCreatedAt b \<or> (jCreatedAt a = jCreatedAt b \<and> jID a \<le> jID b))"

text \<open>\<^verbatim>\<open>ORDER BY created_at, id LIMIT 1\<close>.\<close>

fun firstInQueue :: "jobRow list \<Rightarrow> jobRow option" where
  "firstInQueue [] = None"
| "firstInQueue (j # js) =
     (case firstInQueue js of
        None \<Rightarrow> Some j
      | Some k \<Rightarrow> Some (if queue_before j k then j else k))"

definition claimed :: "int \<Rightarrow> int \<Rightarrow> jobRow \<Rightarrow> jobRow" where
  "claimed lease t j = j\<lparr>jStatus := Running, jAttempts := jAttempts j + 1, jPhase := None,
     jProgressCur := None, jProgressTot := None, jError := None, jLeaseUntil := Some (t + lease),
     jUpdatedAt := t\<rparr>"

definition ClaimJob :: "gostring \<Rightarrow> int \<Rightarrow> int \<Rightarrow> jobRow tx" where
  "ClaimJob user lease maxAttempts s =
     (case firstInQueue (filter (claimable user maxAttempts (now s)) (jobs s)) of
        None \<Rightarrow> Inl (Sentinel ErrNoRows)
      | Some next \<Rightarrow>
          Inr (claimed lease (now s) next,
            s\<lparr>jobs := map (\<lambda>j. if jID j = jID next then claimed lease (now s) j else j) (jobs s)\<rparr>))"

definition stranded :: "int \<Rightarrow> int \<Rightarrow> jobRow \<Rightarrow> bool" where
  "stranded maxAttempts t j = (jStatus j = Running \<and> expired t j \<and>
     (jCancelReq j \<or> maxAttempts \<le> jAttempts j))"

definition cancelText :: gostring where
  "cancelText = lit ''cancelled at operator request''"

definition SweepStrandedJobs :: "int \<Rightarrow> int list tx" where
  "SweepStrandedJobs maxAttempts s =
     Inr (map jID (filter (stranded maxAttempts (now s)) (jobs s)),
       s\<lparr>jobs := map (\<lambda>j. if stranded maxAttempts (now s) j
         then j\<lparr>jStatus := (if jCancelReq j then CancelledJob else FailedJob),
                jError := Some (if jCancelReq j then cancelText
                                else lit ''the worker running it stopped on its last attempt''),
                jPhase := None, jLeaseUntil := None, jUpdatedAt := now s\<rparr> else j) (jobs s)\<rparr>)"

definition RecordJobProgress :: "gostring option \<Rightarrow> int \<Rightarrow> int \<Rightarrow> int \<Rightarrow> int \<Rightarrow> int \<Rightarrow> int tx" where
  "RecordJobProgress phase cur tot lease jid attempt s =
     updateJobs (fence jid attempt) (\<lambda>j. j\<lparr>jPhase := phase, jProgressCur := Some cur,
       jProgressTot := Some tot, jLeaseUntil := Some (now s + lease), jUpdatedAt := now s\<rparr>) s"

definition RenewJobLease :: "int \<Rightarrow> int \<Rightarrow> int \<Rightarrow> int tx" where
  "RenewJobLease lease jid attempt s =
     updateJobs (fence jid attempt) (\<lambda>j. j\<lparr>jLeaseUntil := Some (now s + lease)\<rparr>) s"

definition RecordJobDocID :: "gostring option \<Rightarrow> int \<Rightarrow> int \<Rightarrow> int tx" where
  "RecordJobDocID docID jid attempt s =
     updateJobs (fence jid attempt) (\<lambda>j. j\<lparr>jDocID := docID, jUpdatedAt := now s\<rparr>) s"

definition CancelJob :: "int \<Rightarrow> int \<Rightarrow> int tx" where
  "CancelJob jid attempt s =
     updateJobs (fence jid attempt) (\<lambda>j. j\<lparr>jStatus := CancelledJob, jPhase := None, jLeaseUntil := None,
       jError := Some cancelText, jUpdatedAt := now s\<rparr>) s"

definition FinishJob :: "job_status \<Rightarrow> gostring option \<Rightarrow> bool \<Rightarrow> int \<Rightarrow> int \<Rightarrow> int tx" where
  "FinishJob status err permanent jid attempt s =
     updateJobs (fence jid attempt) (\<lambda>j. j\<lparr>jStatus := status, jPhase := None, jError := err,
       jPermanent := permanent, jLeaseUntil := None, jUpdatedAt := now s\<rparr>) s"

definition CompleteJobWithoutDocument :: "gostring option \<Rightarrow> int \<Rightarrow> int \<Rightarrow> int tx" where
  "CompleteJobWithoutDocument docID jid attempt s =
     updateJobs (fence jid attempt) (\<lambda>j. j\<lparr>jStatus := Done, jPhase := None, jDocID := docID,
       jError := None, jLeaseUntil := None, jUpdatedAt := now s\<rparr>) s"

definition jobWithID :: "int \<Rightarrow> jobRow tx" where
  "jobWithID jid s =
     (case find (\<lambda>j. jID j = jid) (jobs s) of None \<Rightarrow> Inl (Sentinel ErrNoRows) | Some j \<Rightarrow> Inr (j, s))"

definition JobCancelRequested :: "int \<Rightarrow> bool tx" where
  "JobCancelRequested jid = tx_bind (jobWithID jid) (\<lambda>j. tx_return (jCancelReq j))"

definition JobDocID :: "int \<Rightarrow> gostring option tx" where
  "JobDocID jid = tx_bind (jobWithID jid) (\<lambda>j. tx_return (jDocID j))"

definition JobStatusOf :: "int \<Rightarrow> job_status tx" where
  "JobStatusOf jid = tx_bind (jobWithID jid) (\<lambda>j. tx_return (jStatus j))"

definition JobByID :: "int \<Rightarrow> jobRow tx" where
  "JobByID jid = jobWithID jid"

definition RequestJobCancel :: "int \<Rightarrow> int tx" where
  "RequestJobCancel jid s =
     updateJobs (\<lambda>j. jID j = jid \<and> (jStatus j = Queued \<or> jStatus j = Running))
       (\<lambda>j. j\<lparr>jStatus := (if jStatus j = Queued then CancelledJob else jStatus j),
              jError := (if jStatus j = Queued then Some cancelText else jError j),
              jCancelReq := (jStatus j = Running), jUpdatedAt := now s\<rparr>) s"

text \<open>The identity column of \<^verbatim>\<open>ingest_jobs\<close> gives a number above every one it has given.\<close>

definition nextJobID :: "db \<Rightarrow> int" where
  "nextJobID s = fold (\<lambda>j m. max m (jID j)) (jobs s) 0 + 1"

definition EnqueueJob :: "gostring \<Rightarrow> gostring \<Rightarrow> gostring option \<Rightarrow> bool \<Rightarrow> int tx" where
  "EnqueueJob user source title force s =
     (if \<not> (pg_text source \<and> pg_text_opt title) then Inl invalidText
      else Inr (nextJobID s, s\<lparr>jobs := jobs s @ [\<lparr>jID = nextJobID s, jSourcePath = source, jTitle = title,
        jDocID = None, jStatus = Queued, jPhase = None, jProgressCur = None, jProgressTot = None,
        jAttempts = 0, jPermanent = False, jCancelReq = False, jError = None, jWarnings = [],
        jLeaseUntil = None, jCreatedAt = now s, jUpdatedAt = now s, jForce = force,
        jRequestedBy = user\<rparr>]\<rparr>))"

definition active :: "jobRow \<Rightarrow> bool" where
  "active j = (jStatus j = Queued \<or> jStatus j = Running)"

definition QueuePosition :: "int \<Rightarrow> int tx" where
  "QueuePosition jid s = Inr (int (length (filter (\<lambda>j. active j \<and> jID j \<le> jid) (jobs s))), s)"

fun insert_job :: "(jobRow \<Rightarrow> jobRow \<Rightarrow> bool) \<Rightarrow> jobRow \<Rightarrow> jobRow list \<Rightarrow> jobRow list" where
  "insert_job le j [] = [j]"
| "insert_job le j (k # ks) = (if le j k then j # k # ks else k # insert_job le j ks)"

definition sort_jobs :: "(jobRow \<Rightarrow> jobRow \<Rightarrow> bool) \<Rightarrow> jobRow list \<Rightarrow> jobRow list" where
  "sort_jobs le js = foldr (insert_job le) js []"

definition ActiveJobs :: "jobRow list tx" where
  "ActiveJobs s = Inr (sort_jobs queue_before (filter active (jobs s)), s)"

definition recent_before :: "jobRow \<Rightarrow> jobRow \<Rightarrow> bool" where
  "recent_before a b = ((active a \<and> \<not> active b) \<or> (active a = active b \<and> jUpdatedAt b \<le> jUpdatedAt a))"

definition RecentJobs :: "int \<Rightarrow> jobRow list tx" where
  "RecentJobs limit s = Inr (take (nat limit) (sort_jobs recent_before (jobs s)), s)"

subsection \<open>The queue a worker and a caller hold\<close>

record Jobs =
  jbScope :: Scope
  heldID :: int
  heldAttempt :: int

definition NewJobs :: "Scope \<Rightarrow> Jobs" where
  "NewJobs scope = \<lparr>jbScope = scope, heldID = 0, heldAttempt = 0\<rparr>"

definition attemptOf :: "Jobs \<Rightarrow> int \<Rightarrow> int" where
  "attemptOf h jid = (if heldID h \<noteq> jid then 0 else heldAttempt h)"

text \<open>A row that could not be read leaves the identifier invalid, which ends \<^verbatim>\<open>dropPartial\<close> before its
  error is looked at.\<close>

definition dropPartial :: "int \<Rightarrow> unit tx" where
  "dropPartial jid s =
     (case JobDocID jid s of
        Inl e \<Rightarrow> Inr ((), s)
      | Inr (None, _) \<Rightarrow> Inr ((), s)
      | Inr (Some docID, _) \<Rightarrow>
          if docID = [] then Inr ((), s)
          else
            (case DocumentStatus docID s of
               Inl e \<Rightarrow> if errors_Is e ErrNoRows then Inr ((), s)
                        else Inl (Errorf (lit ''read the status of '' @ docID) e)
             | Inr (status, _) \<Rightarrow>
                 tx_bind (deleteRows (Staging docID))
                   (\<lambda>_. if status = Published then tx_return () else deleteRows docID) s))"

definition sweep :: "Jobs \<Rightarrow> int \<Rightarrow> unit io" where
  "sweep h maxAttempts =
     io_wrap (lit ''sweep stranded jobs'') (Run (jbScope h)
       (tx_bind (SweepStrandedJobs (Narrow maxAttempts)) (tx_each dropPartial)))"

record Job =
  jobTitle :: gostring
  jobSource :: gostring
  jobID :: int
  jobAttempts :: int
  jobForce :: bool

definition textOr :: "gostring option \<Rightarrow> gostring" where
  "textOr v = (case v of Some t \<Rightarrow> t | None \<Rightarrow> [])"

definition Claim :: "Jobs \<Rightarrow> int \<Rightarrow> int \<Rightarrow> World \<Rightarrow> (goerror + Job option) \<times> Jobs \<times> World" where
  "Claim h lease maxAttempts w =
     (case sweep h maxAttempts w of
        (Inl e, w) \<Rightarrow> (Inl e, h, w)
      | (Inr _, w) \<Rightarrow>
          (case Run (jbScope h) (ClaimJob (scUser (jbScope h)) lease (Narrow maxAttempts)) w of
             (Inl e, w) \<Rightarrow> if errors_Is e ErrNoRows then (Inr None, h, w)
                            else (Inl (Errorf (lit ''claim'') e), h, w)
           | (Inr row, w) \<Rightarrow>
               (Inr (Some \<lparr>jobTitle = textOr (jTitle row), jobSource = jSourcePath row, jobID = jID row,
                  jobAttempts = jAttempts row, jobForce = jForce row\<rparr>),
                h\<lparr>heldID := jID row, heldAttempt := jAttempts row\<rparr>, w)))"

definition RecordProgress :: "Jobs \<Rightarrow> int \<Rightarrow> gostring \<Rightarrow> int \<Rightarrow> int \<Rightarrow> int \<Rightarrow> unit io" where
  "RecordProgress h jid phase cur tot lease =
     io_wrap (lit ''write progress for job '' @ show_int jid) (Run (jbScope h)
       (fenced (RecordJobProgress (nullString phase) (Narrow cur) (Narrow tot) lease jid (attemptOf h jid))))"

definition RenewLease :: "Jobs \<Rightarrow> int \<Rightarrow> int \<Rightarrow> unit io" where
  "RenewLease h jid lease =
     io_wrap (lit ''renew the lease on job '' @ show_int jid) (Run (jbScope h)
       (fenced (RenewJobLease lease jid (attemptOf h jid))))"

definition RecordDocID :: "Jobs \<Rightarrow> int \<Rightarrow> gostring \<Rightarrow> unit io" where
  "RecordDocID h jid docID =
     io_wrap (lit ''record the document of job '' @ show_int jid) (Run (jbScope h)
       (fenced (RecordJobDocID (nullString docID) jid (attemptOf h jid))))"

definition CancelRequested :: "Jobs \<Rightarrow> int \<Rightarrow> bool io" where
  "CancelRequested h jid w =
     (case Read (jbScope h) (JobCancelRequested jid) w of
        (Inl e, w) \<Rightarrow> if errors_Is e ErrNoRows then (Inr True, w)
                       else (Inl (Errorf (lit ''read the cancel request for job '' @ show_int jid) e), w)
      | (Inr requested, w) \<Rightarrow> (Inr requested, w))"

definition CancelHeld :: "Jobs \<Rightarrow> int \<Rightarrow> unit io" where
  "CancelHeld h jid =
     Run (jbScope h) (tx_bind (dropPartial jid) (\<lambda>_. fenced (CancelJob jid (attemptOf h jid))))"

datatype Outcome = Requeued | Failed

definition Finish :: "Jobs \<Rightarrow> int \<Rightarrow> Outcome \<Rightarrow> gostring \<Rightarrow> bool \<Rightarrow> unit io" where
  "Finish h jid outcome reason permanent =
     (let status = (if outcome = Failed then FailedJob else Queued)
      in Run (jbScope h) (tx_bind (dropPartial jid)
        (\<lambda>_. fenced (FinishJob status (nullString reason) permanent jid (attemptOf h jid)))))"

definition CompleteWithoutDocument :: "Jobs \<Rightarrow> int \<Rightarrow> gostring \<Rightarrow> unit io" where
  "CompleteWithoutDocument h jid docID =
     io_wrap (lit ''complete job '' @ show_int jid) (Run (jbScope h)
       (fenced (CompleteJobWithoutDocument (nullString docID) jid (attemptOf h jid))))"

definition AddJob :: "Jobs \<Rightarrow> gostring \<Rightarrow> gostring \<Rightarrow> bool \<Rightarrow> (int \<times> int) io" where
  "AddJob h source title force =
     io_wrap (lit ''read the position of the job'') (Run (jbScope h)
       (tx_bind (EnqueueJob (scUser (jbScope h)) source (nullString title) force) (\<lambda>jid.
        tx_bind (QueuePosition jid) (\<lambda>ahead. tx_return (jid, ahead)))))"

definition ListJobs :: "Jobs \<Rightarrow> bool \<Rightarrow> int \<Rightarrow> jobRow list io" where
  "ListJobs h includeCompleted limit w =
     (case Read (jbScope h) (if includeCompleted then RecentJobs (Narrow limit) else ActiveJobs) w of
        (Inl e, w) \<Rightarrow> (Inl (Errorf (lit ''read the queue'') e), w)
      | (Inr rows, w) \<Rightarrow> (Inr (if limit < int (length rows) then take (nat limit) rows else rows), w))"

definition JobOf :: "Jobs \<Rightarrow> int \<Rightarrow> jobRow io" where
  "JobOf h jid w =
     (case Read (jbScope h) (JobByID jid) w of
        (Inl e, w) \<Rightarrow>
          if errors_Is e ErrNoRows
          then (Inl (ErrorfPrefix (Sentinel ErrNotFound) (lit '': job '' @ show_int jid)), w)
          else (Inl (Errorf (lit ''read job '' @ show_int jid) e), w)
      | (Inr row, w) \<Rightarrow> (Inr row, w))"

definition statusText :: "job_status \<Rightarrow> gostring" where
  "statusText st = (case st of Queued \<Rightarrow> lit ''queued'' | Running \<Rightarrow> lit ''running'' | Done \<Rightarrow> lit ''done''
     | FailedJob \<Rightarrow> lit ''failed'' | CancelledJob \<Rightarrow> lit ''cancelled'')"

definition RequestCancel :: "Jobs \<Rightarrow> int \<Rightarrow> gostring io" where
  "RequestCancel h jid w =
     (case Read (jbScope h) (JobStatusOf jid) w of
        (Inl e, w) \<Rightarrow>
          if errors_Is e ErrNoRows
          then (Inl (ErrorfPrefix (Sentinel ErrNotFound) (lit '': job '' @ show_int jid)), w)
          else (Inl (Errorf (lit ''read job '' @ show_int jid) e), w)
      | (Inr status, w) \<Rightarrow>
          if status \<noteq> Queued \<and> status \<noteq> Running then (Inr (statusText status), w)
          else
            (case Run (jbScope h) (RequestJobCancel jid) w of
               (Inl e, w) \<Rightarrow> (Inl (Errorf (lit ''cancel job '' @ show_int jid) e), w)
             | (Inr _, w) \<Rightarrow> (Inr (if status = Queued then lit ''cancelled'' else lit ''cancelling''), w)))"

end
