(* ===== verification/Worker.thy ===== *)
theory Worker
  imports Ingest JobStore "HOL-Library.AList"
begin

text \<open>
  \<^verbatim>\<open>internal/service/worker\<close>: one job at a time, claimed under a lease, run, and ended.  The interfaces
  \<^verbatim>\<open>Ingester\<close> and \<^verbatim>\<open>Sources\<close> are fields of the service.  The ingest runs beside a watch of its job, so what
  a run hands back is its result, how the watch ended, whether the job's timeout passed, and the world
  both left; \<open>runWatched\<close> is one such run of the ingest service.  Durations are whole seconds.
\<close>

subsection \<open>The service\<close>

definition DefaultLease :: int where "DefaultLease = 5 * 60"
definition DefaultPoll :: int where "DefaultPoll = 2"
definition DefaultMaxAttempts :: int where "DefaultMaxAttempts = 3"
definition DefaultCancelPoll :: int where "DefaultCancelPoll = 2"
definition DefaultJobTimeout :: int where "DefaultJobTimeout = 4 * 3600"
definition progressInterval :: int where "progressInterval = 2"

datatype watchResult = watchRunning | watchCancelled | watchLost

type_synonym ingester = "Source \<Rightarrow> Options \<Rightarrow> World \<Rightarrow> (goerror + IngestResult) \<times> watchResult \<times> bool \<times> World"

record WorkerOptions =
  woLease :: int
  woPoll :: int
  woCancelPoll :: int
  woJobTimeout :: int
  woMaxAttempts :: int
  woOnce :: bool

record Service =
  svIngester :: ingester
  svSources :: "gostring \<Rightarrow> bool \<Rightarrow> goerror + Source"
  svOpts :: WorkerOptions

definition New :: "ingester \<Rightarrow> (gostring \<Rightarrow> bool \<Rightarrow> goerror + Source) \<Rightarrow> WorkerOptions \<Rightarrow> Service" where
  "New ing sources opts =
     (let opts = (if woLease opts = 0 then opts\<lparr>woLease := DefaultLease\<rparr> else opts);
          opts = (if woPoll opts = 0 then opts\<lparr>woPoll := DefaultPoll\<rparr> else opts);
          opts = (if woJobTimeout opts = 0 then opts\<lparr>woJobTimeout := DefaultJobTimeout\<rparr> else opts);
          opts = (if woCancelPoll opts = 0 then opts\<lparr>woCancelPoll := DefaultCancelPoll\<rparr> else opts);
          opts = (if woMaxAttempts opts = 0 then opts\<lparr>woMaxAttempts := DefaultMaxAttempts\<rparr> else opts)
      in \<lparr>svIngester = ing, svSources = sources, svOpts = opts\<rparr>)"

text \<open>What a duration of whole seconds prints as.\<close>

definition durationText :: "int \<Rightarrow> gostring" where
  "durationText d =
     (let a = \<bar>d\<bar>; h = a div 3600; m = a mod 3600 div 60; s = a mod 60
      in (if d < 0 then lit ''-'' else [])
         @ (if h > 0 then show_int h @ lit ''h'' else [])
         @ (if h > 0 \<or> m > 0 then show_int m @ lit ''m'' else [])
         @ show_int s @ lit ''s'')"

definition refused :: "goerror \<Rightarrow> bool" where
  "refused err = (errors_Is err ErrBlocked \<and> \<not> errors_Is err ErrUnresolved)"

definition permanent :: "goerror \<Rightarrow> bool" where
  "permanent err = (errors_As_structure err \<or> errors_Is err ErrUnsupportedFormat \<or> refused err)"

definition quality :: "IngestResult \<Rightarrow> gostring" where
  "quality result = (case resReport result of None \<Rightarrow> lit ''unknown''
     | Some r \<Rightarrow> Quality_String (report_Quality r))"

definition workerFail :: "Service \<Rightarrow> Jobs \<Rightarrow> Job \<Rightarrow> goerror \<Rightarrow> bool \<Rightarrow> unit io" where
  "workerFail S h job cause perm w =
     (let exhausted = (perm \<or> woMaxAttempts (svOpts S) \<le> jobAttempts job);
          outcome = (if exhausted then Failed else Requeued)
      in case Finish h (jobID job) outcome (errorText cause) perm w of
           (Inl e, w) \<Rightarrow> (Inl (Errorf (lit ''fail job '' @ show_int (jobID job)) e), w)
         | (Inr _, w) \<Rightarrow> (Inr (), w))"

definition workerCancelled :: "Jobs \<Rightarrow> Job \<Rightarrow> unit io" where
  "workerCancelled h job w =
     (case CancelHeld h (jobID job) w of
        (Inl e, w) \<Rightarrow> (Inl (Errorf (lit ''cancel job '' @ show_int (jobID job)) e), w)
      | (Inr _, w) \<Rightarrow> (Inr (), w))"

definition workerDone :: "Jobs \<Rightarrow> Job \<Rightarrow> IngestResult \<Rightarrow> unit io" where
  "workerDone h job result w =
     (if resOutcome result = Unchanged
      then case CompleteWithoutDocument h (jobID job) (resDocID result) w of
             (Inl e, w) \<Rightarrow> (Inl (Errorf (lit ''complete job '' @ show_int (jobID job)) e), w)
           | (Inr _, w) \<Rightarrow> (Inr (), w)
      else (Inr (), w))"

text \<open>The callbacks the ingest is handed.  \<open>wLast\<close> is the variable \<^verbatim>\<open>progress\<close> closes over.\<close>

definition workerProgress :: "Service \<Rightarrow> Jobs \<Rightarrow> int \<Rightarrow> Phase \<Rightarrow> int \<Rightarrow> int \<Rightarrow> World \<Rightarrow> World" where
  "workerProgress S h jid phase cur tot w =
     (if (case wLast w of None \<Rightarrow> False | Some t \<Rightarrow> wClock w - t < progressInterval) \<and> cur < tot then w
      else snd (RecordProgress h jid (Phase_String phase) cur tot (woLease (svOpts S))
             (w\<lparr>wLast := Some (wClock w)\<rparr>)))"

definition recordDocID :: "Jobs \<Rightarrow> int \<Rightarrow> gostring \<Rightarrow> World \<Rightarrow> World" where
  "recordDocID h jid docID w = snd (RecordDocID h jid docID w)"

definition ingestOptions :: "Service \<Rightarrow> Jobs \<Rightarrow> Job \<Rightarrow> Options" where
  "ingestOptions S h job = \<lparr>optProgress = workerProgress S h (jobID job), optOnDocID = recordDocID h (jobID job),
     optJobID = Some (jobID job), optTitle = jobTitle job, optJobAttempt = jobAttempts job,
     optForce = jobForce job\<rparr>"

definition execute :: "Service \<Rightarrow> Jobs \<Rightarrow> Job \<Rightarrow> unit io" where
  "execute S h job w =
     (case svSources S (jobSource job) True of
        Inl err \<Rightarrow> workerFail S h job err (\<not> errors_Is err ErrMissing) w
      | Inr source \<Rightarrow>
         (let (result, watched, expired, w) = svIngester S source (ingestOptions S h job) (w\<lparr>wLast := None\<rparr>)
          in case result of
               Inr r \<Rightarrow> workerDone h job r w
             | Inl err \<Rightarrow>
                 if watched = watchLost \<or> errors_Is err ErrLostClaim then (Inr (), w)
                 else if expired
                 then workerFail S h job
                        (ErrorfPrefix (Sentinel ErrTooLong) (lit '' ('' @ durationText (woJobTimeout (svOpts S)) @ lit '')'')) True w
                 else if watched = watchCancelled \<or> errors_Is err ErrCancelled then workerCancelled h job w
                 else workerFail S h job err (permanent err) w))"

definition Next :: "Service \<Rightarrow> Jobs \<Rightarrow> World \<Rightarrow> (goerror + bool) \<times> Jobs \<times> World" where
  "Next S h w =
     (case Claim h (woLease (svOpts S)) (woMaxAttempts (svOpts S)) w of
        (Inl e, h, w) \<Rightarrow> (Inl (Errorf (lit ''claim a job'') e), h, w)
      | (Inr None, h, w) \<Rightarrow> (Inr False, h, w)
      | (Inr (Some job), h, w) \<Rightarrow>
          (case execute S h job w of
             (Inl e, w) \<Rightarrow> (Inl e, h, w)
           | (Inr _, w) \<Rightarrow> (Inr True, h, w)))"

text \<open>\<^verbatim>\<open>sleep\<close> ends early when the context is cancelled while it waits, which the world's list says.\<close>

definition workerStep :: "Service \<Rightarrow> Jobs \<Rightarrow> World \<Rightarrow> (goerror + bool) \<times> Jobs \<times> World" where
  "workerStep S h w =
     (case Next S h w of
        (Inl e, h, w) \<Rightarrow> (Inl e, h, w)
      | (Inr worked, h, w) \<Rightarrow>
          if \<not> worked then
            if woOnce (svOpts S) then (Inr True, h, w)
            else (let (cancelled, w) = ctxErr w in (Inr cancelled, h, w))
          else (Inr (woOnce (svOpts S)), h, w))"

text \<open>The worker's loop, for at most as many rounds as the fuel; \<^const>\<open>None\<close> is still running.\<close>

fun workerRun :: "nat \<Rightarrow> Service \<Rightarrow> Jobs \<Rightarrow> World \<Rightarrow> (goerror option \<times> Jobs \<times> World) option" where
  "workerRun 0 S h w = None"
| "workerRun (Suc n) S h w =
     (let (cancelled, w) = ctxErr w
      in if cancelled then Some (None, h, w)
         else case workerStep S h w of
           (Inl e, h, w) \<Rightarrow> Some (Some e, h, w)
         | (Inr stop, h, w) \<Rightarrow> if stop then Some (None, h, w) else workerRun n S h w)"

subsection \<open>The watch\<close>

definition check :: "Service \<Rightarrow> Jobs \<Rightarrow> int \<Rightarrow> World \<Rightarrow> watchResult \<times> bool \<times> World" where
  "check S h jid w =
     (let (renewed, w) = RenewLease h jid (woLease (svOpts S)) w
      in if (case renewed of Inl e \<Rightarrow> errors_Is e ErrLostClaim | Inr _ \<Rightarrow> False) then (watchLost, True, w)
         else
           let (requested, w) = CancelRequested h jid w
           in case requested of
                Inl e \<Rightarrow> (watchRunning, False, w)
              | Inr r \<Rightarrow> if r then (watchCancelled, True, w) else (watchRunning, False, w))"

text \<open>A watch that polls at most so often before the ingest it watches ends.\<close>

fun watch :: "nat \<Rightarrow> Service \<Rightarrow> Jobs \<Rightarrow> int \<Rightarrow> World \<Rightarrow> watchResult \<times> World" where
  "watch 0 S h jid w = (watchRunning, w)"
| "watch (Suc polls) S h jid w =
     (let (result, ended, w) = check S h jid w
      in if ended then (result, w) else watch polls S h jid w)"

text \<open>The ingest service as the worker's ingester, with the watch's polls before its first effect: the
  context it runs under is cancelled when the watch stopped it.\<close>

definition runWatched :: "Codecs \<Rightarrow> Scope \<Rightarrow> Service \<Rightarrow> Jobs \<Rightarrow> int \<Rightarrow> nat \<Rightarrow> ingester" where
  "runWatched C scope S h jid polls src opts w =
     (let (watched, w) = watch polls S h jid w;
          w = (if watched = watchRunning then w else w\<lparr>wCtx := [True]\<rparr>);
          (result, w) = ingest_Run C scope src opts w
      in (result, watched, False, w))"

subsection \<open>rotation.go\<close>

record Queue =
  qUser :: gostring
  qLibrary :: gostring

text \<open>The workers built so far, each with the handle it claims through, and the world of each library.
  \<^verbatim>\<open>Queues.Waiting\<close> asks two functions of the database, so it is an argument.\<close>

record rotation =
  rtBuilt :: "(Queue \<times> Service \<times> Jobs) list"
  rtWorlds :: "gostring \<Rightarrow> World"

definition serve :: "(Queue \<Rightarrow> Service \<times> Jobs) \<Rightarrow> Queue \<Rightarrow> rotation \<Rightarrow> (goerror + bool) \<times> rotation" where
  "serve worker queue st =
     (let (service, h) = (case map_of (rtBuilt st) queue of Some sh \<Rightarrow> sh | None \<Rightarrow> worker queue);
          (did, h, w) = Next service h (rtWorlds st (qLibrary queue));
          st = st\<lparr>rtBuilt := AList.update queue (service, h) (rtBuilt st),
                  rtWorlds := (rtWorlds st)(qLibrary queue := w)\<rparr>
      in case did of
           Inl e \<Rightarrow> (Inl (Errorf (lit ''library '' @ qLibrary queue @ lit '', queued by '' @ qUser queue) e), st)
         | Inr did \<Rightarrow> (Inr did, st))"

fun serveAll ::
  "(Queue \<Rightarrow> Service \<times> Jobs) \<Rightarrow> Queue list \<Rightarrow> bool \<Rightarrow> goerror list \<Rightarrow> rotation \<Rightarrow> bool \<times> goerror list \<times> rotation" where
  "serveAll worker [] worked failed st = (worked, failed, st)"
| "serveAll worker (q # qs) worked failed st =
     (case serve worker q st of
        (Inl e, st) \<Rightarrow> serveAll worker qs worked (failed @ [e]) st
      | (Inr did, st) \<Rightarrow> serveAll worker qs (worked \<or> did) failed st)"

definition round ::
  "(rotation \<Rightarrow> (goerror + Queue list) \<times> rotation) \<Rightarrow> (Queue \<Rightarrow> Service \<times> Jobs) \<Rightarrow> rotation \<Rightarrow>
     (goerror + bool) \<times> rotation" where
  "round waiting worker st =
     (case waiting st of
        (Inl e, st) \<Rightarrow> (Inl (Errorf (lit ''list waiting queues'') e), st)
      | (Inr queues, st) \<Rightarrow>
          (let (worked, failed, st) = serveAll worker queues False [] st
           in if 0 < length failed \<and> length failed = length queues then (Inl (hd failed), st)
              else (Inr worked, st)))"

text \<open>\<^verbatim>\<open>slept\<close> says whether the context was cancelled while the rotation waited.\<close>

definition turn ::
  "(rotation \<Rightarrow> (goerror + Queue list) \<times> rotation) \<Rightarrow> (Queue \<Rightarrow> Service \<times> Jobs) \<Rightarrow> bool \<Rightarrow> bool \<Rightarrow>
     rotation \<Rightarrow> (bool \<times> goerror option) \<times> rotation" where
  "turn waiting worker once slept st =
     (case round waiting worker st of
        (Inl e, st) \<Rightarrow> ((True, Some e), st)
      | (Inr worked, st) \<Rightarrow>
          if worked then ((False, None), st)
          else if once then ((True, None), st)
          else ((slept, None), st))"

fun rotate ::
  "(rotation \<Rightarrow> (goerror + Queue list) \<times> rotation) \<Rightarrow> (Queue \<Rightarrow> Service \<times> Jobs) \<Rightarrow> bool \<Rightarrow> (bool \<times> bool) list \<Rightarrow>
     rotation \<Rightarrow> (goerror option \<times> rotation) option" where
  "rotate waiting worker once [] st = None"
| "rotate waiting worker once ((cancelled, slept) # ctx) st =
     (if cancelled then Some (None, st)
      else case turn waiting worker once slept st of
        ((stop, err), st) \<Rightarrow> if err \<noteq> None \<or> stop then Some (err, st)
           else rotate waiting worker once ctx st)"

end
