(* ===== verification/Store_Props.thy ===== *)
theory Store_Props
  imports Store
begin

text \<open>
  Reasoning about transactions.  A relation between the tables before and after that is reflexive and
  transitive is kept by a sequence of statements when each keeps it, and a transaction that fails
  keeps everything: the locale \<open>store_relation\<close> states that once and is interpreted on the relations
  the ingest rests on.
\<close>

subsection \<open>Relations every step of a transaction keeps\<close>

definition tx_keeps :: "(db \<Rightarrow> db \<Rightarrow> bool) \<Rightarrow> 'a tx \<Rightarrow> bool" where
  "tx_keeps R m = (\<forall>s a s'. m s = Inr (a, s') \<longrightarrow> R s s')"

definition io_keeps :: "(db \<Rightarrow> db \<Rightarrow> bool) \<Rightarrow> 'a io \<Rightarrow> bool" where
  "io_keeps R m = (\<forall>w r w'. m w = (r, w') \<longrightarrow> R (wDB w) (wDB w'))"

lemma tx_keepsI: "(\<And>s a s'. m s = Inr (a, s') \<Longrightarrow> R s s') \<Longrightarrow> tx_keeps R m"
  by (simp add: tx_keeps_def)

lemma tx_keepsD: "tx_keeps R m \<Longrightarrow> m s = Inr (a, s') \<Longrightarrow> R s s'"
  by (simp add: tx_keeps_def)

lemma io_keepsD: "io_keeps R m \<Longrightarrow> m w = (r, w') \<Longrightarrow> R (wDB w) (wDB w')"
  by (simp add: io_keeps_def)

lemma popFault_db [simp]: "wDB (snd (popFault w)) = wDB w"
  by (simp add: popFault_def split: list.splits)

lemma ctxErr_db [simp]: "wDB (snd (ctxErr w)) = wDB w"
  by (simp add: ctxErr_def split: list.splits)

text \<open>A transaction either fails and leaves the tables as they were, or commits what its statements did.\<close>

lemma Run_cases:
  assumes "Run scope work w = (r, w')"
  obtains (failed) e where "r = Inl e" "wDB w' = wDB w"
    | (committed) a where "r = Inr a" "work (wDB w) = Inr (a, wDB w')"
proof -
  obtain f w1 where p1: "popFault w = (f, w1)" by force
  then have d1: "wDB w1 = wDB w" by (metis popFault_db snd_conv)
  show thesis
  proof (cases "f \<or> setScope scope \<noteq> None")
    case True
    with assms p1 d1 show thesis by (auto simp: Run_def split: option.splits if_splits intro: failed)
  next
    case False
    show thesis
    proof (cases "work (wDB w1)")
      case (Inl e)
      with assms p1 d1 False show thesis by (auto simp: Run_def intro: failed)
    next
      case (Inr as)
      obtain a s' where as: "as = (a, s')" by force
      obtain g w2 where p2: "popFault w1 = (g, w2)" by force
      then have "wDB w2 = wDB w" using d1 by (metis popFault_db snd_conv)
      with assms p1 d1 False Inr as p2 show thesis
        by (cases g) (auto simp: Run_def intro: failed committed)
    qed
  qed
qed

locale store_relation =
  fixes R :: "db \<Rightarrow> db \<Rightarrow> bool"
  assumes refl: "R s s"
    and trans: "R s t \<Longrightarrow> R t u \<Longrightarrow> R s u"
begin

lemma return: "tx_keeps R (tx_return a)"
  by (auto simp: tx_keeps_def tx_return_def refl)

lemma bind: "tx_keeps R m \<Longrightarrow> (\<And>a. tx_keeps R (f a)) \<Longrightarrow> tx_keeps R (tx_bind m f)"
proof (rule tx_keepsI)
  fix s b s' assume m: "tx_keeps R m" "\<And>a. tx_keeps R (f a)" "tx_bind m f s = Inr (b, s')"
  then obtain a t where "m s = Inr (a, t)" "f a t = Inr (b, s')"
    by (auto simp: tx_bind_def split: sum.splits)
  with m show "R s s'" using trans tx_keepsD by metis
qed

lemma wrap: "tx_keeps R m \<Longrightarrow> tx_keeps R (tx_wrap msg m)"
  by (auto simp: tx_keeps_def tx_wrap_def split: sum.splits)

lemma each: "(\<And>x. x \<in> set xs \<Longrightarrow> tx_keeps R (f x)) \<Longrightarrow> tx_keeps R (tx_each f xs)"
  by (induction xs) (auto intro: return bind)

lemma fenced: "tx_keeps R m \<Longrightarrow> tx_keeps R (fenced m)"
  unfolding fenced_def by (rule bind) (auto simp: tx_keeps_def tx_return_def refl)

lemma run: "tx_keeps R work \<Longrightarrow> io_keeps R (Run scope work)"
  unfolding io_keeps_def by (metis Run_cases refl tx_keepsD)

lemma io_wrap: "io_keeps R m \<Longrightarrow> io_keeps R (io_wrap msg m)"
  unfolding io_keeps_def io_wrap_def by (force split: prod.splits sum.splits)

lemma io_return: "io_keeps R (io_return a)"
  by (auto simp: io_keeps_def io_return_def refl)

lemmas tx_rules = return bind wrap each fenced

end

subsection \<open>What a document is made of\<close>

record docView =
  vRows :: "docRow list"
  vChunks :: "chunkRow list"
  vPages :: "(gostring \<times> int \<times> gostring) list"
  vTerms :: "(gostring \<times> gostring \<times> gostring) list"

definition view :: "db \<Rightarrow> gostring \<Rightarrow> docView" where
  "view s d = \<lparr>vRows = filter (\<lambda>r. dDocID r = d) (documents s),
     vChunks = filter (\<lambda>c. cDocID c = d) (chunks s),
     vPages = filter (\<lambda>p. fst p = d) (pages s), vTerms = filter (\<lambda>t. fst t = d) (index_terms s)\<rparr>"

definition emptyView :: docView where
  "emptyView = \<lparr>vRows = [], vChunks = [], vPages = [], vTerms = []\<rparr>"

text \<open>A document a search can reach: its row is published.\<close>

definition searchable :: "db \<Rightarrow> gostring \<Rightarrow> bool" where
  "searchable s d = list_ex (\<lambda>r. dDocID r = d \<and> dStatus r = Published) (documents s)"

text \<open>What only touches the document \<open>d\<close>, and does not publish it.\<close>

definition staging_step :: "gostring \<Rightarrow> db \<Rightarrow> db \<Rightarrow> bool" where
  "staging_step d s s' \<longleftrightarrow> (\<forall>e. e \<noteq> d \<longrightarrow> view s' e = view s e) \<and>
     (\<not> searchable s d \<longrightarrow> \<not> searchable s' d)"

definition same_docs :: "db \<Rightarrow> db \<Rightarrow> bool" where
  "same_docs s s' \<longleftrightarrow> documents s' = documents s \<and> chunks s' = chunks s \<and> pages s' = pages s \<and>
     index_terms s' = index_terms s"

interpretation staging: store_relation "staging_step d" for d
  by unfold_locales (auto simp: staging_step_def)

interpretation docs: store_relation same_docs
  by unfold_locales (auto simp: same_docs_def)

lemma view_eqI:
  assumes "filter (\<lambda>r. dDocID r = e) (documents s') = filter (\<lambda>r. dDocID r = e) (documents s)"
    "filter (\<lambda>c. cDocID c = e) (chunks s') = filter (\<lambda>c. cDocID c = e) (chunks s)"
    "filter (\<lambda>p. fst p = e) (pages s') = filter (\<lambda>p. fst p = e) (pages s)"
    "filter (\<lambda>t. fst t = e) (index_terms s') = filter (\<lambda>t. fst t = e) (index_terms s)"
  shows "view s' e = view s e"
  using assms by (simp add: view_def)

lemma searchable_view: "searchable s d \<longleftrightarrow> list_ex (\<lambda>r. dStatus r = Published) (vRows (view s d))"
  by (auto simp: searchable_def view_def list_ex_iff)

lemma same_docs_staging: "same_docs s s' \<Longrightarrow> staging_step d s s'"
  by (simp add: same_docs_def staging_step_def view_def searchable_def)

lemma same_docs_sym: "same_docs s s' \<Longrightarrow> same_docs s' s"
  by (simp add: same_docs_def)

text \<open>Deleting always succeeds: the rows that refer to the document go before it does.\<close>

definition without :: "gostring \<Rightarrow> db \<Rightarrow> db" where
  "without d s = s\<lparr>documents := filter (\<lambda>r. dDocID r \<noteq> d) (documents s),
     chunks := filter (\<lambda>c. cDocID c \<noteq> d) (chunks s), pages := filter (\<lambda>p. fst p \<noteq> d) (pages s),
     index_terms := filter (\<lambda>t. fst t \<noteq> d) (index_terms s)\<rparr>"

lemma deleteRows_eq: "deleteRows d s = Inr ((), without d s)"
  by (auto simp: deleteRows_def tx_bind_def tx_wrap_def DeleteDocumentChunks_def DeleteDocumentPages_def
    DeleteDocumentIndexTerms_def DeleteDocumentRow_def referenced_def without_def case_prod_unfold)

lemma view_without: "view (without d s) e = (if e = d then emptyView else view s e)"
  by (auto simp: view_def without_def emptyView_def intro!: filter_cong)

lemma without_jobs [simp]: "jobs (without d s) = jobs s" "now (without d s) = now s"
  by (simp_all add: without_def)

lemma deleteRows_staging: "tx_keeps (staging_step d) (deleteRows d)"
  by (auto simp: tx_keeps_def deleteRows_eq staging_step_def view_without searchable_view emptyView_def)

lemma InsertDocument_staging: "dDocID row = d \<Longrightarrow> tx_keeps (staging_step d) (InsertDocument row)"
  by (auto simp: tx_keeps_def InsertDocument_def staging_step_def view_def searchable_def hasDocument_def
    split: if_splits)

lemma InsertChunk_staging: "cDocID row = d \<Longrightarrow> tx_keeps (staging_step d) (InsertChunk row)"
  by (auto simp: tx_keeps_def InsertChunk_def staging_step_def view_def searchable_def split: if_splits)

lemma UpsertPage_staging: "tx_keeps (staging_step d) (UpsertPage d page t)"
  by (auto simp: tx_keeps_def UpsertPage_def staging_step_def view_def searchable_def case_prod_unfold
    split: if_splits intro!: filter_cong)

lemma InsertIndexTerm_staging: "tx_keeps (staging_step d) (InsertIndexTerm d term section)"
  by (auto simp: tx_keeps_def InsertIndexTerm_def staging_step_def view_def searchable_def split: if_splits)

lemma chunkParams_docID [simp]: "cDocID (chunkParams d c) = d"
  by (simp add: chunkParams_def)

lemma documentRow_docID [simp]: "dDocID (documentRow doc) = doDocID doc"
  by (simp add: documentRow_def)

lemma Create_staging:
  assumes "doDocID doc = d" "stale = [] \<or> stale = d"
  shows "io_keeps (staging_step d) (Create scope doc stale)"
  unfolding Create_def using assms
  by (auto intro!: staging.run staging.bind staging.return deleteRows_staging InsertDocument_staging)

lemma AddChunks_staging: "io_keeps (staging_step d) (AddChunks scope d cs)"
  unfolding AddChunks_def by (intro staging.run staging.each staging.wrap InsertChunk_staging) simp

lemma AddPagesAndTerms_staging: "io_keeps (staging_step d) (AddPagesAndTerms scope d ps ts)"
  unfolding AddPagesAndTerms_def writePages_def writeTerms_def
  by (auto intro!: staging.io_return staging.run staging.bind staging.each staging.wrap
    UpsertPage_staging InsertIndexTerm_staging)

lemma DeleteDoc_staging: "io_keeps (staging_step d) (DeleteDoc scope d)"
  unfolding DeleteDoc_def by (intro staging.run deleteRows_staging)

subsection \<open>The schema's keys hold\<close>

text \<open>The primary keys of documents and pages, and the foreign keys to documents.\<close>

definition db_ok :: "db \<Rightarrow> bool" where
  "db_ok s \<longleftrightarrow> distinct (map dDocID (documents s)) \<and> distinct (map (\<lambda>(d, p, _). (d, p)) (pages s)) \<and>
     list_all (\<lambda>c. hasDocument s (cDocID c)) (chunks s) \<and>
     list_all (\<lambda>p. hasDocument s (fst p)) (pages s) \<and>
     list_all (\<lambda>t. hasDocument s (fst t)) (index_terms s)"

definition keeps_ok :: "db \<Rightarrow> db \<Rightarrow> bool" where
  "keeps_ok s s' \<longleftrightarrow> (db_ok s \<longrightarrow> db_ok s')"

interpretation ok: store_relation keeps_ok
  by unfold_locales (auto simp: keeps_ok_def)

lemma filter_distinct_map: "distinct (map f xs) \<Longrightarrow> distinct (map f (filter P xs))"
  by (simp add: distinct_map inj_on_def)

lemma db_ok_without: "db_ok s \<Longrightarrow> db_ok (without d s)"
  by (auto simp: db_ok_def without_def hasDocument_def list_all_iff filter_distinct_map)

lemma deleteRows_ok: "tx_keeps keeps_ok (deleteRows d)"
  by (auto simp: tx_keeps_def deleteRows_eq keeps_ok_def db_ok_without)

lemma InsertDocument_ok: "tx_keeps keeps_ok (InsertDocument row)"
  by (auto simp: tx_keeps_def keeps_ok_def InsertDocument_def db_ok_def hasDocument_def list_all_iff split: if_splits)

lemma InsertChunk_ok: "tx_keeps keeps_ok (InsertChunk row)"
  by (auto simp: tx_keeps_def keeps_ok_def InsertChunk_def db_ok_def hasDocument_def list_all_iff split: if_splits)

lemma UpsertPage_ok: "tx_keeps keeps_ok (UpsertPage d page t)"
  by (auto simp: tx_keeps_def keeps_ok_def UpsertPage_def db_ok_def hasDocument_def list_all_iff
    filter_distinct_map split: if_splits)

lemma InsertIndexTerm_ok: "tx_keeps keeps_ok (InsertIndexTerm d term section)"
  by (auto simp: tx_keeps_def keeps_ok_def InsertIndexTerm_def db_ok_def hasDocument_def list_all_iff split: if_splits)

lemma mapped_rows_ok:
  assumes "\<And>r. dDocID (f r) = dDocID r"
  shows "keeps_ok s (s\<lparr>documents := map f (documents s)\<rparr>)"
  using assms by (auto simp: keeps_ok_def db_ok_def hasDocument_def comp_def)

lemma updateJobs_ok: "tx_keeps keeps_ok (updateJobs P f)"
  by (auto simp: tx_keeps_def keeps_ok_def updateJobs_def db_ok_def hasDocument_def)

lemma updateJobs_docs: "tx_keeps same_docs (updateJobs P f)"
  by (auto simp: tx_keeps_def updateJobs_def same_docs_def)

lemma Create_ok: "io_keeps keeps_ok (Create scope doc stale)"
  unfolding Create_def by (auto intro!: ok.run ok.bind ok.return deleteRows_ok InsertDocument_ok)

lemma AddChunks_ok: "io_keeps keeps_ok (AddChunks scope d cs)"
  unfolding AddChunks_def by (intro ok.run ok.each ok.wrap InsertChunk_ok)

lemma AddPagesAndTerms_ok: "io_keeps keeps_ok (AddPagesAndTerms scope d ps ts)"
  unfolding AddPagesAndTerms_def writePages_def writeTerms_def
  by (auto intro!: ok.io_return ok.run ok.bind ok.each ok.wrap UpsertPage_ok InsertIndexTerm_ok)

lemma DeleteDoc_ok: "io_keeps keeps_ok (DeleteDoc scope d)"
  unfolding DeleteDoc_def by (intro ok.run deleteRows_ok)

subsection \<open>Publishing\<close>

text \<open>A replacement in its place: the rows of \<open>from\<close> under \<open>to\<close>, and what was under \<open>to\<close> gone.\<close>

definition swapped :: "gostring \<Rightarrow> gostring \<Rightarrow> db \<Rightarrow> db" where
  "swapped from to s = s\<lparr>
     documents := filter (\<lambda>r. dDocID r \<noteq> from) (filter (\<lambda>r. dDocID r \<noteq> to) (documents s))
       @ map (\<lambda>r. r\<lparr>dDocID := to\<rparr>) (filter (\<lambda>r. dDocID r = from) (documents s)),
     chunks := map (\<lambda>c. if cDocID c = from then c\<lparr>cDocID := to\<rparr> else c)
       (filter (\<lambda>c. cDocID c \<noteq> to) (chunks s)),
     pages := map (\<lambda>(d, p, t). (if d = from then to else d, p, t)) (filter (\<lambda>p. fst p \<noteq> to) (pages s)),
     index_terms := map (\<lambda>(d, t, x). (if d = from then to else d, t, x))
       (filter (\<lambda>t. fst t \<noteq> to) (index_terms s))\<rparr>"

lemma promote_eq:
  assumes "db_ok s" "from \<noteq> to"
  shows "promote from to s = Inr ((), swapped from to s)"
proof -
  let ?t = "without to s"
  let ?copies = "map (\<lambda>r. r\<lparr>dDocID := to\<rparr>) (filter (\<lambda>r. dDocID r = from) (documents ?t))"
  have ok: "db_ok ?t" using assms(1) by (rule db_ok_without)
  have src: "filter (\<lambda>r. dDocID r = from) (documents ?t) = filter (\<lambda>r. dDocID r = from) (documents s)"
    using assms(2) by (auto simp: without_def intro!: filter_cong)
  have no_to: "\<not> hasDocument ?t to" by (auto simp: hasDocument_def without_def)
  let ?t1 = "?t\<lparr>documents := documents ?t @ ?copies\<rparr>"
  have c: "CopyDocumentAs from to ?t = Inr ((), ?t1)"
    using no_to by (simp add: CopyDocumentAs_def Let_def)
  have ex: "hasDocument ?t from \<Longrightarrow> hasDocument ?t1 to"
    by (force simp: hasDocument_def)
  have refs: "from \<in> set (map cDocID (chunks ?t)) \<or> from \<in> set (map fst (pages ?t)) \<or>
      from \<in> set (map fst (index_terms ?t)) \<Longrightarrow> hasDocument ?t1 to"
    using ok ex by (auto simp: db_ok_def list_all_iff)
  let ?ren = "\<lambda>d. if d = from then to else d"
  let ?t2 = "?t1\<lparr>chunks := map (\<lambda>c. if cDocID c = from then c\<lparr>cDocID := to\<rparr> else c) (chunks ?t)\<rparr>"
  let ?t3 = "?t2\<lparr>pages := map (\<lambda>(d, p, t). (?ren d, p, t)) (pages ?t)\<rparr>"
  let ?t4 = "?t3\<lparr>index_terms := map (\<lambda>(d, t, x). (?ren d, t, x)) (index_terms ?t)\<rparr>"
  have has: "hasDocument ?t2 to = hasDocument ?t1 to" "hasDocument ?t3 to = hasDocument ?t1 to"
    by (simp_all add: hasDocument_def)
  have m1: "MoveChunks from to ?t1 = Inr ((), ?t2)" using refs by (auto simp: MoveChunks_def)
  have "to \<notin> set (map fst (pages ?t))" by (auto simp: without_def)
  then have "\<not> list_ex (\<lambda>(d, p, _). d = from \<and> (to, p) \<in> set (map (\<lambda>(d, p, _). (d, p)) (pages ?t))) (pages ?t)"
    by (force simp: list_ex_iff)
  then have m2: "MovePages from to ?t2 = Inr ((), ?t3)"
    using refs has by (auto simp: MovePages_def)
  have m3: "MoveIndexTerms from to ?t3 = Inr ((), ?t4)"
    using refs has by (auto simp: MoveIndexTerms_def)
  have unref: "\<not> referenced ?t4 from" using assms(2) by (auto simp: referenced_def split: if_splits)
  have keep: "filter (\<lambda>r. dDocID r \<noteq> from) ?copies = ?copies"
    using assms(2) by (auto simp: filter_map comp_def)
  have "?t4\<lparr>documents := filter (\<lambda>r. dDocID r \<noteq> from) (documents ?t4)\<rparr> = swapped from to s"
    using keep by (simp add: swapped_def src) (simp add: without_def)
  then show ?thesis
    using unref unfolding promote_def tx_bind_def tx_wrap_def deleteRows_eq sum.case prod.case c m1 m2 m3
    by (simp add: DeleteDocumentOnly_def)
qed

definition renamed :: "gostring \<Rightarrow> docView \<Rightarrow> docView" where
  "renamed to v = \<lparr>vRows = map (\<lambda>r. r\<lparr>dDocID := to\<rparr>) (vRows v),
     vChunks = map (\<lambda>c. c\<lparr>cDocID := to\<rparr>) (vChunks v), vPages = map (\<lambda>p. (to, snd p)) (vPages v),
     vTerms = map (\<lambda>t. (to, snd t)) (vTerms v)\<rparr>"

lemma filter_move:
  assumes "\<And>x. x \<in> set xs \<Longrightarrow> f (g x) = (if f x = from then to else f x)"
    "\<And>x. x \<in> set xs \<Longrightarrow> f x \<noteq> from \<Longrightarrow> g x = x" "from \<noteq> to"
  shows "filter (\<lambda>x. f x = e) (map g (filter (\<lambda>x. f x \<noteq> to) xs)) =
    (if e = to then map g (filter (\<lambda>x. f x = from) xs) else if e = from then [] else filter (\<lambda>x. f x = e) xs)"
  using assms by (induction xs) auto

lemma view_swapped:
  assumes "from \<noteq> to"
  shows "view (swapped from to s) e =
    (if e = to then renamed to (view s from) else if e = from then emptyView else view s e)"
proof -
  let ?g = "\<lambda>c. if cDocID c = from then c\<lparr>cDocID := to\<rparr> else c"
  have c: "filter (\<lambda>c. cDocID c = e) (map ?g (filter (\<lambda>c. cDocID c \<noteq> to) (chunks s))) =
      (if e = to then map ?g (filter (\<lambda>c. cDocID c = from) (chunks s)) else if e = from then []
       else filter (\<lambda>c. cDocID c = e) (chunks s))"
    using assms by (intro filter_move) auto
  have p: "filter (\<lambda>x. fst x = e) (map (\<lambda>(d, q). (if d = from then to else d, q)) (filter (\<lambda>x. fst x \<noteq> to) xs)) =
      (if e = to then map (\<lambda>(d, q). (if d = from then to else d, q)) (filter (\<lambda>x. fst x = from) xs)
       else if e = from then [] else filter (\<lambda>x. fst x = e) xs)" for xs :: "(gostring \<times> 'b) list"
    using assms by (intro filter_move) auto
  have m: "map (\<lambda>(d, q). (if d = from then to else d, q)) (filter (\<lambda>x. fst x = from) xs)
      = map (\<lambda>x. (to, snd x)) (filter (\<lambda>x. fst x = from) xs)" for xs :: "(gostring \<times> 'b) list"
    by (induction xs) auto
  have mc: "map ?g (filter (\<lambda>c. cDocID c = from) (chunks s)) =
      map (\<lambda>c. c\<lparr>cDocID := to\<rparr>) (filter (\<lambda>c. cDocID c = from) (chunks s))" by simp
  have split3: "(\<lambda>(d, p, t). (if d = from then to else d, p, t)) = (\<lambda>(d, q). (if d = from then to else d, q))"
    by (auto simp: fun_eq_iff)
  have r: "filter (\<lambda>r. dDocID r = e) (documents (swapped from to s)) =
      (if e = to then map (\<lambda>r. r\<lparr>dDocID := to\<rparr>) (filter (\<lambda>r. dDocID r = from) (documents s))
       else if e = from then [] else filter (\<lambda>r. dDocID r = e) (documents s))"
    using assms by (auto simp: swapped_def filter_map comp_def filter_empty_conv intro!: filter_cong)
  show ?thesis
    unfolding view_def renamed_def emptyView_def r
    using c p[of "pages s"] p[of "index_terms s"] m[of "pages s"] m[of "index_terms s"] mc
    by (simp add: swapped_def split3)
qed

lemma distinct_one_key:
  "distinct (map f xs) \<Longrightarrow> distinct (map g (filter (\<lambda>x. f x = a) xs))"
proof (induction xs)
  case (Cons x xs)
  show ?case
  proof (cases "f x = a")
    case True
    with Cons.prems have "filter (\<lambda>x. f x = a) xs = []"
      by (auto simp: filter_empty_conv image_iff)
    with True show ?thesis by simp
  qed (use Cons in auto)
qed simp

lemma db_ok_swapped:
  assumes "db_ok s" "from \<noteq> to"
  shows "db_ok (swapped from to s)"
proof -
  let ?s = "swapped from to s"
  have ids: "hasDocument ?s d \<longleftrightarrow> (d \<noteq> from \<and> d \<noteq> to \<and> hasDocument s d) \<or> (d = to \<and> hasDocument s from)" for d
    by (auto simp: hasDocument_def swapped_def image_iff)
  have d: "distinct (map dDocID (documents s))" using assms(1) by (simp add: db_ok_def)
  have "distinct (map dDocID (documents ?s))"
    using d distinct_one_key[OF d, of "\<lambda>_. to"] by (auto simp: swapped_def comp_def filter_distinct_map)
  moreover have "distinct (map (\<lambda>(d, p, _). (d, p)) (pages ?s))"
  proof -
    have dp: "distinct (map (\<lambda>(d, p, _). (d, p)) (pages s))" using assms(1) by (simp add: db_ok_def)
    have "inj_on (\<lambda>(d, p). (if d = from then to else d, p)) (set (map (\<lambda>(d, p, _). (d, p)) (filter (\<lambda>p. fst p \<noteq> to) (pages s))))"
      by (auto simp: inj_on_def split: if_splits)
    moreover have "map (\<lambda>(d, p, _). (d, p)) (pages ?s) =
        map (\<lambda>(d, p). (if d = from then to else d, p)) (map (\<lambda>(d, p, _). (d, p)) (filter (\<lambda>p. fst p \<noteq> to) (pages s)))"
      by (simp add: swapped_def comp_def case_prod_unfold)
    ultimately show ?thesis using filter_distinct_map[OF dp] by (simp only: distinct_map)
  qed
  moreover have "list_all (\<lambda>c. hasDocument ?s (cDocID c)) (chunks ?s)"
    "list_all (\<lambda>p. hasDocument ?s (fst p)) (pages ?s)" "list_all (\<lambda>t. hasDocument ?s (fst t)) (index_terms ?s)"
    unfolding ids using assms by (auto simp: db_ok_def list_all_iff swapped_def split: if_splits)
  ultimately show ?thesis unfolding db_ok_def by blast
qed

text \<open>What \<^verbatim>\<open>MarkReady\<close> commits: the rows written under \<open>rdDocID\<close>, published under their own identifier or
  in the place of the document they replace.\<close>

definition publishAs :: "Ready \<Rightarrow> gostring" where
  "publishAs ready = (if rdReplaces ready = [] then rdDocID ready else rdReplaces ready)"

definition publishRow :: "Ready \<Rightarrow> docRow \<Rightarrow> docRow" where
  "publishRow ready r = r\<lparr>dStatus := Published, dChunkCount := Some (Narrow (rdChunkCount ready)),
     dIngestedAt := Some (rdIngestedAt ready), dWarnings := rdWarnings ready\<rparr>"

definition published_db :: "Ready \<Rightarrow> db \<Rightarrow> db" where
  "published_db ready s =
     (let t = (if rdReplaces ready = [] then s else swapped (rdDocID ready) (rdReplaces ready) s)
      in t\<lparr>documents := map (\<lambda>r. if dDocID r = publishAs ready then publishRow ready r else r) (documents t)\<rparr>)"

lemma publishRow_docID [simp]: "dDocID (publishRow ready r) = dDocID r"
  by (simp add: publishRow_def)

lemma MarkReady_committed:
  assumes "MarkReady scope ready w = (Inr a, w')" "db_ok (wDB w)" "rdDocID ready \<noteq> rdReplaces ready"
  shows "same_docs (published_db ready (wDB w)) (wDB w')"
    and "\<And>jid. rdJobID ready = Some jid \<Longrightarrow>
       list_ex (fence jid (Narrow (rdJobAttempt ready))) (jobs (wDB w)) \<and>
       jobs (wDB w') = map (\<lambda>j. if fence jid (Narrow (rdJobAttempt ready)) j
         then j\<lparr>jStatus := Done, jPhase := None, jDocID := nullString (publishAs ready), jError := None,
                jWarnings := rdWarnings ready, jLeaseUntil := None, jUpdatedAt := now (wDB w)\<rparr> else j) (jobs (wDB w))"
    and "rdJobID ready = None \<Longrightarrow> jobs (wDB w') = jobs (wDB w)"
proof -
  have sw: "swapIn ready (wDB w) = Inr (publishAs ready,
      if rdReplaces ready = [] then wDB w else swapped (rdDocID ready) (rdReplaces ready) (wDB w))"
    using assms(2,3) by (simp add: swapIn_def tx_bind_def tx_return_def promote_eq publishAs_def)
  have jb: "jobs (swapped f t s) = jobs s" "now (swapped f t s) = now s" for f t s by (simp_all add: swapped_def)
  from assms(1) obtain b where "tx_bind (swapIn ready) (\<lambda>published.
       tx_bind (tx_wrap (lit ''publish '' @ published)
         (MarkDocumentReady (Narrow (rdChunkCount ready)) (rdIngestedAt ready) (rdWarnings ready) published)) (\<lambda>_.
       case rdJobID ready of
         None \<Rightarrow> tx_return ()
       | Some jid \<Rightarrow> fenced (CompleteJob (nullString published) (rdWarnings ready) jid
           (Narrow (rdJobAttempt ready))))) (wDB w) = Inr (b, wDB w')"
    unfolding MarkReady_def by (cases rule: Run_cases) auto
  then have m: "(case rdJobID ready of
         None \<Rightarrow> tx_return ()
       | Some jid \<Rightarrow> fenced (CompleteJob (nullString (publishAs ready)) (rdWarnings ready) jid
           (Narrow (rdJobAttempt ready)))) (published_db ready (wDB w)) = Inr (b, wDB w')"
    unfolding tx_bind_def sw tx_wrap_def MarkDocumentReady_def published_db_def publishRow_def Let_def
      sum.case prod.case .
  have pj: "jobs (published_db ready (wDB w)) = jobs (wDB w)" "now (published_db ready (wDB w)) = now (wDB w)"
    by (simp_all add: published_db_def Let_def jb)
  have fn: "fenced (CompleteJob d ws jid at') s = Inr (b, s') \<Longrightarrow>
      list_ex (fence jid at') (jobs s) \<and> same_docs s s' \<and>
      jobs s' = map (\<lambda>j. if fence jid at' j
         then j\<lparr>jStatus := Done, jPhase := None, jDocID := d, jError := None,
                jWarnings := ws, jLeaseUntil := None, jUpdatedAt := now s\<rparr> else j) (jobs s)" for d ws jid at' s s'
    by (auto simp: fenced_def tx_bind_def CompleteJob_def updateJobs_def tx_return_def same_docs_def list_ex_iff
      filter_empty_conv split: if_splits)
  show "same_docs (published_db ready (wDB w)) (wDB w')"
    using m fn by (auto simp: tx_return_def docs.refl split: option.splits)
  show "rdJobID ready = None \<Longrightarrow> jobs (wDB w') = jobs (wDB w)"
    using m pj by (auto simp: tx_return_def)
  fix jid assume "rdJobID ready = Some jid"
  with m fn[of _ _ jid "Narrow (rdJobAttempt ready)" "published_db ready (wDB w)" "wDB w'"] pj
  show "list_ex (fence jid (Narrow (rdJobAttempt ready))) (jobs (wDB w)) \<and>
       jobs (wDB w') = map (\<lambda>j. if fence jid (Narrow (rdJobAttempt ready)) j
         then j\<lparr>jStatus := Done, jPhase := None, jDocID := nullString (publishAs ready), jError := None,
                jWarnings := rdWarnings ready, jLeaseUntil := None, jUpdatedAt := now (wDB w)\<rparr> else j) (jobs (wDB w))"
    by simp
qed

lemma view_same_docs: "same_docs s s' \<Longrightarrow> view s' e = view s e"
  by (simp add: same_docs_def view_def)

lemma map_same_key: "map (\<lambda>p. (d, snd p)) (filter (\<lambda>p. fst p = d) ps) = filter (\<lambda>p. fst p = d) ps"
  by (induction ps) auto

lemma renamed_self: "renamed d (view s d) = view s d"
proof -
  have "map (\<lambda>r. r\<lparr>dDocID := d\<rparr>) (filter (\<lambda>r. dDocID r = d) rs) = filter (\<lambda>r. dDocID r = d) rs"
    for rs :: "docRow list" by (induction rs) auto
  moreover have "map (\<lambda>r. r\<lparr>cDocID := d\<rparr>) (filter (\<lambda>r. cDocID r = d) rs) = filter (\<lambda>r. cDocID r = d) rs"
    for rs :: "chunkRow list" by (induction rs) auto
  ultimately show ?thesis by (simp add: renamed_def view_def map_same_key)
qed

lemma view_published:
  assumes "rdDocID ready \<noteq> rdReplaces ready"
  shows "view (published_db ready s) e =
    (if e = publishAs ready
     then (let v = renamed e (view s (rdDocID ready)) in v\<lparr>vRows := map (publishRow ready) (vRows v)\<rparr>)
     else if e = rdDocID ready then emptyView else view s e)"
proof -
  let ?t = "if rdReplaces ready = [] then s else swapped (rdDocID ready) (rdReplaces ready) s"
  have t: "view ?t e = (if e = publishAs ready then renamed e (view s (rdDocID ready))
      else if e = rdDocID ready then emptyView else view s e)"
  proof (cases "rdReplaces ready = []")
    case True
    then show ?thesis by (auto simp: publishAs_def renamed_self)
  next
    case False
    with assms show ?thesis by (simp add: view_swapped publishAs_def)
  qed
  let ?f = "\<lambda>r. if dDocID r = publishAs ready then publishRow ready r else r"
  have "filter (\<lambda>r. dDocID r = e) (map ?f rs) =
      (if e = publishAs ready then map (publishRow ready) (filter (\<lambda>r. dDocID r = e) rs)
       else filter (\<lambda>r. dDocID r = e) rs)" for rs
    by (induction rs) auto
  then have "view (published_db ready s) e =
      (if e = publishAs ready then (view ?t e)\<lparr>vRows := map (publishRow ready) (vRows (view ?t e))\<rparr> else view ?t e)"
    by (auto simp: published_db_def Let_def view_def)
  then show ?thesis unfolding t by (simp add: Let_def)
qed

lemma CopyDocumentAs_ok: "tx_keeps keeps_ok (CopyDocumentAs from to)"
proof (rule tx_keepsI)
  fix s a s' assume c: "CopyDocumentAs from to s = Inr (a, s')"
  let ?copies = "map (\<lambda>d. d\<lparr>dDocID := to\<rparr>) (filter (\<lambda>d. dDocID d = from) (documents s))"
  have s': "s' = s\<lparr>documents := documents s @ ?copies\<rparr>" and new: "?copies \<noteq> [] \<Longrightarrow> \<not> hasDocument s to"
    using c by (auto simp: CopyDocumentAs_def Let_def split: if_splits)
  have "distinct (map dDocID (documents s'))" if ok: "db_ok s"
  proof -
    have d: "distinct (map dDocID (documents s))" using ok by (simp add: db_ok_def)
    have "distinct (map dDocID ?copies)" using distinct_one_key[OF d, of "\<lambda>_. to"] by (simp add: comp_def)
    moreover have "set (map dDocID (documents s)) \<inter> set (map dDocID ?copies) = {}"
      using new by (cases "?copies = []") (auto simp: hasDocument_def)
    moreover have "documents s' = documents s @ ?copies" by (simp add: s')
    ultimately show ?thesis using d by (simp only: map_append distinct_append)
  qed
  moreover have "hasDocument s e \<Longrightarrow> hasDocument s' e" for e by (auto simp: hasDocument_def s')
  ultimately show "keeps_ok s s'" by (auto simp: keeps_ok_def db_ok_def s' list_all_iff)
qed

lemma MoveChunks_ok: "tx_keeps keeps_ok (MoveChunks from to)"
proof (rule tx_keepsI)
  fix s a s' assume m: "MoveChunks from to s = Inr (a, s')"
  have s': "s' = s\<lparr>chunks := map (\<lambda>c. if cDocID c = from then c\<lparr>cDocID := to\<rparr> else c) (chunks s)\<rparr>"
    and fk: "from \<in> set (map cDocID (chunks s)) \<Longrightarrow> hasDocument s to"
    using m by (auto simp: MoveChunks_def split: if_splits)
  have "hasDocument s (cDocID c)" if "db_ok s" "c \<in> set (chunks s')" for c
    using that fk by (auto simp: s' db_ok_def list_all_iff split: if_splits)
  then show "keeps_ok s s'"
    unfolding keeps_ok_def by (auto simp: db_ok_def hasDocument_def s' list_all_iff)
qed

lemma MoveIndexTerms_ok: "tx_keeps keeps_ok (MoveIndexTerms from to)"
proof (rule tx_keepsI)
  fix s a s' assume m: "MoveIndexTerms from to s = Inr (a, s')"
  have s': "s' = s\<lparr>index_terms := map (\<lambda>(d, t, x). (if d = from then to else d, t, x)) (index_terms s)\<rparr>"
    and fk: "from \<in> set (map fst (index_terms s)) \<Longrightarrow> hasDocument s to"
    using m by (auto simp: MoveIndexTerms_def split: if_splits)
  have "hasDocument s (fst t)" if "db_ok s" "t \<in> set (index_terms s')" for t
    using that fk by (force simp: s' db_ok_def list_all_iff split: if_splits)
  then show "keeps_ok s s'"
    unfolding keeps_ok_def by (auto simp: db_ok_def hasDocument_def s' list_all_iff)
qed

lemma DeleteDocumentOnly_ok: "tx_keeps keeps_ok (DeleteDocumentOnly d)"
proof (rule tx_keepsI)
  fix s a s' assume m: "DeleteDocumentOnly d s = Inr (a, s')"
  then have s': "s' = s\<lparr>documents := filter (\<lambda>r. dDocID r \<noteq> d) (documents s)\<rparr>" and un: "\<not> referenced s d"
    by (auto simp: DeleteDocumentOnly_def split: if_splits)
  have has: "e \<noteq> d \<Longrightarrow> hasDocument s e \<Longrightarrow> hasDocument s' e" for e by (auto simp: hasDocument_def s')
  have "c \<in> set (chunks s) \<Longrightarrow> cDocID c \<noteq> d" "p \<in> set (pages s) \<Longrightarrow> fst p \<noteq> d"
    "t \<in> set (index_terms s) \<Longrightarrow> fst t \<noteq> d" for c p t
    using un by (auto simp: referenced_def)
  then have "list_all (\<lambda>c. hasDocument s' (cDocID c)) (chunks s)" "list_all (\<lambda>p. hasDocument s' (fst p)) (pages s)"
    "list_all (\<lambda>t. hasDocument s' (fst t)) (index_terms s)" if "db_ok s"
    using that has unfolding db_ok_def list_all_iff by blast+
  then show "keeps_ok s s'"
    unfolding keeps_ok_def by (simp add: db_ok_def s' filter_distinct_map)
qed

lemma MovePages_ok: "tx_keeps keeps_ok (MovePages from to)"
proof (rule tx_keepsI)
  fix s a s' assume m: "MovePages from to s = Inr (a, s')"
  let ?key = "\<lambda>(d, p, _). (d, p)" and ?ren = "\<lambda>(d, p). (if d = from then to else d, p)"
  show "keeps_ok s s'"
    unfolding keeps_ok_def
  proof
    assume ok: "db_ok s"
    have s': "s' = s\<lparr>pages := map (\<lambda>(d, p, t). (if d = from then to else d, p, t)) (pages s)\<rparr>"
      and fk: "from \<in> set (map fst (pages s)) \<Longrightarrow> hasDocument s to"
      and clash: "from \<noteq> to \<Longrightarrow> \<forall>(d, p, t)\<in>set (pages s). d = from \<longrightarrow> (to, p) \<notin> set (map ?key (pages s))"
      using m unfolding MovePages_def list_ex_iff by (simp_all split: if_splits prod.splits) blast
    have "map ?key (pages s') = map ?ren (map ?key (pages s))" by (simp add: s' comp_def case_prod_unfold)
    moreover have "inj_on ?ren (set (map ?key (pages s)))"
      using clash by (cases "from = to") (force simp: inj_on_def split: if_splits)+
    moreover have "distinct (map ?key (pages s))" using ok by (simp add: db_ok_def)
    ultimately have "distinct (map ?key (pages s'))" by (simp only: distinct_map)
    moreover have "list_all (\<lambda>p. hasDocument s (fst p)) (pages s')"
      using ok fk by (force simp: db_ok_def list_all_iff s' split: if_splits)
    ultimately show "db_ok s'" using ok by (simp add: db_ok_def hasDocument_def s')
  qed
qed

lemma promote_ok: "tx_keeps keeps_ok (promote from to)"
  unfolding promote_def
  by (intro ok.bind ok.wrap deleteRows_ok CopyDocumentAs_ok MoveChunks_ok MovePages_ok MoveIndexTerms_ok
    DeleteDocumentOnly_ok)

lemma MarkReady_ok: "io_keeps keeps_ok (MarkReady scope ready)"
proof -
  have "tx_keeps keeps_ok (swapIn ready)"
    unfolding swapIn_def by (auto intro: ok.return ok.bind promote_ok)
  moreover have "tx_keeps keeps_ok (MarkDocumentReady a b c d)" for a b c d
    unfolding MarkDocumentReady_def tx_keeps_def by (auto intro!: mapped_rows_ok)
  moreover have "tx_keeps keeps_ok (CompleteJob a b c d)" for a b c d
    unfolding CompleteJob_def using updateJobs_ok by (auto simp: tx_keeps_def)
  ultimately show ?thesis
    unfolding MarkReady_def
    by (intro ok.run ok.bind ok.wrap) (auto intro!: ok.return ok.fenced ok.bind ok.wrap split: option.splits)
qed

lemma Confirm_ok: "io_keeps keeps_ok (Confirm scope d t)"
  unfolding Confirm_def by (rule ok.run) (auto simp: tx_keeps_def ConfirmDocument_def intro!: mapped_rows_ok)

subsection \<open>Prefixes\<close>

lemma like_any: "like [37] s"
proof (induction s)
  case Nil
  then show ?case by (simp add: like.simps[of "[37]" "[]"] like.simps[of "[]" "[]"])
next
  case (Cons c s)
  then show ?case by (subst like.simps) simp
qed

lemma like_escaped:
  "like (likeEscape r @ p) s \<longleftrightarrow> (\<exists>s'. s = r # s' \<and> like p s')"
proof (cases "r = 92 \<or> r = 37 \<or> r = 95")
  case True
  then have "like (likeEscape r @ p) s = (case s of [] \<Rightarrow> False | x # s' \<Rightarrow> x = r \<and> like p s')"
    by (subst like.simps) (auto simp: likeEscape_def split: list.splits)
  then show ?thesis by (cases s) auto
next
  case False
  then have "like (likeEscape r @ p) s = (case s of [] \<Rightarrow> False | x # s' \<Rightarrow> x = r \<and> like p s')"
    by (subst like.simps) (auto simp: likeEscape_def split: list.splits)
  then show ?thesis by (cases s) auto
qed

lemma like_likePrefix: "like (likePrefix p) s \<longleftrightarrow> has_prefix s p"
  unfolding likePrefix_def
proof (induction p arbitrary: s)
  case Nil
  then show ?case by (simp add: like_any has_prefix_def)
next
  case (Cons r p)
  then show ?case by (auto simp: like_escaped has_prefix_iff)
qed

lemma same_docs_ok: "same_docs s s' \<Longrightarrow> keeps_ok s s'"
  by (simp add: same_docs_def keeps_ok_def db_ok_def hasDocument_def)

lemma same_docs_has: "same_docs s s' \<Longrightarrow> hasDocument s' d = hasDocument s d"
  by (simp add: same_docs_def hasDocument_def)

lemma searchable_has: "searchable s d \<Longrightarrow> hasDocument s d"
  by (auto simp: searchable_def hasDocument_def list_ex_iff)

text \<open>Reads leave everything as it was.\<close>

lemma read_keeps:
  "tx_keeps same_docs (ReadyDocumentWithDigest dg)" "tx_keeps same_docs (CountDocumentChunks d)"
  "tx_keeps same_docs (DocIDForSourcePath p)" "tx_keeps same_docs (DocIDsWithPrefixRows q)"
  by (auto simp: tx_keeps_def ReadyDocumentWithDigest_def CountDocumentChunks_def DocIDForSourcePath_def
    DocIDsWithPrefixRows_def docs.refl split: option.splits)

lemma ReadyWithDigest_docs: "io_keeps same_docs (ReadyWithDigest um scope dg)"
  unfolding io_keeps_def ReadyWithDigest_def Read_def
  using io_keepsD[OF docs.run[OF read_keeps(1)]] io_keepsD[OF docs.run[OF read_keeps(2)]] docs.trans
  by (auto split: prod.splits sum.splits if_splits) (metis docs.trans)+

lemma DocIDForIdentity_docs: "io_keeps same_docs (DocIDForIdentity scope i)"
  unfolding io_keeps_def DocIDForIdentity_def Read_def
  using io_keepsD[OF docs.run[OF read_keeps(3)]]
  by (auto split: prod.splits sum.splits if_splits)

lemma DocIDsWithPrefix_docs: "io_keeps same_docs (DocIDsWithPrefix scope p)"
  unfolding DocIDsWithPrefix_def Read_def by (intro docs.io_wrap docs.run read_keeps)

lemma DocIDsWithPrefix_taken:
  assumes "DocIDsWithPrefix scope p w = (Inr taken, w')"
  shows "set taken = {d. hasDocument (wDB w) d \<and> has_prefix d p}"
proof -
  from assms have "Run scope (DocIDsWithPrefixRows (likePrefix p)) w = (Inr taken, w')"
    by (auto simp: DocIDsWithPrefix_def Read_def io_wrap_def split: prod.splits sum.splits)
  then have "DocIDsWithPrefixRows (likePrefix p) (wDB w) = Inr (taken, wDB w')"
    by (cases rule: Run_cases) auto
  then show ?thesis by (auto simp: DocIDsWithPrefixRows_def like_likePrefix hasDocument_def)
qed

end
