(* ===== verification/Ingest_Props.thy ===== *)
theory Ingest_Props
  imports Ingest Store_Props Chunking_Props
begin

text \<open>
  Properties of the ingest: the identifiers it chooses, what a failed or cancelled run leaves behind,
  and what a finished one publishes.
\<close>

subsection \<open>Identifiers\<close>

lemma nextFreeFrom_props:
  "\<exists>m\<ge>n. nextFreeFrom base taken n = numbered base m \<and> numbered base m \<notin> set taken \<and>
     (\<forall>k. n \<le> k \<and> k < m \<longrightarrow> numbered base k \<in> set taken)"
proof (induction base taken n rule: nextFreeFrom.induct)
  case (1 base taken n)
  show ?case
  proof (cases "numbered base n \<notin> set taken")
    case True
    then show ?thesis by (subst nextFreeFrom.simps) (auto intro!: exI[of _ n])
  next
    case False
    with 1 obtain m where "m \<ge> Suc n" "nextFreeFrom base taken (Suc n) = numbered base m"
      "numbered base m \<notin> set taken" "\<forall>k. Suc n \<le> k \<and> k < m \<longrightarrow> numbered base k \<in> set taken" by blast
    moreover have "n \<le> k \<Longrightarrow> k = n \<or> Suc n \<le> k" for k by linarith
    ultimately show ?thesis
      using False by (subst nextFreeFrom.simps) (metis Suc_leD)
  qed
qed

lemma nextFree_fresh: "nextFree base taken \<notin> set taken \<and> has_prefix (nextFree base taken) base"
  using nextFreeFrom_props[of 2 base taken]
  by (auto simp: nextFree_def numbered_def has_prefix_iff)

lemma replace_runs_set: "r \<in> set (replace_runs P w s) \<Longrightarrow> r \<in> set w \<or> (r \<in> set s \<and> \<not> P r)"
proof (induction P w s rule: replace_runs.induct)
  case (2 P w c s)
  then show ?case by (auto split: if_splits dest: set_dropWhileD)
qed simp

lemma set_trim_func: "set (trim_func P s) \<subseteq> set s"
  unfolding trim_func_def using set_dropWhileD by (metis set_rev subsetI)

lemma Slugify_runes: "r \<in> set (Slugify C title) \<Longrightarrow> slugRune r \<or> r = 45"
proof -
  assume r: "r \<in> set (Slugify C title)"
  have "r \<in> set (lit ''document'') \<Longrightarrow> slugRune r" by (auto simp: lit_def slugRune_def)
  then show ?thesis
    using r by (auto simp: Slugify_def Let_def split: if_splits dest!: set_trim_func[THEN subsetD] replace_runs_set)
qed

lemma Slugify_shape:
  "Slugify C title \<noteq> []" "hd (Slugify C title) \<noteq> 45" "last (Slugify C title) \<noteq> 45"
proof -
  let ?s = "replace_runs (\<lambda>r. \<not> slugRune r) [45] (filter (\<lambda>r. r < 128) (map (uToLower (cdUnicode C))
     (case cdStripMarks C title of Inl _ \<Rightarrow> title | Inr t \<Rightarrow> t)))"
  have eq: "Slugify C title = (if trim_func (\<lambda>r. r = 45) ?s = [] then lit ''document'' else trim_func (\<lambda>r. r = 45) ?s)"
    by (simp add: Slugify_def Let_def)
  show "Slugify C title \<noteq> []" by (simp add: eq lit_def)
  show "hd (Slugify C title) \<noteq> 45" "last (Slugify C title) \<noteq> 45"
    using trim_func_ends[of "\<lambda>r. r = 45" ?s] by (auto simp: eq lit_def)
qed

lemma tilde_not_in_fresh:
  assumes "126 \<notin> set base"
  shows "126 \<notin> set (nextFree base taken)"
proof -
  have "126 \<notin> set (show_nat n)" for n
  proof (induction n rule: show_nat.induct)
    case (1 n)
    then show ?case by (cases "n < 10") (auto simp: show_nat_small show_nat_ge)
  qed
  then show ?thesis
    using assms nextFreeFrom_props[of 2 base taken] by (auto simp: nextFree_def numbered_def)
qed

subsection \<open>What the write path touches\<close>

text \<open>The source and the callbacks write no document rows: a source reads, a progress callback writes
  the job.\<close>

definition quiet_opts :: "Options \<Rightarrow> bool" where
  "quiet_opts opts \<longleftrightarrow> (\<forall>p a b w. same_docs (wDB w) (wDB (optProgress opts p a b w))) \<and>
     (\<forall>d w. same_docs (wDB w) (wDB (optOnDocID opts d w)))"

definition quiet_source :: "Source \<Rightarrow> bool" where
  "quiet_source src \<longleftrightarrow> io_keeps same_docs (srcAcquire src) \<and> io_keeps same_docs (srcExtract src)"

lemma quiet_optsD:
  "quiet_opts opts \<Longrightarrow> same_docs (wDB w) (wDB (optProgress opts p a b w))"
  "quiet_opts opts \<Longrightarrow> same_docs (wDB w) (wDB (optOnDocID opts d w))"
  by (simp_all add: quiet_opts_def)

lemma fillBatches_done: "length cs \<le> start \<Longrightarrow> fillBatches scope opts d cs start w = (Inr (), w)"
  by (subst fillBatches.simps) simp

lemma fillBatches_step:
  assumes "\<not> length cs \<le> start" "ctxErr w = (c, w1)"
  shows "fillBatches scope opts d cs start w =
    (if c then (Inl (Sentinel ErrCancelled), w1)
     else let end' = min (start + chunkBatch) (length cs)
          in case AddChunks scope d (take (end' - start) (drop start cs)) w1 of
               (Inl e, w) \<Rightarrow> (Inl (Errorf (lit ''write chunks '' @ show_nat start @ lit '' to '' @ show_nat end') e), w)
             | (Inr _, w) \<Rightarrow>
                 fillBatches scope opts d cs (start + chunkBatch)
                   (optProgress opts PhaseIndex (int end') (int (length cs)) w))"
  using assms by (subst fillBatches.simps) simp

text \<open>One loop rule for both relations the batches keep.\<close>

lemma fillBatches_keeps:
  assumes R: "store_relation R" and q: "quiet_opts opts" "\<And>s s'. same_docs s s' \<Longrightarrow> R s s'"
    and add: "\<And>cs. io_keeps R (AddChunks scope d cs)"
  shows "fillBatches scope opts d cs start w = (r, w') \<Longrightarrow> R (wDB w) (wDB w')"
proof (induction "length cs - start" arbitrary: start w rule: less_induct)
  case less
  obtain c w1 where ctx: "ctxErr w = (c, w1)" by force
  then have w1: "wDB w1 = wDB w" by (metis ctxErr_db snd_conv)
  let ?stop = "min (start + chunkBatch) (length cs)"
  obtain x w2 where ac: "AddChunks scope d (take (?stop - start) (drop start cs)) w1 = (x, w2)" by force
  then have R2: "R (wDB w) (wDB w2)" using io_keepsD[OF add ac] w1 by simp
  show ?case
  proof (cases "length cs \<le> start \<or> c \<or> (\<exists>e. x = Inl e)")
    case True
    then show ?thesis
      using less.prems ac R2 w1 store_relation.refl[OF R] fillBatches_step[OF _ ctx]
      by (cases "length cs \<le> start") (auto simp: fillBatches_done Let_def split: if_splits)
  next
    case False
    then obtain u where x: "x = Inr u" by (cases x) auto
    let ?w3 = "optProgress opts PhaseIndex (int ?stop) (int (length cs)) w2"
    have "fillBatches scope opts d cs (start + chunkBatch) ?w3 = (r, w')"
      using less.prems ac False x fillBatches_step[OF _ ctx] by (simp add: Let_def)
    moreover have "length cs - (start + chunkBatch) < length cs - start"
      using False by (auto simp: chunkBatch_def)
    ultimately have "R (wDB ?w3) (wDB w')" using less.hyps by blast
    moreover have "R (wDB w2) (wDB ?w3)" using q quiet_optsD(1) by blast
    ultimately show ?thesis using R2 store_relation.trans[OF R] by blast
  qed
qed

text \<open>A successful loop has appended every chunk, in order, under the identifier written to.\<close>

lemma tx_each_InsertChunk:
  "tx_each (\<lambda>c. tx_wrap (f c) (InsertChunk (chunkParams d c))) cs s = Inr (a, s') \<Longrightarrow>
     s' = s\<lparr>chunks := chunks s @ map (chunkParams d) cs\<rparr>"
proof (induction cs arbitrary: s)
  case (Cons c cs)
  from Cons.prems have "tx_wrap (f c) (InsertChunk (chunkParams d c)) s = Inr ((), s\<lparr>chunks := chunks s @ [chunkParams d c]\<rparr>)"
    by (auto simp: tx_bind_def tx_wrap_def InsertChunk_def split: if_splits)
  with Cons.prems have "tx_each (\<lambda>c. tx_wrap (f c) (InsertChunk (chunkParams d c))) cs
      (s\<lparr>chunks := chunks s @ [chunkParams d c]\<rparr>) = Inr (a, s')"
    by (simp add: tx_bind_def)
  from Cons.IH[OF this] show ?case by simp
qed (simp add: tx_return_def)

lemma AddChunks_committed:
  assumes "AddChunks scope d cs w = (Inr a, w')"
  shows "wDB w' = (wDB w)\<lparr>chunks := chunks (wDB w) @ map (chunkParams d) cs\<rparr>"
  using assms tx_each_InsertChunk unfolding AddChunks_def by (cases rule: Run_cases) auto

lemma fillBatches_committed:
  assumes "quiet_opts opts"
  shows "fillBatches scope opts d cs start w = (Inr (), w') \<Longrightarrow>
    documents (wDB w') = documents (wDB w) \<and> pages (wDB w') = pages (wDB w) \<and>
    index_terms (wDB w') = index_terms (wDB w) \<and>
    chunks (wDB w') = chunks (wDB w) @ map (chunkParams d) (drop start cs)"
proof (induction "length cs - start" arbitrary: start w rule: less_induct)
  case less
  obtain c w1 where ctx: "ctxErr w = (c, w1)" by force
  then have w1: "wDB w1 = wDB w" by (metis ctxErr_db snd_conv)
  let ?stop = "min (start + chunkBatch) (length cs)"
  let ?batch = "take (?stop - start) (drop start cs)"
  show ?case
  proof (cases "length cs \<le> start")
    case True
    with less.prems show ?thesis by (simp add: fillBatches_done)
  next
    case False
    with less.prems fillBatches_step[OF _ ctx] obtain u w2 where ac: "AddChunks scope d ?batch w1 = (Inr u, w2)"
      and rest: "fillBatches scope opts d cs (start + chunkBatch)
        (optProgress opts PhaseIndex (int ?stop) (int (length cs)) w2) = (Inr (), w')"
      by (auto simp: Let_def split: if_splits prod.splits sum.splits)
    have "length cs - (start + chunkBatch) < length cs - start" using False by (auto simp: chunkBatch_def)
    note ih = less.hyps[OF this rest]
    have batch: "?batch @ drop (start + chunkBatch) cs = drop start cs"
    proof (cases "start + chunkBatch \<le> length cs")
      case True
      then show ?thesis by simp (metis add.commute append_take_drop_id drop_drop)
    qed (use False in simp)
    have "same_docs (wDB w2) (wDB (optProgress opts PhaseIndex (int ?stop) (int (length cs)) w2))"
      using assms by (rule quiet_optsD)
    moreover have "map (chunkParams d) (drop start cs) =
        map (chunkParams d) ?batch @ map (chunkParams d) (drop (start + chunkBatch) cs)"
      by (metis batch map_append)
    ultimately show ?thesis using ih AddChunks_committed[OF ac] w1 by (simp add: same_docs_def)
  qed
qed


lemma fillBatches_staging:
  "quiet_opts opts \<Longrightarrow> fillBatches scope opts d cs start w = (r, w') \<Longrightarrow> staging_step d (wDB w) (wDB w')"
  by (rule fillBatches_keeps[OF staging.store_relation_axioms]) (auto intro: same_docs_staging AddChunks_staging)

lemma fillBatches_ok:
  "quiet_opts opts \<Longrightarrow> fillBatches scope opts d cs start w = (r, w') \<Longrightarrow> keeps_ok (wDB w) (wDB w')"
  by (rule fillBatches_keeps[OF ok.store_relation_axioms]) (auto intro: same_docs_ok AddChunks_ok)

text \<open>\<^verbatim>\<open>fill\<close> up to publication, then \<^verbatim>\<open>MarkReady\<close>.\<close>

definition readyFor :: "Codecs \<Rightarrow> prepared \<Rightarrow> gostring \<Rightarrow> Options \<Rightarrow> (string \<times> any) list \<Rightarrow> int \<Rightarrow> Ready" where
  "readyFor C p writeID opts payload t = \<lparr>rdJobID = optJobID opts, rdIngestedAt = t,
     rdDocID = writeID, rdReplaces = prReplacing p, rdWarnings = cdMarshal C payload,
     rdJobAttempt = optJobAttempt opts, rdChunkCount = int (length (prChunks p))\<rparr>"

lemma fill_failed:
  assumes "quiet_opts opts" "fill C scope p d opts w = (Inl e, w')"
  shows "staging_step d (wDB w) (wDB w')" "keeps_ok (wDB w) (wDB w')"
proof -
  obtain r1 w1 where f1: "fillBatches scope opts d (prChunks p) 0 w = (r1, w1)" by force
  note s1 = fillBatches_staging[OF assms(1) f1] fillBatches_ok[OF assms(1) f1]
  obtain r2 w2 where f2: "AddPagesAndTerms scope d (Pages (prExtraction p)) (IndexTerms (prExtraction p)) w1 = (r2, w2)"
    by force
  note s2 = io_keepsD[OF AddPagesAndTerms_staging f2] io_keepsD[OF AddPagesAndTerms_ok f2]
  have mr: "MarkReady scope rd w2 = (Inl x, w') \<Longrightarrow> wDB w' = wDB w2" for rd x
    unfolding MarkReady_def by (cases rule: Run_cases) auto
  have "wDB w' \<in> {wDB w1, wDB w2}"
    using assms(2) f1 f2 mr
    by (auto simp: fill_def split: sum.splits prod.splits)
  then show "staging_step d (wDB w) (wDB w')" "keeps_ok (wDB w) (wDB w')"
    using s1 s2 staging.trans ok.trans by auto
qed

lemma fill_committed:
  assumes "quiet_opts opts" "fill C scope p d opts w = (Inr (), w')"
  obtains w1 w2 payload where "fillBatches scope opts d (prChunks p) 0 w = (Inr (), w1)"
    "AddPagesAndTerms scope d (Pages (prExtraction p)) (IndexTerms (prExtraction p)) w1 = (Inr (), w2)"
    "report_JSON (cdUnicode C) (prReport p) = Inr payload"
    "MarkReady scope (readyFor C p d opts payload (wClock w2)) w2 = (Inr (), w')"
  using assms(2) by (auto simp: fill_def readyFor_def split: sum.splits prod.splits)

text \<open>The two identifiers \<^verbatim>\<open>write\<close> works with.\<close>

definition stagedDoc :: "prepared \<Rightarrow> Document" where
  "stagedDoc p = (prDoc p)\<lparr>doDocID := stagedID p\<rparr>"

definition staleID :: "prepared \<Rightarrow> gostring" where
  "staleID p = (if prReplacing p \<noteq> [] then stagedID p else [])"

lemma stagedDoc_docID [simp]: "doDocID (stagedDoc p) = stagedID p"
  by (simp add: stagedDoc_def)

lemma writeDoc_eq:
  "writeDoc C scope p opts w =
     (case Create scope (stagedDoc p) (staleID p) w of
        (Inl e, w) \<Rightarrow> (Inl (Errorf (lit ''create '' @ stagedID p) e), w)
      | (Inr _, w) \<Rightarrow>
         (case fill C scope p (stagedID p) opts w of
            (Inl e, w) \<Rightarrow>
              (case DeleteDoc scope (stagedID p) w of
                 (Inl delErr, w) \<Rightarrow> (Inl (Join [e, Errorf (lit ''clean up '' @ stagedID p) delErr]), w)
               | (Inr _, w) \<Rightarrow> (Inl e, w))
          | (Inr _, w) \<Rightarrow> (Inr (), w)))"
  unfolding writeDoc_def Let_def stagedDoc_def[symmetric] stagedDoc_docID staleID_def[symmetric] ..

lemma Create_staged: "io_keeps (staging_step (stagedID p)) (Create scope (stagedDoc p) (staleID p))"
  by (rule Create_staging) (simp_all add: staleID_def)

lemma writeDoc_failed:
  assumes "quiet_opts opts" "writeDoc C scope p opts w = (Inl e, w')"
  shows "staging_step (stagedID p) (wDB w) (wDB w')" "keeps_ok (wDB w) (wDB w')"
proof -
  obtain r1 w1 where c: "Create scope (stagedDoc p) (staleID p) w = (r1, w1)" by force
  note s1 = io_keepsD[OF Create_staged c]
  note o1 = io_keepsD[OF Create_ok c]
  obtain r2 w2 where f: "fill C scope p (stagedID p) opts w1 = (r2, w2)" by force
  obtain r3 w3 where d: "DeleteDoc scope (stagedID p) w2 = (r3, w3)" by force
  note s3 = io_keepsD[OF DeleteDoc_staging d] io_keepsD[OF DeleteDoc_ok d]
  show "staging_step (stagedID p) (wDB w) (wDB w')" "keeps_ok (wDB w) (wDB w')"
  proof (atomize (full), cases r1)
    case (Inl a)
    with assms(2) c s1 o1 show "staging_step (stagedID p) (wDB w) (wDB w') \<and> keeps_ok (wDB w) (wDB w')"
      by (auto simp: writeDoc_eq)
  next
    case (Inr a)
    with assms(2) c f obtain e2 where e2: "r2 = Inl e2" by (cases r2) (auto simp: writeDoc_eq)
    have "w' = w3" using assms(2) c f d Inr e2 by (cases r3) (auto simp: writeDoc_eq)
    with fill_failed[OF assms(1) f[unfolded e2]] s1 o1 s3
    show "staging_step (stagedID p) (wDB w) (wDB w') \<and> keeps_ok (wDB w) (wDB w')"
      using staging.trans ok.trans by metis
  qed
qed

lemma Create_committed:
  assumes "Create scope doc stale w = (Inr a, w')"
  defines "s \<equiv> if stale \<noteq> [] then without stale (wDB w) else wDB w"
  shows "wDB w' = s\<lparr>documents := documents s @ [documentRow doc]\<rparr>" "\<not> hasDocument s (doDocID doc)"
proof -
  from assms(1) have "(if stale \<noteq> [] then deleteRows stale else tx_return ()) (wDB w) = Inr ((), s) \<and>
      InsertDocument (documentRow doc) s = Inr (a, wDB w')"
    unfolding Create_def s_def
    by (cases rule: Run_cases) (auto simp: tx_bind_def tx_return_def deleteRows_eq split: if_splits)
  then show "wDB w' = s\<lparr>documents := documents s @ [documentRow doc]\<rparr>" "\<not> hasDocument s (doDocID doc)"
    by (auto simp: InsertDocument_def documentRow_def split: if_splits)
qed

text \<open>What pages and terms add leaves the rows and chunks alone.\<close>

definition rows_same :: "db \<Rightarrow> db \<Rightarrow> bool" where
  "rows_same s s' \<longleftrightarrow> documents s' = documents s \<and> chunks s' = chunks s"

interpretation rows: store_relation rows_same
  by unfold_locales (auto simp: rows_same_def)

lemma AddPagesAndTerms_rows: "io_keeps rows_same (AddPagesAndTerms scope d ps ts)"
proof -
  have "tx_keeps rows_same (UpsertPage d p t)" "tx_keeps rows_same (InsertIndexTerm d x y)" for p t x y
    by (auto simp: tx_keeps_def UpsertPage_def InsertIndexTerm_def rows_same_def split: if_splits)
  then show ?thesis
    unfolding AddPagesAndTerms_def writePages_def writeTerms_def
    by (auto intro!: rows.io_return rows.run rows.bind rows.each rows.wrap)
qed

lemma filter_none: "(\<And>x. x \<in> set xs \<Longrightarrow> \<not> P x) \<Longrightarrow> filter P xs = []"
  by (simp add: filter_empty_conv)

lemma Staging_neq: "Staging d \<noteq> d" "Staging d \<noteq> []"
  by (simp_all add: Staging_def lit_def)

lemma view_absent: "db_ok s \<Longrightarrow> \<not> hasDocument s d \<Longrightarrow> view s d = emptyView"
  unfolding view_def emptyView_def db_ok_def list_all_iff hasDocument_def
  by (auto intro!: filter_none)

text \<open>A finished write: the document is searchable under its identifier with exactly the chunks
  prepared, its staging rows are gone and every other document is as it was.\<close>

lemma writeDoc_committed:
  assumes "quiet_opts opts" "db_ok (wDB w)" "writeDoc C scope p opts w = (Inr (), w')"
    "prReplacing p = [] \<or> prReplacing p = doDocID (prDoc p)" "doDocID (prDoc p) \<noteq> []"
  shows "searchable (wDB w') (doDocID (prDoc p))"
    "vChunks (view (wDB w') (doDocID (prDoc p))) = map (chunkParams (doDocID (prDoc p))) (prChunks p)"
    "prReplacing p \<noteq> [] \<Longrightarrow> view (wDB w') (stagedID p) = emptyView"
    "\<And>e. e \<noteq> doDocID (prDoc p) \<Longrightarrow> e \<noteq> stagedID p \<Longrightarrow> view (wDB w') e = view (wDB w) e"
    "db_ok (wDB w')"
proof -
  let ?id = "doDocID (prDoc p)" and ?st = "stagedID p"
  let ?staged = "stagedDoc p" and ?stale = "staleID p"
  obtain w1 where c: "Create scope ?staged ?stale w = (Inr (), w1)" and
    f: "fill C scope p ?st opts w1 = (Inr (), w')"
    using assms(3) by (auto simp: writeDoc_eq split: sum.splits prod.splits)
  obtain w2 w3 payload where b: "fillBatches scope opts ?st (prChunks p) 0 w1 = (Inr (), w2)"
    and pt: "AddPagesAndTerms scope ?st (Pages (prExtraction p)) (IndexTerms (prExtraction p)) w2 = (Inr (), w3)"
    and m: "MarkReady scope (readyFor C p ?st opts payload (wClock w3)) w3 = (Inr (), w')"
    using fill_committed[OF assms(1) f] by blast
  let ?rd = "readyFor C p ?st opts payload (wClock w3)"
  define s where "s = (if ?stale \<noteq> [] then without ?stale (wDB w) else wDB w)"
  have cr: "wDB w1 = s\<lparr>documents := documents s @ [documentRow ?staged]\<rparr>" "\<not> hasDocument s ?st"
    using Create_committed[OF c] by (auto simp: s_def)
  have oks: "db_ok s" using assms(2) by (simp add: s_def db_ok_without)
  have ok1: "db_ok (wDB w1)" using io_keepsD[OF Create_ok c] assms(2) by (simp add: keeps_ok_def)
  have ok3: "db_ok (wDB w3)"
    using fillBatches_ok[OF assms(1) b] io_keepsD[OF AddPagesAndTerms_ok pt] ok1 by (simp add: keeps_ok_def)
  note bc = fillBatches_committed[OF assms(1) b]
  note rs = io_keepsD[OF AddPagesAndTerms_rows pt]
  have nochunks: "filter (\<lambda>c. cDocID c = ?st) (chunks s) = []" "filter (\<lambda>r. dDocID r = ?st) (documents s) = []"
    using view_absent[OF oks cr(2)] by (simp_all add: view_def emptyView_def)
  have v3: "vRows (view (wDB w3) ?st) = [documentRow ?staged]"
    "vChunks (view (wDB w3) ?st) = map (chunkParams ?st) (prChunks p)"
    using rs bc cr nochunks by (simp_all add: view_def rows_same_def filter_map comp_def)
  have ne: "rdDocID ?rd \<noteq> rdReplaces ?rd"
    using assms(4,5) Staging_neq by (auto simp: readyFor_def stagedID_def)
  have pub: "publishAs ?rd = ?id" using assms(4) by (auto simp: publishAs_def readyFor_def stagedID_def)
  have docs: "same_docs (published_db ?rd (wDB w3)) (wDB w')" by (rule MarkReady_committed[OF m ok3 ne])
  have view': "view (wDB w') e = (if e = ?id
      then (let v = renamed e (view (wDB w3) ?st) in v\<lparr>vRows := map (publishRow ?rd) (vRows v)\<rparr>)
      else if e = ?st then emptyView else view (wDB w3) e)" for e
    unfolding view_same_docs[OF docs] view_published[OF ne] pub by (simp add: readyFor_def)
  show "searchable (wDB w') ?id"
    unfolding searchable_view view' by (simp add: Let_def renamed_def v3 publishRow_def)
  have "map ((\<lambda>c. c\<lparr>cDocID := ?id\<rparr>) \<circ> chunkParams ?st) (prChunks p) = map (chunkParams ?id) (prChunks p)"
    by (simp add: chunkParams_def comp_def)
  then show "vChunks (view (wDB w') ?id) = map (chunkParams ?id) (prChunks p)"
    unfolding view' by (simp add: Let_def renamed_def v3)
  show "view (wDB w') ?st = emptyView" if "prReplacing p \<noteq> []"
    using that Staging_neq unfolding view' by (simp add: stagedID_def)
  show "view (wDB w') e = view (wDB w) e" if e: "e \<noteq> ?id" "e \<noteq> ?st" for e
  proof -
    have "staging_step ?st (wDB w) (wDB w1)" by (rule io_keepsD[OF Create_staged c])
    moreover have "staging_step ?st (wDB w1) (wDB w2)" by (rule fillBatches_staging[OF assms(1) b])
    moreover have "staging_step ?st (wDB w2) (wDB w3)" by (rule io_keepsD[OF AddPagesAndTerms_staging pt])
    ultimately have "view (wDB w3) e = view (wDB w) e" using e by (simp add: staging_step_def)
    then show ?thesis using e unfolding view' by simp
  qed
  show "db_ok (wDB w')" using io_keepsD[OF MarkReady_ok m] ok3 by (simp add: keeps_ok_def)
qed

subsection \<open>Preparing\<close>

lemma cancellation_db: "cancellation e w = (e', w') \<Longrightarrow> wDB w' = wDB w"
  by (auto simp: cancellation_def split: prod.splits if_splits) (metis ctxErr_db snd_conv)+

lemma ctxErr_same: "ctxErr w = (c, w') \<Longrightarrow> wDB w' = wDB w"
  by (metis ctxErr_db snd_conv)

lemma uniqueDocID_docs: "io_keeps same_docs (uniqueDocID C scope title replacing)"
  unfolding io_keeps_def uniqueDocID_def Let_def
  using io_keepsD[OF DocIDsWithPrefix_docs] by (auto simp: docs.refl split: prod.splits sum.splits if_splits)

lemma uniqueDocID_fresh:
  assumes "uniqueDocID C scope title replacing w = (Inr docID, w')"
  shows "docID \<noteq> []" "replacing \<noteq> [] \<Longrightarrow> docID = replacing"
    "replacing = [] \<Longrightarrow> \<not> hasDocument (wDB w') docID"
    "replacing = [] \<Longrightarrow> 126 \<notin> set docID"
proof -
  let ?b = "Slugify C title"
  have "docID \<noteq> [] \<and> (replacing \<noteq> [] \<longrightarrow> docID = replacing) \<and>
    (replacing = [] \<longrightarrow> \<not> hasDocument (wDB w') docID \<and> 126 \<notin> set docID)"
  proof (cases "replacing = []")
    case False
    with assms show ?thesis by (simp add: uniqueDocID_def)
  next
    case True
    with assms obtain taken where t: "DocIDsWithPrefix scope ?b w = (Inr taken, w')" and d: "docID = nextFree ?b taken"
      by (auto simp: uniqueDocID_def Let_def split: prod.splits sum.splits)
    have "has_prefix docID ?b" "docID \<notin> set taken" using nextFree_fresh d by auto
    moreover have "126 \<notin> set ?b" using Slugify_runes[of 126 C title] by (auto simp: slugRune_def)
    moreover have "docID \<noteq> []" using \<open>has_prefix docID ?b\<close> Slugify_shape(1)[of C title] by (auto simp: has_prefix_iff)
    ultimately show ?thesis
      using True DocIDsWithPrefix_taken[OF t] same_docs_has[OF io_keepsD[OF DocIDsWithPrefix_docs t]]
        tilde_not_in_fresh[of ?b taken] d by auto
  qed
  then show "docID \<noteq> []" "replacing \<noteq> [] \<Longrightarrow> docID = replacing"
    "replacing = [] \<Longrightarrow> \<not> hasDocument (wDB w') docID"
    "replacing = [] \<Longrightarrow> 126 \<notin> set docID" by auto
qed

text \<open>How \<^verbatim>\<open>prepare\<close> ends.\<close>

lemma prepare_cases:
  assumes "prepare C scope src opts dest w = (r, w')"
  obtains (unread) e w1 e' where "srcExtract src w = (Inl e, w1)" "r = Inl e'" "wDB w' = wDB w1"
  | (early) x w1 e' where "srcExtract src w = (Inr x, w1)" "r = Inl e'" "wDB w' = wDB w1"
  | (noID) x w1 w2 title e' where "srcExtract src w = (Inr x, w1)" "wDB w2 = wDB w1"
      "uniqueDocID C scope title (dsReplacing dest) w2 = (Inl e', w')" "r = Inl e'"
  | (named) x w1 w2 title docID w3 where "srcExtract src w = (Inr x, w1)" "wDB w2 = wDB w1"
      "uniqueDocID C scope title (dsReplacing dest) w2 = (Inr docID, w3)"
      "w' = optProgress opts PhaseChunk 0 1 w3" "(\<exists>e'. r = Inl e') \<or> (\<exists>cs. Chunks (cdUnicode C) x = Some cs \<and> cs \<noteq> [] \<and>
         \<not> Fatal (NewStructureReport (Diagnostics x)) \<and>
         r = Inr \<lparr>prExtraction = x, prReport = MeasureChunks (cdUnicode C) cs (NewStructureReport (Diagnostics x)),
           prChunks = cs, prReplacing = dsReplacing dest,
           prDoc = \<lparr>doPageCount = extPageCount x, doDocID = docID, doTitle = title, doFormat = extFormat x,
             doIdentity = dsIdentity dest, doDigest = srcDigest src, doKind = srcKind src\<rparr>\<rparr>)"
proof (cases "srcExtract src w")
  case (Pair a w1)
  show thesis
  proof (cases a)
    case (Inl e)
    obtain e' w2 where c: "cancellation e w1 = (e', w2)" by force
    show thesis
      by (rule unread[of e w1 e']) (use assms Pair Inl c cancellation_db[OF c] in \<open>simp_all add: prepare_def\<close>)
  next
    case (Inr x)
    obtain c w2 where ctx: "ctxErr w1 = (c, w2)" by force
    let ?rep = "NewStructureReport (Diagnostics x)"
    let ?title = "Strip (firstNonEmpty [optTitle opts, dsTitle dest, extTitle x, dsIdentity dest])"
    show thesis
    proof (cases "c \<or> Fatal ?rep")
      case True
      then show thesis
        using assms Pair Inr ctx ctxErr_same[OF ctx] by (cases c) (auto simp: prepare_def Let_def intro: early)
    next
      case False
      obtain u w3 where u: "uniqueDocID C scope ?title (dsReplacing dest) w2 = (u, w3)" by force
      show thesis
      proof (cases u)
        case (Inl e')
        then show thesis
          using assms Pair Inr ctx ctxErr_same[OF ctx] False u
          by (intro noID[of x w1 w2 ?title e']) (simp_all add: prepare_def Let_def)
      next
        case (Inr docID)
        have "r = Inl (ErrorNew (lit ''panic'')) \<or> r = Inl (StructureError (noChunksMessage (dsIdentity dest) ?rep)) \<or>
          (\<exists>cs. Chunks (cdUnicode C) x = Some cs \<and> cs \<noteq> [] \<and>
            r = Inr \<lparr>prExtraction = x, prReport = MeasureChunks (cdUnicode C) cs ?rep,
           prChunks = cs, prReplacing = dsReplacing dest,
           prDoc = \<lparr>doPageCount = extPageCount x, doDocID = docID, doTitle = ?title, doFormat = extFormat x,
             doIdentity = dsIdentity dest, doDigest = srcDigest src, doKind = srcKind src\<rparr>\<rparr>)"
          using assms Pair \<open>a = Inr x\<close> ctx False u Inr
          by (auto simp: prepare_def Let_def split: option.splits if_splits)
        moreover have "w' = optProgress opts PhaseChunk 0 1 w3"
          using assms Pair \<open>a = Inr x\<close> ctx False u Inr
          by (auto simp: prepare_def Let_def split: option.splits if_splits)
        ultimately show thesis
          using Pair \<open>a = Inr x\<close> ctxErr_same[OF ctx] u Inr False
          by (intro named[of x w1 w2 ?title docID w3]) auto
      qed
    qed
  qed
qed

lemma prepare_docs:
  assumes "quiet_source src" "quiet_opts opts"
  shows "io_keeps same_docs (prepare C scope src opts dest)"
  unfolding io_keeps_def
proof (intro allI impI)
  fix w r w' assume p: "prepare C scope src opts dest w = (r, w')"
  have ex: "srcExtract src w = (x, w1) \<Longrightarrow> same_docs (wDB w) (wDB w1)" for x w1
    using assms(1) io_keepsD unfolding quiet_source_def by blast
  from p show "same_docs (wDB w) (wDB w')"
  proof (cases rule: prepare_cases)
    case (noID x w1 w2 title e')
    with ex io_keepsD[OF uniqueDocID_docs noID(3)] docs.trans show ?thesis by metis
  next
    case (named x w1 w2 title docID w3)
    with ex io_keepsD[OF uniqueDocID_docs named(3)] quiet_optsD(1)[OF assms(2)] docs.trans show ?thesis by metis
  qed (use ex in auto)
qed

lemma prepare_done:
  assumes "prepare C scope src opts dest w = (Inr p, w')" "quiet_opts opts"
  shows "\<exists>x wx wx'. srcExtract src wx = (Inr x, wx') \<and> Chunks (cdUnicode C) x = Some (prChunks p) \<and> prExtraction p = x"
    "prChunks p \<noteq> []" "prReplacing p = dsReplacing dest" "doDigest (prDoc p) = srcDigest src" "doDocID (prDoc p) \<noteq> []"
    "prReplacing p \<noteq> [] \<Longrightarrow> doDocID (prDoc p) = prReplacing p"
    "prReplacing p = [] \<Longrightarrow> \<not> hasDocument (wDB w') (doDocID (prDoc p)) \<and> 126 \<notin> set (doDocID (prDoc p))"
    "doIdentity (prDoc p) = dsIdentity dest"
proof -
  obtain x w1 w2 title docID w3 cs where named: "srcExtract src w = (Inr x, w1)" "wDB w2 = wDB w1"
      "uniqueDocID C scope title (dsReplacing dest) w2 = (Inr docID, w3)" "w' = optProgress opts PhaseChunk 0 1 w3"
    and cs: "Chunks (cdUnicode C) x = Some cs" "cs \<noteq> []" and
    p: "p = \<lparr>prExtraction = x, prReport = MeasureChunks (cdUnicode C) cs (NewStructureReport (Diagnostics x)),
           prChunks = cs, prReplacing = dsReplacing dest,
           prDoc = \<lparr>doPageCount = extPageCount x, doDocID = docID, doTitle = title, doFormat = extFormat x,
             doIdentity = dsIdentity dest, doDigest = srcDigest src, doKind = srcKind src\<rparr>\<rparr>"
    using assms(1) by (cases rule: prepare_cases) auto
  note u = uniqueDocID_fresh[OF named(3)]
  have same: "hasDocument (wDB w') docID = hasDocument (wDB w3) docID"
    using named(4) quiet_optsD(1)[OF assms(2)] same_docs_has by metis
  show "\<exists>x wx wx'. srcExtract src wx = (Inr x, wx') \<and> Chunks (cdUnicode C) x = Some (prChunks p) \<and> prExtraction p = x"
    using named(1) cs p by auto
  show "prChunks p \<noteq> []" "prReplacing p = dsReplacing dest" "doDigest (prDoc p) = srcDigest src"
    "doDocID (prDoc p) \<noteq> []" "doIdentity (prDoc p) = dsIdentity dest"
    "prReplacing p \<noteq> [] \<Longrightarrow> doDocID (prDoc p) = prReplacing p"
    "prReplacing p = [] \<Longrightarrow> \<not> hasDocument (wDB w') (doDocID (prDoc p)) \<and> 126 \<notin> set (doDocID (prDoc p))"
    using cs u same by (auto simp: p)
qed

subsection \<open>The whole run\<close>

definition resultOf :: "prepared \<Rightarrow> Existing option \<Rightarrow> Options \<Rightarrow> gostring \<Rightarrow> IngestResult" where
  "resultOf p held opts replacing = \<lparr>resReport = Some (prReport p), resDiagnostics = Diagnostics (prExtraction p),
     resDocID = doDocID (prDoc p), resTitle = doTitle (prDoc p), resNote = rereadNote held opts,
     resChunkCount = int (length (prChunks p)), resOutcome = outcomeOf replacing\<rparr>"

lemma destinationOf_docs: "io_keeps same_docs (destinationOf scope src held)"
  unfolding io_keeps_def destinationOf_def
  using io_keepsD[OF DocIDForIdentity_docs] by (auto simp: docs.refl split: prod.splits sum.splits option.splits)

text \<open>A run ends before anything is written, confirms what the library holds, or writes.\<close>

lemma ingest_Run_cases:
  assumes "ingest_Run C scope src opts w = (r, w')" "quiet_source src" "quiet_opts opts"
  obtains (stopped) e where "r = Inl e" "same_docs (wDB w) (wDB w')"
  | (held) h w1 where "same_docs (wDB w) (wDB w1)" "alreadyHeld scope h w1 = (r, w')"
      "PipelineVersion \<le> exPipelineVersion h" "\<not> optForce opts"
  | (written) held w1 dest p w2 x w3 where "prepare C scope src opts dest w1 = (Inr p, w2)"
      "same_docs (wDB w) (wDB w3)" "w3 = optOnDocID opts (doDocID (prDoc p)) w2"
      "writeDoc C scope p opts w3 = (x, w')"
      "r = (case x of Inl e \<Rightarrow> Inl e | Inr _ \<Rightarrow> Inr (resultOf p held opts (dsReplacing dest)))"
proof -
  obtain a wa where a: "srcAcquire src w = (a, wa)" by force
  have acq: "io_keeps same_docs (srcAcquire src)" using assms(2) by (simp add: quiet_source_def)
  have sa: "same_docs (wDB w) (wDB wa)" by (rule io_keepsD[OF acq a])
  obtain c wc where c: "ctxErr wa = (c, wc)" by force
  obtain h wh where h: "ReadyWithDigest (cdVersion C) scope (srcDigest src) wc = (h, wh)" by force
  have sh: "same_docs (wDB w) (wDB wh)"
    using io_keepsD[OF ReadyWithDigest_docs h] ctxErr_same[OF c] sa docs.trans by metis
  show thesis
  proof (cases "(\<exists>e. a = Inl e) \<or> c \<or> (\<exists>e. h = Inl e)")
    case True
    have "(\<exists>e. r = Inl e) \<and> wDB w' \<in> {wDB wa, wDB wh}"
    proof (cases a)
      case (Inl e)
      obtain e' w2 where "cancellation e wa = (e', w2)" by force
      with assms(1) a Inl cancellation_db[OF this] show ?thesis by (auto simp: ingest_Run_def)
    next
      case (Inr u)
      with True assms(1) a c h ctxErr_same[OF c] show ?thesis
        by (cases c) (auto simp: ingest_Run_def)
    qed
    with sa sh stopped show thesis by auto
  next
    case False
    then obtain u held where ok: "a = Inr u" "h = Inr held" "\<not> c" by (cases a; cases h) auto
    show thesis
    proof (cases "skips held opts")
      case True
      then have "alreadyHeld scope (the held) wh = (r, w')" using assms(1) a c h ok by (simp add: ingest_Run_def)
      then show thesis using True sh by (intro held[of wh "the held"]) (auto simp: skips_def split: option.splits)
    next
      case skip: False
      obtain d wd where d: "destinationOf scope src held wh = (d, wd)" by force
      have sd: "same_docs (wDB w) (wDB wd)" using io_keepsD[OF destinationOf_docs d] sh docs.trans by metis
      show thesis
      proof (cases d)
        case (Inl e)
        then show thesis using assms(1) a c h ok skip d sd by (intro stopped[of e]) (simp_all add: ingest_Run_def)
      next
        case (Inr dest)
        obtain q wq where q: "prepare C scope src opts dest wd = (q, wq)" by force
        have sq: "same_docs (wDB w) (wDB wq)"
          using io_keepsD[OF prepare_docs[OF assms(2,3)] q] sd docs.trans by metis
        show thesis
        proof (cases q)
          case (Inl e)
          then show thesis using assms(1) a c h ok skip d q Inr sq by (intro stopped[of e]) (simp_all add: ingest_Run_def)
        next
          case (Inr p)
          let ?w3 = "optOnDocID opts (doDocID (prDoc p)) wq"
          obtain x wx where x: "writeDoc C scope p opts ?w3 = (x, wx)" by force
          have "same_docs (wDB w) (wDB ?w3)" using sq quiet_optsD(2)[OF assms(3)] docs.trans by metis
          moreover have "w' = wx \<and> r = (case x of Inl e \<Rightarrow> Inl e | Inr _ \<Rightarrow> Inr (resultOf p held opts (dsReplacing dest)))"
            using assms(1) a c h ok skip d q \<open>d = Inr dest\<close> Inr x
            by (cases x) (simp_all add: ingest_Run_def resultOf_def)
          ultimately show thesis using written q Inr x by blast
        qed
      qed
    qed
  qed
qed

lemma alreadyHeld_cases:
  assumes "alreadyHeld scope h w = (r, w')"
  obtains (failed) e where "r = Inl e" "wDB w' = wDB w"
  | (stamped) "r = Inr (unchanged h)" "wDB w' = (wDB w)\<lparr>documents := map (\<lambda>d. if dDocID d = exDocID h
      then d\<lparr>dIngestedAt := Some (wClock w)\<rparr> else d) (documents (wDB w))\<rparr>"
proof -
  obtain c w1 where c: "Confirm scope (exDocID h) (wClock w) w = (c, w1)" by force
  from c have "(\<exists>e. c = Inl e) \<and> wDB w1 = wDB w \<or> c = Inr () \<and>
      ConfirmDocument (exDocID h) (wClock w) (wDB w) = Inr ((), wDB w1)"
    unfolding Confirm_def by (cases rule: Run_cases) auto
  then show thesis
    using assms c by (auto simp: alreadyHeld_def ConfirmDocument_def intro: failed stamped)
qed

lemma resultOf_sel [simp]: "resDocID (resultOf p held opts rep) = doDocID (prDoc p)"
  "resOutcome (resultOf p held opts rep) = outcomeOf rep"
  "resChunkCount (resultOf p held opts rep) = int (length (prChunks p))"
  by (simp_all add: resultOf_def)

lemma outcomeOf_written [simp]: "outcomeOf rep \<noteq> Unchanged" "outcomeOf rep = Replaced \<longleftrightarrow> rep \<noteq> []"
  by (simp_all add: outcomeOf_def)

definition noStagedPublished :: "db \<Rightarrow> bool" where
  "noStagedPublished s = list_all (\<lambda>r. dStatus r = Published \<longrightarrow> \<not> has_suffix (dDocID r) (lit ''~next'')) (documents s)"

lemma noStagedPublishedD: "noStagedPublished s \<Longrightarrow> \<not> searchable s (Staging d)"
  by (auto simp: noStagedPublished_def searchable_def list_all_iff list_ex_iff has_suffix_iff Staging_def)

lemma staged_unsearchable:
  assumes "prepare C scope src opts dest w1 = (Inr p, w2)" "quiet_opts opts" "same_docs (wDB w) (wDB w3)"
    "w3 = optOnDocID opts (doDocID (prDoc p)) w2" "noStagedPublished (wDB w)"
  shows "\<not> searchable (wDB w) (stagedID p)"
proof (cases "prReplacing p = []")
  case True
  then have "\<not> hasDocument (wDB w2) (stagedID p)" using prepare_done(7)[OF assms(1,2)] by (simp add: stagedID_def)
  moreover have "hasDocument (wDB w2) e = hasDocument (wDB w) e" for e
    using same_docs_has[OF assms(3)] same_docs_has[OF quiet_optsD(2)[OF assms(2)]] assms(4) by metis
  ultimately show ?thesis using searchable_has by blast
next
  case False
  then show ?thesis using noStagedPublishedD[OF assms(5)] by (simp add: stagedID_def)
qed

text \<open>A library that holds one document, and a newer reading of its source.\<close>

definition ex_codecs :: Codecs where
  "ex_codecs = \<lparr>cdUnicode = ascii_unicode, cdStripMarks = Inr, cdMarshal = (\<lambda>_. lit ''{}''), cdVersion = (\<lambda>_. None)\<rparr>"

definition ex_source :: Source where
  "ex_source = \<lparr>srcKind = 1, srcIdentity = lit ''/a.md'', srcDigest = lit ''d1'', srcAcquire = io_return (),
     srcExtract = io_return ex_extraction\<rparr>"

definition ex_opts :: Options where
  "ex_opts = \<lparr>optProgress = (\<lambda>_ _ _ w. w), optOnDocID = (\<lambda>_ w. w), optJobID = None, optTitle = [], optJobAttempt = 0,
     optForce = False\<rparr>"

definition ex_doc :: "gostring \<Rightarrow> docRow" where
  "ex_doc d = \<lparr>dDocID = d, dTitle = lit ''T'', dFormat = lit ''text'', dSourcePath = lit ''/a.md'', dSourceKind = lit ''file'',
     dSha256 = lit ''d0'', dPageCount = None, dChunkCount = Some 0, dStatus = Published, dIngestedAt = Some 1, dWarnings = []\<rparr>"

definition ex_world :: "bool list \<Rightarrow> World" where
  "ex_world faults = \<lparr>wDB = \<lparr>documents = [ex_doc (lit ''t'')], chunks = [], pages = [], index_terms = [], jobs = [], now = 0\<rparr>,
     wFaults = faults, wCtx = [], wClock = 5, wLast = None\<rparr>"

definition ex_scope :: Scope where
  "ex_scope = Personal (lit ''u'')"

lemma ex_quiet: "quiet_source ex_source" "quiet_opts ex_opts"
  by (auto simp: quiet_source_def quiet_opts_def ex_source_def ex_opts_def docs.refl intro: docs.io_return)

lemma ex_world_ok: "db_ok (wDB (ex_world fs))" "noStagedPublished (wDB (ex_world fs))"
  by (simp_all add: ex_world_def ex_doc_def db_ok_def noStagedPublished_def has_suffix_def lit_def)

text \<open>The publishing commit is the ninth the run asks for.\<close>

definition ex_failing :: World where
  "ex_failing = ex_world (replicate 8 False @ [True])"

lemma ex_failing_fails: "isl (fst (ingest_Run ex_codecs ex_scope ex_source ex_opts ex_failing))"
  by code_simp

lemma ex_replaces:
  "map_sum id resOutcome (fst (ingest_Run ex_codecs ex_scope ex_source ex_opts (ex_world []))) = Inr Replaced"
  by code_simp



text \<open>C2: An ingest that succeeds and did not find the content already held publishes the document it
  names with exactly the chunks of what the source extracted, in order, and touches no other document
  than that one and its staging rows, which are gone when it replaced one.\<close>

theorem ingest_publishes:
  assumes "quiet_source src" "quiet_opts opts" "db_ok (wDB w)"
    "ingest_Run C scope src opts w = (Inr res, w')" "resOutcome res \<noteq> Unchanged"
  shows "\<exists>x wx wx' cs. srcExtract src wx = (Inr x, wx') \<and> Chunks (cdUnicode C) x = Some cs \<and> cs \<noteq> [] \<and>
      resChunkCount res = int (length cs) \<and> searchable (wDB w') (resDocID res) \<and>
      vChunks (view (wDB w') (resDocID res)) = map (chunkParams (resDocID res)) cs \<and>
      (resOutcome res = Replaced \<longrightarrow> view (wDB w') (Staging (resDocID res)) = emptyView) \<and>
      (\<forall>e. e \<noteq> resDocID res \<and> e \<noteq> Staging (resDocID res) \<longrightarrow> view (wDB w') e = view (wDB w) e) \<and>
      (resOutcome res = Ingested \<longrightarrow> \<not> hasDocument (wDB w) (resDocID res)) \<and> db_ok (wDB w')"
  using assms(4,1,2)
proof (cases rule: ingest_Run_cases)
  case (held h w1)
  from held(2) assms(5) show ?thesis by (cases rule: alreadyHeld_cases) (auto simp: unchanged_def)
next
  case (written hd w1 dest p w2 x w3)
  then have x: "x = Inr ()" and res: "res = resultOf p hd opts (dsReplacing dest)" by (cases x; simp)+
  note pd = prepare_done[OF written(1) assms(2)]
  have ok3: "db_ok (wDB w3)" using same_docs_ok[OF written(2)] assms(3) by (simp add: keeps_ok_def)
  have rep: "prReplacing p = [] \<or> prReplacing p = doDocID (prDoc p)"
    using pd(6) by (cases "prReplacing p = []") simp_all
  note c = writeDoc_committed[OF assms(2) ok3 written(4)[unfolded x] rep pd(5)]
  have st: "prReplacing p \<noteq> [] \<Longrightarrow> stagedID p = Staging (doDocID (prDoc p))"
    "prReplacing p = [] \<Longrightarrow> stagedID p = doDocID (prDoc p)" by (simp_all add: stagedID_def)
  have new: "prReplacing p = [] \<Longrightarrow> \<not> hasDocument (wDB w) (doDocID (prDoc p))"
    using pd(7) same_docs_has[OF written(2)] same_docs_has[OF quiet_optsD(2)[OF assms(2)]] written(3) by metis
  have oth: "view (wDB w') e = view (wDB w) e" if "e \<noteq> doDocID (prDoc p)" "e \<noteq> Staging (doDocID (prDoc p))" for e
    using that c(4)[of e] st view_same_docs[OF written(2)] by (cases "prReplacing p = []") auto
  from pd(1) obtain y wx wx' where y: "srcExtract src wx = (Inr y, wx')" "Chunks (cdUnicode C) y = Some (prChunks p)" by blast
  have "outcomeOf (dsReplacing dest) = Ingested \<Longrightarrow> prReplacing p = []" using pd(3) by (simp add: outcomeOf_def split: if_splits)
  with y pd(2,3) c st new oth res show ?thesis
    by (intro exI[of _ y] exI[of _ wx] exI[of _ wx'] exI[of _ "prChunks p"]) simp
qed simp

theorem ingest_publishes_witness:
  "\<exists>res w' cs. ingest_Run ex_codecs ex_scope ex_source ex_opts (ex_world []) = (Inr res, w') \<and> cs \<noteq> [] \<and>
     vChunks (view (wDB w') (resDocID res)) = map (chunkParams (resDocID res)) cs"
proof -
  obtain res w' where r: "ingest_Run ex_codecs ex_scope ex_source ex_opts (ex_world []) = (Inr res, w')"
    and o: "resOutcome res = Replaced"
    using ex_replaces by (cases "ingest_Run ex_codecs ex_scope ex_source ex_opts (ex_world [])")
      (auto simp: map_sum_def split: sum.splits)
  then have "resOutcome res \<noteq> Unchanged" by simp
  from ingest_publishes[OF ex_quiet ex_world_ok(1) r this] r show ?thesis by blast
qed

text \<open>A source whose bytes the library holds from this pipeline is confirmed: the document named is
  stamped and no other row of the library changes.\<close>

theorem ingest_unchanged:
  assumes "quiet_source src" "quiet_opts opts" "ingest_Run C scope src opts w = (Inr res, w')"
    "resOutcome res = Unchanged"
  shows "\<exists>t. chunks (wDB w') = chunks (wDB w) \<and> pages (wDB w') = pages (wDB w) \<and>
     index_terms (wDB w') = index_terms (wDB w) \<and> documents (wDB w') = map (\<lambda>d. if dDocID d = resDocID res
       then d\<lparr>dIngestedAt := Some t\<rparr> else d) (documents (wDB w)) \<and> \<not> optForce opts"
  using assms(3,1,2)
proof (cases rule: ingest_Run_cases)
  case (held h w1)
  from held(2) show ?thesis
  proof (cases rule: alreadyHeld_cases)
    case stamped
    then show ?thesis using held by (intro exI[of _ "wClock w1"]) (simp add: unchanged_def same_docs_def)
  qed simp
next
  case (written hd w1 dest p w2 x w3)
  then show ?thesis using assms(4) by (cases x) auto
qed simp

definition ex_held :: World where
  "ex_held = ex_world []\<lparr>wDB := (wDB (ex_world []))\<lparr>documents := [(ex_doc (lit ''t''))\<lparr>dSha256 := lit ''d1''\<rparr>]\<rparr>\<rparr>"

definition ex_codecs_now :: Codecs where
  "ex_codecs_now = ex_codecs\<lparr>cdVersion := (\<lambda>_. Some PipelineVersion)\<rparr>"

theorem ingest_unchanged_witness:
  "\<exists>res w'. ingest_Run ex_codecs_now ex_scope ex_source ex_opts ex_held = (Inr res, w') \<and>
     map dTitle (documents (wDB w')) = [lit ''T'']"
proof -
  have "map_sum id resOutcome (fst (ingest_Run ex_codecs_now ex_scope ex_source ex_opts ex_held)) = Inr Unchanged"
    by code_simp
  then obtain res w' where r: "ingest_Run ex_codecs_now ex_scope ex_source ex_opts ex_held = (Inr res, w')"
    and o: "resOutcome res = Unchanged"
    by (cases "ingest_Run ex_codecs_now ex_scope ex_source ex_opts ex_held")
      (auto simp: map_sum_def split: sum.splits)
  from ingest_unchanged[OF ex_quiet r o] r show ?thesis
    by (auto simp: ex_held_def ex_world_def ex_doc_def)
qed

text \<open>The identifier chosen for a new document: the slug of its title when no document has it, or
  the slug with the first number from 2 on that none has.  The search for it ends.\<close>

theorem nextFree_first:
  "nextFree base taken \<notin> set taken \<and>
   (nextFree base taken = base \<or> base \<in> set taken \<and> (\<exists>m\<ge>2. nextFree base taken = numbered base m \<and>
      {k. 2 \<le> k \<and> k < m \<and> numbered base k \<notin> set taken} = {}))"
  using nextFreeFrom_props[of 2 base taken] by (auto simp: nextFree_def)

text \<open>A slug is never empty, has only lower-case ASCII letters, digits and hyphens, and neither
  begins nor ends with a hyphen.\<close>

theorem Slugify_slug:
  "set (Slugify C title) \<subseteq> {r. slugRune r} \<union> {45} \<and> Slugify C title \<noteq> [] \<and>
   hd (Slugify C title) \<noteq> 45 \<and> last (Slugify C title) \<noteq> 45"
  using Slugify_runes Slugify_shape by blast


text \<open>The pattern built from an identifier matches exactly the identifiers that begin with it,
  whatever wildcards or backslashes it holds.\<close>

theorem likePrefix_exact: "like (likePrefix p) s = has_prefix s p"
  by (simp add: like_likePrefix)

end
