(* ===== verification/Job_Props.thy ===== *)
theory Job_Props
  imports JobStore Store_Props
begin

text \<open>
  Properties of the queue.  \<open>fleet\<close> is every history of several workers and callers on one queue, each
  worker through its own handle: claims, fenced writes, sweeps, requests to cancel, new jobs and the
  passing of time, in any order and with any of the transactions failing.
\<close>

subsection \<open>The claim\<close>

lemma queue_before_trans: "queue_before a b \<Longrightarrow> queue_before b c \<Longrightarrow> queue_before a c"
  by (auto simp: queue_before_def)

lemma queue_before_total: "queue_before a b \<or> queue_before b a"
  by (auto simp: queue_before_def)

lemma firstInQueue_least:
  "firstInQueue js = Some j \<Longrightarrow> j \<in> set js \<and> (\<forall>k\<in>set js. queue_before j k)"
proof (induction js arbitrary: j)
  case (Cons k js)
  show ?case
  proof (cases "firstInQueue js")
    case None
    then have "js = []" by (cases js) (auto split: option.splits)
    with Cons.prems None show ?thesis by (auto simp: queue_before_def)
  next
    case (Some m)
    note ih = Cons.IH[OF Some]
    show ?thesis
    proof (cases "queue_before k m")
      case True
      with Cons.prems Some ih show ?thesis
        using queue_before_trans[OF True] by (auto simp: queue_before_def)
    next
      case False
      with queue_before_total have "queue_before m k" by blast
      with Cons.prems Some ih False show ?thesis by auto
    qed
  qed
qed simp

lemma firstInQueue_None: "firstInQueue js = None \<longleftrightarrow> js = []"
  by (cases js) (auto split: option.splits)


definition ex_job :: "int \<Rightarrow> jobRow" where
  "ex_job i = \<lparr>jID = i, jSourcePath = lit ''/a.md'', jTitle = None, jDocID = Some (lit ''t''), jStatus = Queued,
     jPhase = None, jProgressCur = None, jProgressTot = None, jAttempts = 0, jPermanent = False,
     jCancelReq = False, jError = None, jWarnings = [], jLeaseUntil = None, jCreatedAt = 10 - i, jUpdatedAt = 0,
     jForce = False, jRequestedBy = lit ''u''\<rparr>"

definition ex_queue :: db where
  "ex_queue = \<lparr>documents = [], chunks = [], pages = [], index_terms = [], jobs = [ex_job 1, ex_job 2], now = 20\<rparr>"


subsection \<open>Fenced writes\<close>

definition owns :: "World \<Rightarrow> Jobs \<Rightarrow> int \<Rightarrow> bool" where
  "owns w h jid = list_ex (fence jid (attemptOf h jid)) (jobs (wDB w))"

lemma fenced_updateJobs:
  "fenced (\<lambda>s. updateJobs P (f s) s) s = (if list_ex P (jobs s)
     then Inr ((), s\<lparr>jobs := map (\<lambda>j. if P j then f s j else j) (jobs s)\<rparr>) else Inl (Sentinel ErrLostClaim))"
  by (auto simp: fenced_def tx_bind_def updateJobs_def tx_return_def list_ex_iff filter_empty_conv)

lemma fenced_committed:
  "fenced (\<lambda>s. updateJobs P (f s) s) s = Inr (u, s') \<Longrightarrow>
     s' = s\<lparr>jobs := map (\<lambda>j. if P j then f s j else j) (jobs s)\<rparr>"
  by (simp add: fenced_updateJobs split: if_splits)

text \<open>What the queue's statements do to the jobs: a row keeps its identity and its attempts, and one that
  is not running stays so.\<close>

definition job_kept :: "jobRow \<Rightarrow> jobRow \<Rightarrow> bool" where
  "job_kept j k \<longleftrightarrow> jID k = jID j \<and> jAttempts k = jAttempts j \<and> (jStatus k = Running \<longrightarrow> jStatus j = Running)"

definition jobs_kept :: "db \<Rightarrow> db \<Rightarrow> bool" where
  "jobs_kept s s' \<longleftrightarrow> list_all2 job_kept (jobs s) (jobs s')"

interpretation kept: store_relation jobs_kept
proof
  show "jobs_kept s s" for s by (simp add: jobs_kept_def list_all2_same job_kept_def)
  show "jobs_kept s t \<Longrightarrow> jobs_kept t u \<Longrightarrow> jobs_kept s u" for s t u
    unfolding jobs_kept_def by (rule list_all2_trans) (auto simp: job_kept_def)
qed

lemma mapped_jobs_kept:
  assumes "\<And>j. job_kept j (f j)"
  shows "jobs_kept s (s\<lparr>jobs := map f (jobs s)\<rparr>)"
  using assms by (simp add: jobs_kept_def list_all2_map2 list_all2_same)

lemma updateJobs_kept:
  assumes "\<And>s j. P j \<Longrightarrow> job_kept j (f s j)"
  shows "tx_keeps jobs_kept (\<lambda>s. updateJobs P (f s) s)"
proof -
  have "job_kept j (if P j then f s j else j)" for s j using assms by (simp add: job_kept_def)
  then show ?thesis by (auto simp: tx_keeps_def updateJobs_def intro!: mapped_jobs_kept)
qed

lemma deleteRows_kept: "tx_keeps jobs_kept (deleteRows d)"
  by (auto simp: tx_keeps_def deleteRows_eq jobs_kept_def list_all2_same job_kept_def)

lemma dropPartial_cases:
  assumes "dropPartial jid s = Inr (a, s')"
  obtains (nothing) "s' = s"
  | (published) d r where "find (\<lambda>r. dDocID r = d) (documents s) = Some r" "dStatus r = Published"
      "s' = without (Staging d) s"
  | (partial) d r where "find (\<lambda>r. dDocID r = d) (documents s) = Some r" "dStatus r \<noteq> Published"
      "s' = without d (without (Staging d) s)"
proof (cases "JobDocID jid s")
  case (Inl e)
  with assms have "s' = s" by (simp add: dropPartial_def)
  then show thesis by (rule nothing)
next
  case (Inr x)
  obtain d t where x: "x = (d, t)" by force
  show thesis
  proof (cases d)
    case None
    with assms Inr x have "s' = s" by (simp add: dropPartial_def)
    then show thesis by (rule nothing)
  next
    case (Some d')
    show thesis
    proof (cases "d' = [] \<or> find (\<lambda>r. dDocID r = d') (documents s) = None")
      case True
      with assms Inr x Some have "s' = s" by (auto simp: dropPartial_def DocumentStatus_def split: if_splits)
      then show thesis by (rule nothing)
    next
      case False
      then obtain r where r: "find (\<lambda>r. dDocID r = d') (documents s) = Some r" by blast
      have "s' = (if dStatus r = Published then without (Staging d') s else without d' (without (Staging d') s))"
        using assms Inr x Some False r
        by (simp add: dropPartial_def DocumentStatus_def tx_bind_def tx_return_def deleteRows_eq split: if_splits)
      with r show thesis using published partial by (cases "dStatus r = Published") auto
    qed
  qed
qed

lemma dropPartial_kept: "tx_keeps jobs_kept (dropPartial jid)"
proof (rule tx_keepsI)
  fix s a s' assume "dropPartial jid s = Inr (a, s')"
  then have "jobs s' = jobs s" by (cases rule: dropPartial_cases) auto
  then show "jobs_kept s s'" using kept.refl[of s] by (simp add: jobs_kept_def)
qed

lemma sweep_kept: "io_keeps jobs_kept (sweep h m)"
proof -
  have "tx_keeps jobs_kept (SweepStrandedJobs n)" for n
    unfolding tx_keeps_def SweepStrandedJobs_def
    by (auto intro!: mapped_jobs_kept simp: job_kept_def stranded_def)
  then show ?thesis
    unfolding sweep_def by (intro kept.io_wrap kept.run kept.bind kept.each dropPartial_kept)
qed

text \<open>The writes a worker makes to its job through its handle.\<close>

datatype jobWrite =
    Progress gostring int int int
  | Renew int
  | NoteDocID gostring
  | CompleteNothing gostring
  | CancelIt
  | FinishIt Outcome gostring bool

fun perform :: "Jobs \<Rightarrow> int \<Rightarrow> jobWrite \<Rightarrow> unit io" where
  "perform h jid (Progress phase cur tot lease) = RecordProgress h jid phase cur tot lease"
| "perform h jid (Renew lease) = RenewLease h jid lease"
| "perform h jid (NoteDocID d) = RecordDocID h jid d"
| "perform h jid (CompleteNothing d) = CompleteWithoutDocument h jid d"
| "perform h jid CancelIt = CancelHeld h jid"
| "perform h jid (FinishIt oc reason perm) = Finish h jid oc reason perm"

lemmas job_statements = RecordJobProgress_def RenewJobLease_def RecordJobDocID_def CancelJob_def FinishJob_def
  CompleteJobWithoutDocument_def CompleteJob_def

lemma statement_kept:
  "tx_keeps jobs_kept (RecordJobProgress p c t l jid a)" "tx_keeps jobs_kept (RenewJobLease l jid a)"
  "tx_keeps jobs_kept (RecordJobDocID d jid a)" "tx_keeps jobs_kept (CancelJob jid a)"
  "st \<noteq> Running \<Longrightarrow> tx_keeps jobs_kept (FinishJob st e perm jid a)"
  "tx_keeps jobs_kept (CompleteJobWithoutDocument d jid a)" "tx_keeps jobs_kept (CompleteJob d ws jid a)"
  unfolding job_statements[abs_def] by (rule updateJobs_kept; simp add: job_kept_def fence_def)+

lemma perform_kept: "io_keeps jobs_kept (perform h jid x)"
proof (cases x)
  case (FinishIt oc reason perm)
  have "(if oc = Failed then FailedJob else Queued) \<noteq> Running" by simp
  with FinishIt show ?thesis
    by (auto simp: Finish_def Let_def intro!: kept.run kept.bind kept.fenced dropPartial_kept statement_kept)
qed (auto simp: RecordProgress_def RenewLease_def RecordDocID_def CompleteWithoutDocument_def CancelHeld_def
    intro!: kept.io_wrap kept.run kept.bind kept.fenced dropPartial_kept statement_kept)

subsection \<open>Many workers on one queue\<close>

definition claimOf :: "goerror + Job option \<Rightarrow> int list" where
  "claimOf r = (case r of Inr (Some job) \<Rightarrow> [jobID job] | _ \<Rightarrow> [])"

text \<open>A history: the world, the handles of the workers so far and the jobs claimed, in order.\<close>

inductive fleet :: "int \<Rightarrow> World \<Rightarrow> Jobs list \<Rightarrow> int list \<Rightarrow> bool" for M where
  start: "jobs (wDB w) = [] \<Longrightarrow> fleet M w [] []"
| worker: "fleet M w hs cs \<Longrightarrow> fleet M w (hs @ [NewJobs scope]) cs"
| claim: "fleet M w hs cs \<Longrightarrow> i < length hs \<Longrightarrow> Claim (hs ! i) lease M w = (r, h, w') \<Longrightarrow>
    fleet M w' (hs[i := h]) (cs @ claimOf r)"
| job_write: "fleet M w hs cs \<Longrightarrow> i < length hs \<Longrightarrow> perform (hs ! i) jid x w = (r, w') \<Longrightarrow> fleet M w' hs cs"
| publish: "fleet M w hs cs \<Longrightarrow> MarkReady scope ready w = (r, w') \<Longrightarrow> fleet M w' hs cs"
| enqueue: "fleet M w hs cs \<Longrightarrow> AddJob h source title force w = (r, w') \<Longrightarrow> fleet M w' hs cs"
| request: "fleet M w hs cs \<Longrightarrow> RequestCancel h jid w = (r', w') \<Longrightarrow> fleet M w' hs cs"
| elapse: "fleet M w hs cs \<Longrightarrow> wDB w' = (wDB w)\<lparr>now := t\<rparr> \<Longrightarrow> now (wDB w) \<le> t \<Longrightarrow> fleet M w' hs cs"

definition ledger :: "db \<Rightarrow> (int \<times> int) list" where
  "ledger s = map (\<lambda>j. (jID j, jAttempts j)) (jobs s)"

definition started :: "db \<Rightarrow> bool" where
  "started s = list_all (\<lambda>j. jStatus j = Running \<longrightarrow> 1 \<le> jAttempts j) (jobs s)"

definition held_ok :: "(int \<times> int) list \<Rightarrow> Jobs list \<Rightarrow> bool" where
  "held_ok L hs \<longleftrightarrow>
     (\<forall>h\<in>set hs. heldAttempt h = 0 \<or> (\<exists>a. (heldID h, a) \<in> set L \<and> 0 < heldAttempt h \<and> heldAttempt h \<le> a)) \<and>
     (\<forall>i k. i < length hs \<and> k < length hs \<and> i \<noteq> k \<and> heldID (hs ! i) = heldID (hs ! k) \<and>
        heldAttempt (hs ! i) = heldAttempt (hs ! k) \<longrightarrow> heldAttempt (hs ! i) = 0)"

definition count_ok :: "int \<Rightarrow> (int \<times> int) list \<Rightarrow> int list \<Rightarrow> bool" where
  "count_ok M L cs \<longleftrightarrow> distinct (map fst L) \<and> set cs \<subseteq> fst ` set L \<and>
     (\<forall>(i, a)\<in>set L. a = int (count_list cs i) \<and> a \<le> max 0 (Narrow M))"

lemma jobs_kept_ledger:
  assumes "jobs_kept s s'"
  shows "ledger s' = ledger s" "started s \<Longrightarrow> started s'"
proof -
  have l: "length (jobs s') = length (jobs s)" and n: "\<And>i. i < length (jobs s) \<Longrightarrow> job_kept (jobs s ! i) (jobs s' ! i)"
    using assms by (auto simp: jobs_kept_def list_all2_conv_all_nth)
  show "ledger s' = ledger s"
    using l n by (auto simp: ledger_def job_kept_def intro!: nth_equalityI)
  show "started s'" if "started s"
    using that l n unfolding started_def list_all_length job_kept_def by metis
qed

lemma MarkReady_kept: "io_keeps jobs_kept (MarkReady scope ready)"
proof -
  have same: "jobs s' = jobs s \<Longrightarrow> jobs_kept s s'" for s s' using kept.refl[of s] by (simp add: jobs_kept_def)
  have p: "tx_keeps jobs_kept (CopyDocumentAs from to)" "tx_keeps jobs_kept (MoveChunks from to)"
    "tx_keeps jobs_kept (MovePages from to)" "tx_keeps jobs_kept (MoveIndexTerms from to)"
    "tx_keeps jobs_kept (DeleteDocumentOnly from)" "tx_keeps jobs_kept (MarkDocumentReady a b c d)" for "from" "to" a b c d
    unfolding tx_keeps_def CopyDocumentAs_def MoveChunks_def MovePages_def MoveIndexTerms_def DeleteDocumentOnly_def
      MarkDocumentReady_def Let_def
    by (auto intro!: same split: if_splits)
  have "tx_keeps jobs_kept (swapIn ready)"
    unfolding swapIn_def promote_def by (auto intro!: kept.return kept.bind kept.wrap p deleteRows_kept)
  then show ?thesis
    unfolding MarkReady_def
    by (intro kept.run kept.bind kept.wrap)
      (auto intro!: kept.return kept.fenced kept.bind kept.wrap p statement_kept split: option.splits)
qed

lemma RequestCancel_kept: "io_keeps jobs_kept (RequestCancel h jid)"
proof -
  have a: "tx_keeps jobs_kept (JobStatusOf jid)"
    by (auto simp: tx_keeps_def JobStatusOf_def jobWithID_def tx_bind_def tx_return_def kept.refl split: option.splits)
  have b: "tx_keeps jobs_kept (RequestJobCancel jid)"
    unfolding RequestJobCancel_def[abs_def] by (rule updateJobs_kept) (simp add: job_kept_def)
  show ?thesis
    unfolding io_keeps_def RequestCancel_def Read_def
    using io_keepsD[OF kept.run[OF a]] io_keepsD[OF kept.run[OF b]]
    by (auto split: prod.splits sum.splits if_splits) (metis kept.trans)+
qed

lemma nextJobID_above: "j \<in> set (jobs s) \<Longrightarrow> jID j < nextJobID s"
proof -
  have "m \<le> fold (\<lambda>j m. max m (jID j)) js m \<and> (\<forall>j\<in>set js. jID j \<le> fold (\<lambda>j m. max m (jID j)) js m)" for js m
  proof (induction js arbitrary: m)
    case (Cons k js)
    from Cons[of "max m (jID k)"] show ?case by auto
  qed simp
  then show "j \<in> set (jobs s) \<Longrightarrow> jID j < nextJobID s" by (auto simp: nextJobID_def le_imp_less_Suc)
qed

lemma AddJob_ledger:
  assumes "AddJob h source title force w = (r, w')"
  shows "wDB w' = wDB w \<or> (ledger (wDB w') = ledger (wDB w) @ [(nextJobID (wDB w), 0)] \<and>
    (started (wDB w) \<longrightarrow> started (wDB w')))"
proof -
  obtain r1 where r1: "Run (jbScope h) (tx_bind (EnqueueJob (scUser (jbScope h)) source (nullString title) force) (\<lambda>jid.
        tx_bind (QueuePosition jid) (\<lambda>ahead. tx_return (jid, ahead)))) w = (r1, w')"
    using assms by (auto simp: AddJob_def io_wrap_def split: prod.splits sum.splits)
  then have "wDB w' = wDB w \<or> (\<exists>row. wDB w' = (wDB w)\<lparr>jobs := jobs (wDB w) @ [row]\<rparr> \<and>
      jID row = nextJobID (wDB w) \<and> jAttempts row = 0 \<and> jStatus row = Queued)"
  proof (cases rule: Run_cases)
    case (committed a)
    then have "\<exists>row. (wDB w)\<lparr>jobs := jobs (wDB w) @ [row]\<rparr> = wDB w' \<and>
      jID row = nextJobID (wDB w) \<and> jAttempts row = 0 \<and> jStatus row = Queued"
      by (auto simp: tx_bind_def EnqueueJob_def QueuePosition_def tx_return_def split: if_splits)
    then show ?thesis by metis
  qed simp
  then show ?thesis by (auto simp: ledger_def started_def)
qed

lemma Claim_cases:
  assumes "Claim h lease M w = (r, h', w')"
  obtains (idle) "claimOf r = []" "h' = h" "jobs_kept (wDB w) (wDB w')"
  | (took) s row job where "jobs_kept (wDB w) s" "ClaimJob (scUser (jbScope h)) lease (Narrow M) s = Inr (row, wDB w')"
      "r = Inr (Some job)" "jobID job = jID row" "jobAttempts job = jAttempts row"
      "h' = h\<lparr>heldID := jID row, heldAttempt := jAttempts row\<rparr>"
proof -
  obtain a w1 where sw: "sweep h M w = (a, w1)" by force
  have k: "jobs_kept (wDB w) (wDB w1)" by (rule io_keepsD[OF sweep_kept sw])
  show thesis
  proof (cases a)
    case (Inl e)
    then show thesis using assms sw k by (intro idle) (auto simp: Claim_def claimOf_def)
  next
    case (Inr u)
    obtain b w2 where c: "Run (jbScope h) (ClaimJob (scUser (jbScope h)) lease (Narrow M)) w1 = (b, w2)" by force
    then show thesis
    proof (cases rule: Run_cases)
      case (failed e)
      then show thesis using assms sw k c Inr
        by (intro idle) (auto simp: Claim_def claimOf_def split: if_splits)
    next
      case (committed row)
      let ?job = "\<lparr>jobTitle = textOr (jTitle row), jobSource = jSourcePath row, jobID = jID row,
                  jobAttempts = jAttempts row, jobForce = jForce row\<rparr>"
      show thesis
        by (rule took[of "wDB w1" row ?job]) (use assms sw k c Inr committed in \<open>auto simp: Claim_def\<close>)
    qed
  qed
qed

text \<open>A claim adds one to one entry of the ledger.\<close>

definition bumped :: "int \<Rightarrow> (int \<times> int) list \<Rightarrow> (int \<times> int) list" where
  "bumped jid L = map (\<lambda>(i, a). (i, if i = jid then a + 1 else a)) L"

lemma ClaimJob_ledger:
  assumes "ClaimJob user lease n s = Inr (row, s')"
  shows "\<exists>j\<in>set (jobs s). jAttempts j < n \<and> jID row = jID j \<and> jAttempts row = jAttempts j + 1 \<and>
      ledger s' = bumped (jID j) (ledger s)" and "0 \<le> jAttempts row - 1 \<Longrightarrow> started s \<Longrightarrow>
      distinct (map jID (jobs s)) \<Longrightarrow> started s'"
proof -
  obtain j where f: "firstInQueue (filter (claimable user n (now s)) (jobs s)) = Some j"
    and row: "row = claimed lease (now s) j"
    and s': "s' = s\<lparr>jobs := map (\<lambda>k. if jID k = jID j then claimed lease (now s) k else k) (jobs s)\<rparr>"
    using assms by (auto simp: ClaimJob_def split: option.splits)
  have j: "j \<in> set (jobs s)" "claimable user n (now s) j" using firstInQueue_least[OF f] by auto
  show "\<exists>j\<in>set (jobs s). jAttempts j < n \<and> jID row = jID j \<and> jAttempts row = jAttempts j + 1 \<and>
      ledger s' = bumped (jID j) (ledger s)"
    using j by (intro bexI[of _ j]) (auto simp: row s' claimed_def claimable_def ledger_def bumped_def)
  show "started s'" if "0 \<le> jAttempts row - 1" "started s" "distinct (map jID (jobs s))"
  proof -
    have "k = j" if "k \<in> set (jobs s)" "jID k = jID j" for k
      using that j(1) \<open>distinct (map jID (jobs s))\<close> by (auto simp: distinct_map inj_on_def)
    then have "jAttempts k = jAttempts j" if "k \<in> set (jobs s)" "jID k = jID j" for k using that by metis
    then show ?thesis using that(1,2) by (auto simp: started_def s' list_all_iff row claimed_def)
  qed
qed

lemma ledger_keys: "map fst (ledger s) = map jID (jobs s)"
  by (simp add: ledger_def comp_def)

lemma count_bumped:
  assumes "count_ok M L cs" "(jid, a) \<in> set L" "a < Narrow M"
  shows "count_ok M (bumped jid L) (cs @ [jid])"
proof -
  have b: "b = a" if "(jid, b) \<in> set L" for b
    using assms(1,2) that unfolding count_ok_def by (metis eq_key_imp_eq_value)
  have "map fst (bumped jid L) = map fst L" by (simp add: bumped_def comp_def case_prod_unfold)
  then have "distinct (map fst (bumped jid L))" "fst ` set (bumped jid L) = fst ` set L"
    using assms(1) unfolding count_ok_def by (metis, metis list.set_map)
  moreover have "jid \<in> fst ` set L" using assms(2) by force
  moreover have "c = int (count_list (cs @ [jid]) i) \<and> c \<le> max 0 (Narrow M)" if m: "(i, c) \<in> set (bumped jid L)" for i c
  proof -
    from m obtain b where "(i, b) \<in> set L" "c = (if i = jid then b + 1 else b)" by (auto simp: bumped_def)
    moreover from this(1) have "b = int (count_list cs i) \<and> b \<le> max 0 (Narrow M)"
      using assms(1) by (auto simp: count_ok_def)
    ultimately show ?thesis using \<open>\<And>b. (jid, b) \<in> set L \<Longrightarrow> b = a\<close> assms(3) by (cases "i = jid") auto
  qed
  moreover have "set cs \<subseteq> fst ` set L" using assms(1) by (simp add: count_ok_def)
  ultimately show ?thesis unfolding count_ok_def by auto
qed

lemma held_bumped:
  assumes "held_ok L hs" "(jid, a) \<in> set L" "distinct (map fst L)" "0 \<le> a" "i < length hs"
    "heldID h = jid" "heldAttempt h = a + 1"
  shows "held_ok (bumped jid L) (hs[i := h])"
proof -
  have up: "(k, b) \<in> set L \<Longrightarrow> (k, if k = jid then b + 1 else b) \<in> set (bumped jid L)" for k b
    by (force simp: bumped_def)
  have le: "heldAttempt g \<le> a" if "g \<in> set hs" "heldID g = jid" for g
  proof -
    have "heldAttempt g = 0 \<or> (\<exists>b. (jid, b) \<in> set L \<and> heldAttempt g \<le> b)"
      using assms(1) that by (auto simp: held_ok_def)
    moreover have "b = a" if "(jid, b) \<in> set L" for b using assms(2,3) that by (metis eq_key_imp_eq_value)
    ultimately show ?thesis using assms(4) by auto
  qed
  have "\<exists>b. (heldID g, b) \<in> set (bumped jid L) \<and> 0 < heldAttempt g \<and> heldAttempt g \<le> b"
    if "g \<in> set (hs[i := h])" "heldAttempt g \<noteq> 0" for g
  proof (cases "g = h")
    case True
    then show ?thesis using up[OF assms(2)] assms(4,6,7) by (intro exI[of _ "a + 1"]) simp
  next
    case False
    with that have "g \<in> set hs" using set_update_subset_insert by fastforce
    with assms(1) that(2) obtain b where b: "(heldID g, b) \<in> set L" "0 < heldAttempt g" "heldAttempt g \<le> b"
      by (auto simp: held_ok_def)
    then show ?thesis using up[OF b(1)]
      by (intro exI[of _ "if heldID g = jid then b + 1 else b"]) simp
  qed
  moreover have "heldAttempt (hs[i := h] ! m) = 0"
    if m: "m < length hs" "n < length hs" "m \<noteq> n" "heldID (hs[i := h] ! m) = heldID (hs[i := h] ! n)"
      "heldAttempt (hs[i := h] ! m) = heldAttempt (hs[i := h] ! n)" for m n
  proof (cases "m = i \<or> n = i")
    case True
    then obtain g where g: "g \<in> set hs" "heldID g = jid" "heldAttempt g = a + 1"
      using m assms(5-7) by (cases "m = i") (auto simp: nth_list_update dest: nth_mem)
    with le[OF g(1,2)] show ?thesis by simp
  next
    case False
    with m assms(1) show ?thesis by (auto simp: held_ok_def nth_list_update)
  qed
  ultimately show ?thesis unfolding held_ok_def by (metis length_list_update)
qed

definition fleet_ok :: "int \<Rightarrow> db \<Rightarrow> Jobs list \<Rightarrow> int list \<Rightarrow> bool" where
  "fleet_ok M s hs cs \<longleftrightarrow> started s \<and> held_ok (ledger s) hs \<and> count_ok M (ledger s) cs"

lemma fleet_ok_kept: "jobs_kept s s' \<Longrightarrow> fleet_ok M s hs cs \<Longrightarrow> fleet_ok M s' hs cs"
  using jobs_kept_ledger by (simp add: fleet_ok_def)

lemma held_ok_idle: "held_ok L hs \<Longrightarrow> heldAttempt h = 0 \<Longrightarrow> held_ok L (hs @ [h])"
  unfolding held_ok_def by (auto simp: nth_append)

lemma fleet_ok_claim:
  assumes "fleet_ok M (wDB w) hs cs" "i < length hs" "Claim (hs ! i) lease M w = (r, h, w')"
  shows "fleet_ok M (wDB w') (hs[i := h]) (cs @ claimOf r)"
  using assms(3)
proof (cases rule: Claim_cases)
  case idle
  then show ?thesis using assms(1,2) fleet_ok_kept[OF idle(3)] by simp
next
  case (took s row job)
  have ok: "fleet_ok M s hs cs" using took(1) assms(1) fleet_ok_kept by blast
  obtain j where j: "j \<in> set (jobs s)" "jAttempts j < Narrow M" "jID row = jID j" "jAttempts row = jAttempts j + 1"
    "ledger (wDB w') = bumped (jID j) (ledger s)" using ClaimJob_ledger(1)[OF took(2)] by blast
  have mem: "(jID j, jAttempts j) \<in> set (ledger s)" using j(1) by (auto simp: ledger_def)
  have d: "distinct (map fst (ledger s))" using ok by (simp add: fleet_ok_def count_ok_def)
  have nn: "0 \<le> jAttempts j" using ok mem by (auto simp: fleet_ok_def count_ok_def)
  have "started (wDB w')" using ClaimJob_ledger(2)[OF took(2)] ok d nn j(4) by (simp add: fleet_ok_def ledger_keys)
  moreover have "held_ok (bumped (jID j) (ledger s)) (hs[i := h])"
    using ok by (intro held_bumped[OF _ mem d nn assms(2)]) (simp_all add: fleet_ok_def took j)
  moreover have "count_ok M (bumped (jID j) (ledger s)) (cs @ [jID j])"
    using ok count_bumped[OF _ mem j(2)] by (simp add: fleet_ok_def)
  ultimately show ?thesis using took j by (simp add: fleet_ok_def claimOf_def)
qed

lemma fleet_ok_enqueue:
  assumes "fleet_ok M s hs cs" "ledger s' = ledger s @ [(nextJobID s, 0)]" "started s'"
  shows "fleet_ok M s' hs cs"
proof -
  have new: "nextJobID s \<notin> fst ` set (ledger s)" using nextJobID_above[of _ s] by (fastforce simp: ledger_def)
  then have "nextJobID s \<notin> set cs" using assms(1) by (auto simp: fleet_ok_def count_ok_def)
  then have "count_ok M (ledger s') cs" using assms(1,2) new by (auto simp: fleet_ok_def count_ok_def count_list_0_iff)
  moreover have "held_ok (ledger s') hs" using assms(1,2) unfolding fleet_ok_def held_ok_def by auto
  ultimately show ?thesis using assms(3) by (simp add: fleet_ok_def)
qed

lemma fleet_invariant: "fleet M w hs cs \<Longrightarrow> fleet_ok M (wDB w) hs cs"
proof (induction rule: fleet.induct)
  case (start w)
  then show ?case by (simp add: fleet_ok_def started_def held_ok_def count_ok_def ledger_def)
next
  case (worker w hs cs scope)
  then show ?case by (simp add: fleet_ok_def held_ok_idle NewJobs_def)
next
  case (claim w hs cs i lease r h w')
  then show ?case using fleet_ok_claim by blast
next
  case (job_write w hs cs i jid x r w')
  then show ?case using fleet_ok_kept io_keepsD[OF perform_kept] by blast
next
  case (publish w hs cs scope ready r w')
  then show ?case using fleet_ok_kept io_keepsD[OF MarkReady_kept] by blast
next
  case (enqueue w hs cs h source title force r w')
  with AddJob_ledger[OF enqueue.hyps(2)] fleet_ok_enqueue show ?case by (metis fleet_ok_def)
next
  case (request w hs cs h jid r' w')
  then show ?case using fleet_ok_kept io_keepsD[OF RequestCancel_kept] by blast
next
  case (elapse w hs cs w' t)
  then show ?case by (simp add: fleet_ok_def started_def ledger_def)
qed

text \<open>C3: Whatever the workers and callers of a queue do, and whichever transactions fail, at most one
  handle owns a job: a fenced write to it succeeds through no other.\<close>

theorem one_owner:
  assumes "fleet M w hs cs" "i < length hs" "k < length hs" "owns w (hs ! i) jid" "owns w (hs ! k) jid"
  shows "i = k"
proof (rule ccontr)
  assume "i \<noteq> k"
  have ok: "fleet_ok M (wDB w) hs cs" by (rule fleet_invariant[OF assms(1)])
  obtain j where j: "j \<in> set (jobs (wDB w))" "fence jid (attemptOf (hs ! i) jid) j"
    using assms(4) by (auto simp: owns_def list_ex_iff)
  obtain j' where j': "j' \<in> set (jobs (wDB w))" "fence jid (attemptOf (hs ! k) jid) j'"
    using assms(5) by (auto simp: owns_def list_ex_iff)
  have "distinct (map jID (jobs (wDB w)))" using ok by (simp add: fleet_ok_def count_ok_def ledger_keys)
  with j j' have same: "j' = j" by (auto simp: fence_def distinct_map inj_on_def)
  have pos: "1 \<le> jAttempts j" using ok j by (auto simp: fleet_ok_def started_def list_all_iff fence_def)
  then have "heldID (hs ! i) = jid" "heldID (hs ! k) = jid" "heldAttempt (hs ! i) = jAttempts j"
    "heldAttempt (hs ! k) = jAttempts j"
    using j j' same by (auto simp: fence_def attemptOf_def split: if_splits)
  with ok assms(2,3) \<open>i \<noteq> k\<close> pos show False unfolding fleet_ok_def held_ok_def by force
qed

text \<open>Two workers: the second claims what the first let lapse.\<close>

definition ex_scope_u :: Scope where
  "ex_scope_u = Personal (lit ''u'')"

definition ex_start :: World where
  "ex_start = \<lparr>wDB = \<lparr>documents = [], chunks = [], pages = [], index_terms = [], jobs = [], now = 0\<rparr>,
     wFaults = [], wCtx = [], wClock = 0, wLast = None\<rparr>"

definition ex_added :: World where
  "ex_added = snd (AddJob (NewJobs ex_scope_u) (lit ''/a.md'') [] False ex_start)"

definition ex_first :: "(goerror + Job option) \<times> Jobs \<times> World" where
  "ex_first = Claim (NewJobs ex_scope_u) 300 3 ex_added"

definition ex_later :: World where
  "ex_later = (snd (snd ex_first))\<lparr>wDB := (wDB (snd (snd ex_first)))\<lparr>now := 1000\<rparr>\<rparr>"

definition ex_second :: "(goerror + Job option) \<times> Jobs \<times> World" where
  "ex_second = Claim (NewJobs ex_scope_u) 300 3 ex_later"

lemma ex_fleet: "fleet 3 (snd (snd ex_second)) [fst (snd ex_first), fst (snd ex_second)]
  (claimOf (fst ex_first) @ claimOf (fst ex_second))"
proof -
  let ?n = "NewJobs ex_scope_u"
  have "fleet 3 ex_start [] []" by (rule fleet.start) (simp add: ex_start_def)
  then have "fleet 3 ex_added [] []"
    by (rule fleet.enqueue[where r = "fst (AddJob ?n (lit ''/a.md'') [] False ex_start)"]) (simp add: ex_added_def)
  from fleet.worker[OF fleet.worker[OF this], of ex_scope_u ex_scope_u] have "fleet 3 ex_added [?n, ?n] []" by simp
  from fleet.claim[OF this, of 0 300 "fst ex_first" "fst (snd ex_first)" "snd (snd ex_first)"]
  have f: "fleet 3 (snd (snd ex_first)) [fst (snd ex_first), ?n] (claimOf (fst ex_first))" by (simp add: ex_first_def)
  have "now (wDB (snd (snd ex_first))) \<le> 1000" by code_simp
  then have "fleet 3 ex_later [fst (snd ex_first), ?n] (claimOf (fst ex_first))"
    by (intro fleet.elapse[OF f, of ex_later 1000]) (simp_all add: ex_later_def)
  from fleet.claim[OF this, of 1 300 "fst ex_second" "fst (snd ex_second)" "snd (snd ex_second)"]
  show ?thesis by (simp add: ex_second_def)
qed

lemma ex_second_owns: "owns (snd (snd ex_second)) (fst (snd ex_second)) 1"
  by code_simp

theorem one_owner_witness: "\<not> owns (snd (snd ex_second)) (fst (snd ex_first)) 1"
  using one_owner[OF ex_fleet, of 0 1 1] ex_second_owns by auto

text \<open>C14: A job is claimed at most as often as it has attempts, however often workers die, lose their
  leases or fail: the count of its claims is its row's \<^verbatim>\<open>attempts\<close>.\<close>

theorem claims_bounded:
  assumes "fleet M w hs cs" "j \<in> set (jobs (wDB w))"
  shows "jAttempts j = int (count_list cs (jID j)) \<and> int (count_list cs (jID j)) \<le> max 0 (Narrow M)"
  using fleet_invariant[OF assms(1)] assms(2) by (auto simp: fleet_ok_def count_ok_def ledger_def)

theorem claims_bounded_witness:
  "\<exists>j\<in>set (jobs (wDB (snd (snd ex_second)))). jAttempts j = 2 \<and> jAttempts j \<le> 3"
proof -
  have j: "hd (jobs (wDB (snd (snd ex_second)))) \<in> set (jobs (wDB (snd (snd ex_second))))"
    by (rule hd_in_set) code_simp
  have "jAttempts (hd (jobs (wDB (snd (snd ex_second))))) = 2" by code_simp
  moreover have "Narrow 3 = 3" by (simp add: Narrow_def)
  ultimately show ?thesis using j claims_bounded[OF ex_fleet j] by (intro bexI[OF _ j]) simp
qed

lemma dropPartial_total: "\<exists>s'. dropPartial jid s = Inr ((), s') \<and> jobs s' = jobs s"
proof -
  have "\<exists>s'. dropPartial jid s = Inr ((), s')"
    by (auto simp: dropPartial_def DocumentStatus_def tx_bind_def tx_return_def deleteRows_eq
      split: sum.splits option.splits prod.splits)
  then obtain s' where s': "dropPartial jid s = Inr ((), s')" by blast
  then have "jobs s' = jobs s" by (cases rule: dropPartial_cases) auto
  with s' show ?thesis by blast
qed

lemma Run_refused:
  assumes "Run scope work w = (r, w')" "work (wDB w) = Inl (Sentinel s)"
  shows "wDB w' = wDB w \<and> (\<exists>e'. r = Inl e' \<and> (errors_Is e' s \<or> errors_Is e' ErrFault \<or> setScope scope \<noteq> None))"
proof -
  obtain f w1 where p: "popFault w = (f, w1)" by force
  then have "wDB w1 = wDB w" by (metis popFault_db snd_conv)
  with assms p show ?thesis by (cases f) (auto simp: Run_def split: option.splits)
qed

lemma wrapped_refused:
  assumes "io_wrap m (Run scope work) w = (r, w')" "work (wDB w) = Inl (Sentinel s)"
  shows "wDB w' = wDB w \<and> (\<exists>e'. r = Inl e' \<and> (errors_Is e' s \<or> errors_Is e' ErrFault \<or> setScope scope \<noteq> None))"
proof -
  obtain r1 w1 where r1: "Run scope work w = (r1, w1)" by force
  with Run_refused[OF r1 assms(2)] assms(1) show ?thesis by (auto simp: io_wrap_def)
qed

lemma statement_refused:
  assumes "\<not> list_ex (fence jid a) (jobs s)"
  shows "fenced (RecordJobProgress p c t l jid a) s = Inl (Sentinel ErrLostClaim)"
    "fenced (RenewJobLease l jid a) s = Inl (Sentinel ErrLostClaim)"
    "fenced (RecordJobDocID d jid a) s = Inl (Sentinel ErrLostClaim)"
    "fenced (CancelJob jid a) s = Inl (Sentinel ErrLostClaim)"
    "fenced (FinishJob st e perm jid a) s = Inl (Sentinel ErrLostClaim)"
    "fenced (CompleteJobWithoutDocument d jid a) s = Inl (Sentinel ErrLostClaim)"
  using assms unfolding job_statements[abs_def] fenced_updateJobs by simp_all

text \<open>C13: A worker that lost its job learns so and changes nothing: through a handle that does not own
  the job, every write fails, no row of any table differs after it, and the failure is the lost claim
  unless the transaction itself could not begin, commit or be scoped.\<close>

theorem stale_write_refused:
  assumes "\<not> owns w h jid" "perform h jid x w = (r, w')"
  shows "wDB w' = wDB w \<and> (\<exists>e. r = Inl e \<and> (errors_Is e ErrLostClaim \<or> errors_Is e ErrFault \<or>
     setScope (jbScope h) \<noteq> None))"
proof -
  let ?a = "attemptOf h jid"
  note st = statement_refused[OF assms(1)[unfolded owns_def]]
  obtain s' where s': "dropPartial jid (wDB w) = Inr ((), s')" "jobs s' = jobs (wDB w)" using dropPartial_total by blast
  note st' = statement_refused[OF assms(1)[unfolded owns_def, folded s'(2)]]
  have two: "tx_bind (dropPartial jid) (\<lambda>_. fenced (CancelJob jid ?a)) (wDB w) = Inl (Sentinel ErrLostClaim)"
    "tx_bind (dropPartial jid) (\<lambda>_. fenced (FinishJob q e perm jid ?a)) (wDB w) = Inl (Sentinel ErrLostClaim)" for q e perm
    using s'(1) st' by (simp_all add: tx_bind_def)
  show ?thesis
  proof (cases x)
    case (Progress p c t l)
    from assms(2)[unfolded Progress perform.simps RecordProgress_def] show ?thesis by (rule wrapped_refused) (rule st)
  next
    case (Renew l)
    from assms(2)[unfolded Renew perform.simps RenewLease_def] show ?thesis by (rule wrapped_refused) (rule st)
  next
    case (NoteDocID d)
    from assms(2)[unfolded NoteDocID perform.simps RecordDocID_def] show ?thesis by (rule wrapped_refused) (rule st)
  next
    case (CompleteNothing d)
    from assms(2)[unfolded CompleteNothing perform.simps CompleteWithoutDocument_def] show ?thesis by (rule wrapped_refused) (rule st)
  next
    case CancelIt
    from assms(2)[unfolded CancelIt perform.simps CancelHeld_def] show ?thesis by (rule Run_refused) (rule two)
  next
    case (FinishIt oc reason perm)
    from assms(2)[unfolded FinishIt perform.simps Finish_def Let_def] show ?thesis by (rule Run_refused) (rule two)
  qed
qed

theorem stale_write_refused_witness:
  "\<exists>e. fst (perform (fst (snd ex_first)) 1 (FinishIt Failed (lit ''x'') True) (snd (snd ex_second))) = Inl e"
proof -
  have "\<not> owns (snd (snd ex_second)) (fst (snd ex_first)) 1" by code_simp
  from stale_write_refused[OF this] show ?thesis by (metis prod.collapse)
qed

end
