(* ===== verification/Worker_Props.thy ===== *)
theory Worker_Props
  imports Worker Ingest_Props Job_Props
begin

text \<open>
  Properties of the worker: how a failed job ends, what a failed job leaves of the library, how a round
  treats a queue that fails, and two sequences of steps that do not end as they should.
\<close>

subsection \<open>Ending a job\<close>

text \<open>What a drop of a job's partial document may remove: rows of documents nobody can search.\<close>

definition hides_nothing :: "db \<Rightarrow> db \<Rightarrow> bool" where
  "hides_nothing s s' \<longleftrightarrow> (db_ok s \<and> noStagedPublished s \<longrightarrow> db_ok s' \<and> noStagedPublished s' \<and>
     (\<forall>d. searchable s' d = searchable s d) \<and> (\<forall>d. searchable s d \<longrightarrow> view s' d = view s d))"

interpretation hides: store_relation hides_nothing
  by unfold_locales (auto simp: hides_nothing_def)

lemma same_docs_hides: "same_docs s s' \<Longrightarrow> hides_nothing s s'"
  using same_docs_ok[of s s'] view_same_docs[of s s']
  by (auto simp: hides_nothing_def keeps_ok_def searchable_view noStagedPublished_def same_docs_def)

lemma noStagedPublished_iff: "noStagedPublished s \<longleftrightarrow> (\<forall>d. searchable s d \<longrightarrow> \<not> has_suffix d (lit ''~next''))"
  by (auto simp: noStagedPublished_def searchable_def list_all_iff list_ex_iff)

lemma hides_nothingI:
  assumes "db_ok s \<Longrightarrow> noStagedPublished s \<Longrightarrow> db_ok s' \<and> (\<forall>d. searchable s' d = searchable s d) \<and>
    (\<forall>d. searchable s d \<longrightarrow> view s' d = view s d)"
  shows "hides_nothing s s'"
  using assms unfolding hides_nothing_def noStagedPublished_iff by auto

lemma without_hides: "\<not> searchable s d \<Longrightarrow> hides_nothing s (without d s)"
  by (rule hides_nothingI) (auto simp: searchable_view view_without db_ok_without emptyView_def)

lemma unpublished_unsearchable:
  assumes "db_ok s" "find (\<lambda>r. dDocID r = d) (documents s) = Some r" "dStatus r \<noteq> Published"
  shows "\<not> searchable s d"
proof -
  have "r \<in> set (documents s)" "dDocID r = d" using assms(2) by (auto simp: find_Some_iff)
  then have "k = r" if "k \<in> set (documents s)" "dDocID k = d" for k
    using assms(1) that by (auto simp: db_ok_def distinct_map inj_on_def)
  with assms(3) show ?thesis by (auto simp: searchable_def list_ex_iff)
qed

lemma dropPartial_hides: "tx_keeps hides_nothing (dropPartial jid)"
proof (rule tx_keepsI)
  fix s a s' assume dp: "dropPartial jid s = Inr (a, s')"
  show "hides_nothing s s'"
  proof (cases "db_ok s \<and> noStagedPublished s")
    case False
    then show ?thesis unfolding hides_nothing_def by blast
  next
    case True
    then have st: "hides_nothing s (without (Staging d) s)" for d
      using noStagedPublishedD by (intro without_hides) simp
    from dp show ?thesis
    proof (cases rule: dropPartial_cases)
      case (partial d r)
      have "\<not> searchable (without (Staging d) s) d"
        using unpublished_unsearchable[OF _ partial(1,2)] True by (auto simp: searchable_view view_without emptyView_def)
      with st without_hides partial(3) hides.trans show ?thesis by metis
    qed (use st hides.refl in auto)
  qed
qed

lemma job_statement_docs:
  "tx_keeps same_docs (RecordJobProgress p c t l jid a)" "tx_keeps same_docs (RenewJobLease l jid a)"
  "tx_keeps same_docs (RecordJobDocID d jid a)" "tx_keeps same_docs (CancelJob jid a)"
  "tx_keeps same_docs (FinishJob st e perm jid a)" "tx_keeps same_docs (CompleteJobWithoutDocument d jid a)"
  unfolding job_statements[abs_def] using updateJobs_docs by (auto simp: tx_keeps_def)

lemma Finish_hides: "io_keeps hides_nothing (Finish h jid oc reason perm)"
proof -
  have "tx_keeps hides_nothing (FinishJob st e p j a)" for st e p j a
    using job_statement_docs(5) same_docs_hides unfolding tx_keeps_def by blast
  then show ?thesis unfolding Finish_def Let_def by (intro hides.run hides.bind hides.fenced dropPartial_hides)
qed

lemma CancelHeld_hides: "io_keeps hides_nothing (CancelHeld h jid)"
proof -
  have "tx_keeps hides_nothing (CancelJob j a)" for j a
    using job_statement_docs(4) same_docs_hides unfolding tx_keeps_def by blast
  then show ?thesis unfolding CancelHeld_def by (intro hides.run hides.bind hides.fenced dropPartial_hides)
qed

lemma workerFail_hides: "io_keeps hides_nothing (workerFail S h job cause perm)"
  using io_keepsD[OF Finish_hides] unfolding io_keeps_def workerFail_def Let_def
  by (auto split: prod.splits sum.splits)

lemma workerCancelled_hides: "io_keeps hides_nothing (workerCancelled h job)"
  using io_keepsD[OF CancelHeld_hides] unfolding io_keeps_def workerCancelled_def
  by (auto split: prod.splits sum.splits)

text \<open>The callbacks the worker hands the ingest write the job's row and nothing else.\<close>

lemma job_write_docs:
  "io_keeps same_docs (RecordProgress h jid p c t l)" "io_keeps same_docs (RecordDocID h jid d)"
  "io_keeps same_docs (RenewLease h jid l)"
  unfolding RecordProgress_def RecordDocID_def RenewLease_def
  by (intro docs.io_wrap docs.run docs.fenced job_statement_docs)+

lemma ingestOptions_quiet: "quiet_opts (ingestOptions S h job)"
proof -
  have "same_docs (wDB w) (wDB (workerProgress S h jid p a b w))" for jid p a b w
  proof -
    obtain r w' where rp: "RecordProgress h jid (Phase_String p) a b (woLease (svOpts S)) (w\<lparr>wLast := Some (wClock w)\<rparr>) = (r, w')"
      by force
    from io_keepsD[OF job_write_docs(1) rp] rp show ?thesis by (simp add: workerProgress_def docs.refl)
  qed
  moreover have "same_docs (wDB w) (wDB (recordDocID h jid d w))" for jid d w
  proof -
    obtain r w' where rd: "RecordDocID h jid d w = (r, w')" by force
    from io_keepsD[OF job_write_docs(2) rd] rd show ?thesis by (simp add: recordDocID_def)
  qed
  ultimately show ?thesis by (simp add: quiet_opts_def ingestOptions_def)
qed

lemma check_docs: "check S h jid w = (a, b, w') \<Longrightarrow> same_docs (wDB w) (wDB w')"
proof -
  have cr: "io_keeps same_docs (CancelRequested h jid)"
  proof -
    have "tx_keeps same_docs (JobCancelRequested jid)"
      by (auto simp: tx_keeps_def JobCancelRequested_def jobWithID_def tx_bind_def tx_return_def docs.refl split: option.splits)
    from io_keepsD[OF docs.run[OF this]] show ?thesis
      unfolding io_keeps_def CancelRequested_def Read_def by (auto split: prod.splits sum.splits if_splits)
  qed
  assume c: "check S h jid w = (a, b, w')"
  obtain r1 w1 where rl: "RenewLease h jid (woLease (svOpts S)) w = (r1, w1)" by force
  obtain r2 w2 where rc: "CancelRequested h jid w1 = (r2, w2)" by force
  have "w' = w1 \<or> w' = w2" using c rl rc by (auto simp: check_def Let_def split: sum.splits if_splits)
  with io_keepsD[OF job_write_docs(3) rl] io_keepsD[OF cr rc] docs.trans show "same_docs (wDB w) (wDB w')" by blast
qed

lemma watch_docs: "watch n S h jid w = (a, w') \<Longrightarrow> same_docs (wDB w) (wDB w')"
proof (induction n arbitrary: w)
  case (Suc n)
  obtain r e w1 where c: "check S h jid w = (r, e, w1)" by (cases "check S h jid w") auto
  show ?case
    using Suc.prems Suc.IH[of w1] check_docs[OF c] c docs.trans by (cases e) (auto simp: Let_def)
qed (simp add: docs.refl)


text \<open>How a failed job ends.  Once it is recorded, the job is back on the queue exactly when the
  failure is not permanent and it has attempts left; otherwise it is failed.  It keeps its attempts,
  says why it failed and whether for good, holds no lease, and no other job changes.\<close>

theorem workerFail_ends_job:
  assumes "workerFail S h job cause perm w = (Inr u, w')" "fence (jobID job) (attemptOf h (jobID job)) j"
    "j \<in> set (jobs (wDB w))"
  shows "(\<exists>k\<in>set (jobs (wDB w')). jID k = jobID job \<and> jAttempts k = jAttempts j \<and>
      jStatus k = (if perm \<or> woMaxAttempts (svOpts S) \<le> jobAttempts job then FailedJob else Queued) \<and>
      jError k = nullString (errorText cause) \<and> jPermanent k = perm \<and> jLeaseUntil k = None) \<and>
    filter (\<lambda>k. jID k \<noteq> jobID job) (jobs (wDB w')) = filter (\<lambda>k. jID k \<noteq> jobID job) (jobs (wDB w))"
proof -
  let ?st = "if perm \<or> woMaxAttempts (svOpts S) \<le> jobAttempts job then FailedJob else Queued"
  let ?f = "\<lambda>k. if fence (jobID job) (attemptOf h (jobID job)) k then k\<lparr>jStatus := ?st, jPhase := None,
     jError := nullString (errorText cause), jPermanent := perm, jLeaseUntil := None, jUpdatedAt := now (wDB w)\<rparr> else k"
  have "Run (jbScope h) (tx_bind (dropPartial (jobID job)) (\<lambda>_. fenced (FinishJob ?st (nullString (errorText cause)) perm
     (jobID job) (attemptOf h (jobID job))))) w = (Inr (), w')"
    using assms(1) by (auto simp: workerFail_def Let_def Finish_def split: prod.splits sum.splits if_splits)
  then obtain s' where s': "dropPartial (jobID job) (wDB w) = Inr ((), s')"
    "fenced (FinishJob ?st (nullString (errorText cause)) perm (jobID job) (attemptOf h (jobID job))) s' = Inr ((), wDB w')"
    by (cases rule: Run_cases) (auto simp: tx_bind_def split: sum.splits)
  have same: "jobs s' = jobs (wDB w)" "now s' = now (wDB w)" using s'(1) by (cases rule: dropPartial_cases; simp)+
  have jobs': "jobs (wDB w') = map ?f (jobs (wDB w))"
    using fenced_committed[OF s'(2)[unfolded FinishJob_def[abs_def]]] same by simp
  have "\<exists>k\<in>set (jobs (wDB w')). jID k = jobID job \<and> jAttempts k = jAttempts j \<and> jStatus k = ?st \<and>
      jError k = nullString (errorText cause) \<and> jPermanent k = perm \<and> jLeaseUntil k = None"
    using assms(2,3) unfolding jobs' by (intro bexI[of _ "?f j"]) (auto simp: fence_def)
  moreover have "filter (\<lambda>k. jID k \<noteq> jobID job) (map ?f js) = filter (\<lambda>k. jID k \<noteq> jobID job) js" for js
    by (induction js) (auto simp: fence_def)
  ultimately show ?thesis unfolding jobs' by blast
qed

text \<open>A worker of the example library whose ingest fails at its publishing commit.\<close>

definition ex_options :: WorkerOptions where
  "ex_options = \<lparr>woLease = 0, woPoll = 0, woCancelPoll = 0, woJobTimeout = 0, woMaxAttempts = 0, woOnce = True\<rparr>"

definition ex_sources :: "gostring \<Rightarrow> bool \<Rightarrow> goerror + Source" where
  "ex_sources target revalidate = Inr ex_source"

definition ex_bare :: Service where
  "ex_bare = New (\<lambda>_ _ w. (Inl (Sentinel ErrFault), watchRunning, False, w)) ex_sources ex_options"

definition ex_handle :: Jobs where
  "ex_handle = (NewJobs ex_scope)\<lparr>heldID := 1, heldAttempt := 1\<rparr>"

definition ex_claimed :: Job where
  "ex_claimed = \<lparr>jobTitle = [], jobSource = lit ''/a.md'', jobID = 1, jobAttempts = 1, jobForce = False\<rparr>"

definition ex_working :: "bool list \<Rightarrow> World" where
  "ex_working faults = (ex_world faults)\<lparr>wDB := (wDB (ex_world []))\<lparr>jobs := [(ex_job 1)\<lparr>jStatus := Running, jAttempts := 1,
     jLeaseUntil := Some 100\<rparr>]\<rparr>\<rparr>"

definition ex_service :: Service where
  "ex_service = ex_bare\<lparr>svIngester := runWatched ex_codecs ex_scope ex_bare ex_handle 1 0\<rparr>"

lemma ex_service_run: "svIngester ex_service = runWatched ex_codecs ex_scope ex_service ex_handle (jobID ex_claimed) 0"
  by (simp add: ex_service_def runWatched_def[abs_def] ex_claimed_def)

lemma ex_working_ok: "db_ok (wDB (ex_working fs))" "noStagedPublished (wDB (ex_working fs))"
  using ex_world_ok[of "[]"] by (simp_all add: ex_working_def db_ok_def noStagedPublished_def hasDocument_def)

lemma ex_service_source: "svSources ex_service (jobSource ex_claimed) True = Inr ex_source"
  by (simp add: ex_service_def ex_bare_def New_def Let_def ex_sources_def)

definition ex_faults :: "bool list" where
  "ex_faults = replicate 14 False @ [True]"

lemma ex_service_fails:
  "isl (fst (svIngester ex_service ex_source (ingestOptions ex_service ex_handle ex_claimed)
     ((ex_working ex_faults)\<lparr>wLast := None\<rparr>)))"
  by code_simp


theorem workerFail_ends_job_witness:
  "\<exists>w'. workerFail ex_service ex_handle ex_claimed (Sentinel ErrUnresolved) (permanent (Sentinel ErrUnresolved)) (ex_working []) = (Inr (), w') \<and>
     (\<exists>k\<in>set (jobs (wDB w')). jStatus k = Queued)"
proof -
  let ?w = "ex_working []"
  have "fst (workerFail ex_service ex_handle ex_claimed (Sentinel ErrUnresolved) (permanent (Sentinel ErrUnresolved)) ?w) = Inr ()"
    by code_simp
  then obtain w' where x: "workerFail ex_service ex_handle ex_claimed (Sentinel ErrUnresolved)
      (permanent (Sentinel ErrUnresolved)) ?w = (Inr (), w')" by (metis prod.collapse)
  have j: "hd (jobs (wDB ?w)) \<in> set (jobs (wDB ?w))"
    "fence (jobID ex_claimed) (attemptOf ex_handle (jobID ex_claimed)) (hd (jobs (wDB ?w)))"
    by (simp_all add: ex_working_def fence_def ex_claimed_def attemptOf_def ex_handle_def ex_job_def)
  have "\<not> (permanent (Sentinel ErrUnresolved) \<or> woMaxAttempts (svOpts ex_service) \<le> jobAttempts ex_claimed)" by code_simp
  with x workerFail_ends_job[OF x j(2,1)] show ?thesis by auto
qed

subsection \<open>A round of the rotation\<close>

text \<open>What each queue of a list answers when it is offered a job in turn.\<close>

fun offers :: "(Queue \<Rightarrow> Service \<times> Jobs) \<Rightarrow> Queue list \<Rightarrow> rotation \<Rightarrow> (goerror + bool) list \<times> rotation" where
  "offers worker [] st = ([], st)"
| "offers worker (q # qs) st =
     (let (r, st) = serve worker q st; (rs, st) = offers worker qs st in (r # rs, st))"

lemma serveAll_offers:
  "serveAll worker qs worked failed st =
     (worked \<or> Inr True \<in> set (fst (offers worker qs st)),
      failed @ map projl (filter isl (fst (offers worker qs st))), snd (offers worker qs st))"
proof (induction qs arbitrary: worked failed st)
  case (Cons q qs)
  obtain r st1 where s: "serve worker q st = (r, st1)" by force
  show ?case
    by (cases r) (auto simp: s Cons.IH Let_def split: prod.splits)
qed simp

lemma offers_length: "length (fst (offers worker qs st)) = length qs"
  by (induction qs arbitrary: st) (auto simp: Let_def split: prod.splits, metis fst_conv)

text \<open>A round offers every waiting queue one job, in order and whatever the queues before it
  answered.  It fails, with the first failure, only when every queue failed; otherwise it reports
  whether any queue had a job.\<close>

theorem round_offers_all:
  assumes "waiting st = (Inr queues, st1)"
  shows "round waiting worker st =
    (let (rs, st2) = offers worker queues st1
     in (if queues \<noteq> [] \<and> filter isl rs = rs then Inl (projl (hd rs)) else Inr (Inr True \<in> set rs), st2))
    \<and> length (fst (offers worker queues st1)) = length queues"
proof -
  obtain rs st2 where o: "offers worker queues st1 = (rs, st2)" by force
  have len: "length rs = length queues" using offers_length[of worker queues st1] o by simp
  have "length (filter isl rs) = length rs \<longleftrightarrow> filter isl rs = rs"
    by (metis filter_True length_filter_less less_irrefl)
  then have full: "length (map projl (filter isl rs)) = length queues \<longleftrightarrow> filter isl rs = rs" using len by simp
  have ne: "0 < length (map projl (filter isl rs)) \<and> filter isl rs = rs \<longleftrightarrow> queues \<noteq> [] \<and> filter isl rs = rs"
    using len by (metis length_0_conv length_greater_0_conv length_map)
  have "queues \<noteq> [] \<Longrightarrow> filter isl rs = rs \<Longrightarrow> hd (map projl (filter isl rs)) = projl (hd rs)"
    using len by (metis hd_map length_0_conv)
  then show ?thesis
    using assms o serveAll_offers[of worker queues False "[]" st1] full ne len
    by (auto simp: round_def Let_def)
qed

definition ex_two_queues :: "Queue list" where
  "ex_two_queues = [\<lparr>qUser = [], qLibrary = lit ''a''\<rparr>, \<lparr>qUser = lit ''u'', qLibrary = lit ''b''\<rparr>]"

definition ex_queues :: "rotation \<Rightarrow> (goerror + Queue list) \<times> rotation" where
  "ex_queues st = (Inr ex_two_queues, st)"

definition ex_worker :: "Queue \<Rightarrow> Service \<times> Jobs" where
  "ex_worker q = (ex_bare, NewJobs \<lparr>scUser = qUser q, scLibrary = qLibrary q\<rparr>)"

definition ex_rotation :: rotation where
  "ex_rotation = \<lparr>rtBuilt = [], rtWorlds = (\<lambda>_. ex_start)\<rparr>"

theorem round_offers_all_witness:
  "fst (round ex_queues ex_worker ex_rotation) = Inr False"
proof -
  let ?rs = "fst (offers ex_worker ex_two_queues ex_rotation)"
  have q: "ex_queues ex_rotation = (Inr ex_two_queues, ex_rotation)" by (simp add: ex_queues_def)
  have "\<not> list_all isl ?rs" "Inr True \<notin> set ?rs" by code_simp+
  moreover from this(1) have "filter isl ?rs \<noteq> ?rs" by (auto simp: filter_id_conv list_all_iff)
  ultimately show ?thesis
    using round_offers_all[where waiting = ex_queues and worker = ex_worker, OF q] by (simp add: case_prod_unfold)
qed

subsection \<open>Two sequences that end badly\<close>

definition ex_asked :: World where
  "ex_asked = snd (RequestCancel ex_handle 1 (ex_working []))"

lemma ex_asked_requeued:
  "map (\<lambda>j. (jStatus j, jCancelReq j))
     (jobs (wDB (snd (workerFail ex_service ex_handle ex_claimed (Sentinel ErrFault) False ex_asked)))) = [(Queued, True)]"
  by code_simp


definition ex_taken :: World where
  "ex_taken = snd (Create ex_scope \<lparr>doPageCount = None, doDocID = Staging (lit ''t''), doTitle = lit ''T'',
     doFormat = lit ''text'', doIdentity = lit ''/a.md'', doDigest = lit ''d1'', doKind = 1\<rparr> []
     ((ex_working [])\<lparr>wDB := (wDB (ex_working []))\<lparr>jobs := [(ex_job 1)\<lparr>jStatus := Running, jAttempts := 2\<rparr>]\<rparr>\<rparr>))"

definition ex_ready :: "int \<Rightarrow> Ready" where
  "ex_ready attempt = \<lparr>rdJobID = Some 1, rdIngestedAt = 9, rdDocID = Staging (lit ''t''), rdReplaces = lit ''t'',
     rdWarnings = [], rdJobAttempt = attempt, rdChunkCount = 1\<rparr>"

definition ex_cleaned :: "(goerror + unit) \<times> World" where
  "ex_cleaned = DeleteDoc ex_scope (Staging (lit ''t'')) (snd (MarkReady ex_scope (ex_ready 1) ex_taken))"


end
