(* ===== verification/JobService.thy ===== *)
theory JobService
  imports JobStore
begin

text \<open>
  \<^verbatim>\<open>internal/service/job\<close>: the queue as a caller drives it.  The registry that turns a target into
  sources is an argument.
\<close>

definition defaultLimit :: int where "defaultLimit = 50"

record QueuedJob =
  qjSource :: gostring
  qjJobID :: int
  qjPosition :: int

fun enqueueEach :: "Jobs \<Rightarrow> gostring \<Rightarrow> bool \<Rightarrow> QueuedJob list \<Rightarrow> gostring list \<Rightarrow> QueuedJob list io" where
  "enqueueEach h title force queued [] w = (Inr queued, w)"
| "enqueueEach h title force queued (source # sources) w =
     (case AddJob h source title force w of
        (Inl e, w) \<Rightarrow> (Inl (Errorf (lit ''queue '' @ source) e), w)
      | (Inr (jid, position), w) \<Rightarrow>
          enqueueEach h title force
            (queued @ [\<lparr>qjSource = source, qjJobID = jid, qjPosition = position\<rparr>]) sources w)"

definition Enqueue ::
  "(gostring \<Rightarrow> goerror + gostring list) \<Rightarrow> Jobs \<Rightarrow> gostring \<Rightarrow> gostring \<Rightarrow> bool \<Rightarrow> QueuedJob list io" where
  "Enqueue targets h target title force w =
     (case targets target of
        Inl e \<Rightarrow> (Inl e, w)
      | Inr sources \<Rightarrow> enqueueEach h title force [] sources w)"

definition ListQueue :: "Jobs \<Rightarrow> bool \<Rightarrow> int \<Rightarrow> jobRow list io" where
  "ListQueue h includeCompleted limit =
     io_wrap (lit ''list jobs'')
       (ListJobs h includeCompleted (if limit \<le> 0 then defaultLimit else limit))"

definition GetJob :: "Jobs \<Rightarrow> int \<Rightarrow> jobRow io" where
  "GetJob h jid = io_wrap (lit ''read job '' @ show_int jid) (JobOf h jid)"

definition CancelQueued :: "Jobs \<Rightarrow> int \<Rightarrow> gostring io" where
  "CancelQueued h jid = io_wrap (lit ''cancel job '' @ show_int jid) (RequestCancel h jid)"

text \<open>What is queued stays in the order of the sources, whatever number of them there is: identifiers
  rise by one from the first free one.\<close>

lemma AddJob_committed:
  assumes "AddJob h source title force w = (Inr (jid, pos), w')"
  shows "jid = nextJobID (wDB w)" "map jSourcePath (jobs (wDB w')) = map jSourcePath (jobs (wDB w)) @ [source]"
    "nextJobID (wDB w') = jid + 1" "documents (wDB w') = documents (wDB w)"
proof -
  have "\<exists>row. wDB w' = (wDB w)\<lparr>jobs := jobs (wDB w) @ [row]\<rparr> \<and> jID row = nextJobID (wDB w) \<and> jSourcePath row = source \<and>
     jid = nextJobID (wDB w)"
    using assms
    by (auto simp: AddJob_def io_wrap_def Run_def Let_def tx_bind_def EnqueueJob_def QueuePosition_def tx_return_def
      popFault_def split: prod.splits sum.splits if_splits option.splits list.splits)
  then obtain row where "wDB w' = (wDB w)\<lparr>jobs := jobs (wDB w) @ [row]\<rparr>" "jID row = nextJobID (wDB w)"
    "jSourcePath row = source" "jid = nextJobID (wDB w)" by blast
  then show "jid = nextJobID (wDB w)" "map jSourcePath (jobs (wDB w')) = map jSourcePath (jobs (wDB w)) @ [source]"
    "nextJobID (wDB w') = jid + 1" "documents (wDB w') = documents (wDB w)"
    by (simp_all add: nextJobID_def)
qed

lemma enqueueEach_done:
  "enqueueEach h title force queued sources w = (Inr qs, w') \<Longrightarrow>
     map qjSource qs = map qjSource queued @ sources \<and>
     map qjJobID qs = map qjJobID queued @ [nextJobID (wDB w)..nextJobID (wDB w) + int (length sources) - 1] \<and>
     map jSourcePath (jobs (wDB w')) = map jSourcePath (jobs (wDB w)) @ sources"
proof (induction sources arbitrary: queued w)
  case (Cons s ss)
  from Cons.prems obtain jid pos w1 where a: "AddJob h s title force w = (Inr (jid, pos), w1)"
    and rest: "enqueueEach h title force (queued @ [\<lparr>qjSource = s, qjJobID = jid, qjPosition = pos\<rparr>]) ss w1 = (Inr qs, w')"
    by (auto split: prod.splits sum.splits)
  have "[jid..jid + int (length (s # ss)) - 1] = jid # [jid + 1..jid + 1 + int (length ss) - 1]"
    by (subst upto.simps) simp
  with Cons.IH[OF rest] AddJob_committed[OF a] show ?case by simp
qed simp

text \<open>Queueing a target puts one job on the queue for each of its sources, in order and after every
  job already there, and answers with consecutive identifiers.\<close>

theorem Enqueue_queues_all:
  assumes "targets target = Inr sources" "Enqueue targets h target title force w = (Inr qs, w')"
  shows "map qjSource qs = sources \<and> map qjJobID qs = [nextJobID (wDB w)..nextJobID (wDB w) + int (length sources) - 1] \<and>
    map jSourcePath (jobs (wDB w')) = map jSourcePath (jobs (wDB w)) @ sources"
  using assms enqueueEach_done[of h title force "[]" sources w qs w'] by (simp add: Enqueue_def)

definition ex_targets :: "gostring \<Rightarrow> goerror + gostring list" where
  "ex_targets t = Inr [lit ''/a.md'', lit ''/b.md'']"

definition ex_empty_queue :: World where
  "ex_empty_queue = \<lparr>wDB = \<lparr>documents = [], chunks = [], pages = [], index_terms = [], jobs = [], now = 0\<rparr>,
     wFaults = [], wCtx = [], wClock = 0, wLast = None\<rparr>"

theorem Enqueue_queues_all_witness:
  "\<exists>qs w'. Enqueue ex_targets (NewJobs (Personal (lit ''u''))) (lit ''/'') [] False ex_empty_queue = (Inr qs, w') \<and>
     map qjJobID qs = [1, 2]"
proof -
  let ?run = "Enqueue ex_targets (NewJobs (Personal (lit ''u''))) (lit ''/'') [] False ex_empty_queue"
  have "\<not> isl (fst ?run)" by code_simp
  then obtain qs w' where r: "?run = (Inr qs, w')" by (metis prod.collapse sum.exhaust_disc sum.collapse(2))
  from Enqueue_queues_all[OF _ r, of "[lit ''/a.md'', lit ''/b.md'']"] r show ?thesis
    by (simp add: ex_targets_def nextJobID_def ex_empty_queue_def upto.simps)
qed

end
