(* ===== verification/Search.thy ===== *)
theory Search
  imports Store Tokens
begin

text \<open>
  \<^verbatim>\<open>internal/pgstore\<close>: search.  What Postgres and pg_textsearch supply is the record \<open>ChunkIndex\<close>: the
  identifier of a chunk's row and its BM25 score for a query, negative where it matches and lower where
  it matches better.  \<^verbatim>\<open>ORDER BY\<close> the score is a stable sort of the table.  A library without a partition
  has no index.
\<close>

record ChunkIndex =
  ixID :: "chunkRow \<Rightarrow> int"
  ixScore :: "gostring \<Rightarrow> chunkRow \<Rightarrow> rat"

subsection \<open>Sections\<close>

definition SectionCovers :: "gostring \<Rightarrow> gostring \<Rightarrow> bool" where
  "SectionCovers ref section =
     (if ref = [] \<or> section = [] then False
      else if section = ref then True
      else has_prefix section (ref @ lit ''.''))"

fun AnySectionCovers :: "gostring list \<Rightarrow> gostring \<Rightarrow> bool" where
  "AnySectionCovers [] section = False"
| "AnySectionCovers (ref # refs) section = (SectionCovers ref section \<or> AnySectionCovers refs section)"

text \<open>The same rule as SQL has it, in \<^verbatim>\<open>ChunksInSection\<close>; a NULL section matches nothing.\<close>

definition ChunksInSection :: "gostring \<Rightarrow> gostring \<Rightarrow> (gostring \<times> gostring) list tx" where
  "ChunksInSection docID section s =
     Inr (map (\<lambda>c. (cHeadingPath c, cText c)) (sort_key cOrdinal (filter (\<lambda>c. cDocID c = docID \<and>
        (case cSection c of None \<Rightarrow> False
         | Some x \<Rightarrow> x = section \<or> has_prefix x (section @ lit ''.''))) (chunks s))), s)"

subsection \<open>Results\<close>

record SearchResult =
  srPageStart :: "int option"
  srPageEnd :: "int option"
  srPrintedPage :: "int option"
  srDocID :: gostring
  srLibrary :: gostring
  srTitle :: gostring
  srHeadingPath :: gostring
  srSection :: gostring
  srKind :: gostring
  srURL :: gostring
  srFragment :: gostring
  srText :: gostring
  srChunkID :: int
  srRelevance :: rat
  srBM25 :: rat
  srRank :: int
  srImageCount :: int
  srIndexBoost :: bool

definition relevanceScale :: rat where "relevanceScale = 10"

definition relevance :: "rat \<Rightarrow> rat" where
  "relevance bm25 =
     (let strength = - bm25; strength = (if strength < 0 then 0 else strength)
      in rnd (strength / rnd (strength + relevanceScale)))"

record SearchParams =
  spQuery :: gostring
  spDocID :: gostring
  spSectionFilter :: gostring
  spK :: int
  spKeywords :: bool

definition indexBoost :: rat where "indexBoost = 2"
definition keywordReferencePenalty :: rat where "keywordReferencePenalty = 6"
definition maxK :: int where "maxK = 200"

definition wordRe :: "unicode \<Rightarrow> rune \<Rightarrow> bool" where
  "wordRe U r = (uLetter U r \<or> uNd U r \<or> uNlNo U r \<or> r = 95)"

definition ftsQuery :: "unicode \<Rightarrow> gostring \<Rightarrow> goerror + gostring" where
  "ftsQuery U raw =
     (let words = find_runs (wordRe U) raw
      in if length words = 0 then Inl (ErrorNew (lit ''query contains no searchable terms''))
         else Inr (join [32] words))"

definition preparedSearch :: "unicode \<Rightarrow> SearchParams \<Rightarrow> goerror + SearchParams \<times> gostring" where
  "preparedSearch U p =
     (let p = (if spK p \<le> 0 then p\<lparr>spK := 8\<rparr> else p);
          p = (if maxK < spK p then p\<lparr>spK := maxK\<rparr> else p)
      in case ftsQuery U (spQuery p) of Inl e \<Rightarrow> Inl e | Inr match \<Rightarrow> Inr (p, match))"

definition poolSize :: "int \<Rightarrow> int" where
  "poolSize k = k * 4"

definition scanResult :: "ChunkIndex \<Rightarrow> gostring \<Rightarrow> chunkRow \<Rightarrow> SearchResult" where
  "scanResult ix match c = \<lparr>srPageStart = cPageStart c, srPageEnd = cPageEnd c, srPrintedPage = cPrintedPageStart c,
     srDocID = cDocID c, srLibrary = [], srTitle = [], srHeadingPath = cHeadingPath c,
     srSection = (case cSection c of None \<Rightarrow> [] | Some x \<Rightarrow> x), srKind = cKind c,
     srURL = (case cURL c of None \<Rightarrow> [] | Some x \<Rightarrow> x), srFragment = (case cFragment c of None \<Rightarrow> [] | Some x \<Rightarrow> x),
     srText = cText c, srChunkID = ixID ix c, srRelevance = 0, srBM25 = ixScore ix match c, srRank = 0,
     srImageCount = cImageCount c, srIndexBoost = False\<rparr>"

record resultLabel =
  rlTitle :: gostring
  rlBoostSections :: "gostring list"
  rlKeepKeywords :: bool

definition adjusted :: "resultLabel \<Rightarrow> SearchResult \<Rightarrow> SearchResult" where
  "adjusted label r =
     (let r = (if AnySectionCovers (rlBoostSections label) (srSection r)
               then r\<lparr>srIndexBoost := True, srBM25 := rnd (srBM25 r - indexBoost)\<rparr> else r)
      in if srKind r = lit ''keyword-reference'' \<and> \<not> rlKeepKeywords label
         then r\<lparr>srBM25 := rnd (srBM25 r + keywordReferencePenalty)\<rparr> else r)"

definition ranked :: "nat \<Rightarrow> SearchResult \<Rightarrow> SearchResult" where
  "ranked i r = r\<lparr>srRank := int i + 1, srRelevance := relevance (srBM25 r)\<rparr>"

definition rankCandidates :: "SearchResult list \<Rightarrow> int \<Rightarrow> SearchResult list" where
  "rankCandidates out k =
     (let out = sort_key srBM25 out;
          out = (if k < int (length out) then take (nat k) out else out)
      in map (\<lambda>(i, r). ranked i r) (zip [0..<length out] out))"

subsection \<open>The index terms\<close>

definition termConditions :: "unicode \<Rightarrow> gostring \<Rightarrow> gostring list" where
  "termConditions U query =
     filter (\<lambda>w. \<not> byteLen w < 3) (find_runs (wordRe U) (map (uToLower U) query))"

definition termMatches :: "unicode \<Rightarrow> gostring list \<Rightarrow> gostring \<Rightarrow> bool" where
  "termMatches U conds term = list_ex (contains (map (uToLower U) term)) conds"

text \<open>The sections by document; an empty \<^verbatim>\<open>docID\<close> asks for every document's.\<close>

definition indexSections :: "unicode \<Rightarrow> gostring \<Rightarrow> gostring \<Rightarrow> db \<Rightarrow> gostring \<Rightarrow> gostring list" where
  "indexSections U docID query s d =
     (let conds = termConditions U query
      in if conds = [] then []
         else remdups (map (snd \<circ> snd) (filter (\<lambda>(doc, t, _). termMatches U conds t \<and>
           (docID = [] \<or> doc = docID) \<and> doc = d) (index_terms s))))"

subsection \<open>One document\<close>

definition sectionWithin :: "gostring \<Rightarrow> chunkRow \<Rightarrow> bool" where
  "sectionWithin f c = (f = [] \<or> cHeadingPath c = f \<or> has_prefix (cHeadingPath c) (f @ lit '' > ''))"

definition DocumentByID :: "gostring \<Rightarrow> db \<Rightarrow> docRow option" where
  "DocumentByID docID s = find (\<lambda>d. dDocID d = docID) (documents s)"

definition documentLabel :: "gostring \<Rightarrow> db \<Rightarrow> gostring \<times> bool" where
  "documentLabel docID s =
     (case DocumentByID docID s of None \<Rightarrow> ([], False) | Some row \<Rightarrow> (dTitle row, dStatus row = Published))"

definition candidateQuery :: "ChunkIndex \<Rightarrow> gostring \<Rightarrow> SearchParams \<Rightarrow> db \<Rightarrow> chunkRow list" where
  "candidateQuery ix match p s =
     sort_key (ixScore ix match) (filter (\<lambda>c. ixScore ix match c < 0)
       (take (nat (poolSize (spK p))) (sort_key (ixScore ix match)
         (filter (\<lambda>c. cDocID c = spDocID p \<and> sectionWithin (spSectionFilter p) c) (chunks s)))))"

definition scanResults :: "ChunkIndex \<Rightarrow> gostring \<Rightarrow> resultLabel \<Rightarrow> chunkRow list \<Rightarrow> SearchResult list" where
  "scanResults ix match label rows =
     map (\<lambda>c. adjusted label ((scanResult ix match c)\<lparr>srTitle := rlTitle label\<rparr>)) rows"

definition candidates :: "ChunkIndex \<Rightarrow> gostring \<Rightarrow> SearchParams \<Rightarrow> resultLabel \<Rightarrow> db \<Rightarrow> SearchResult list" where
  "candidates ix match p label s =
     rankCandidates (scanResults ix match label (candidateQuery ix match p s)) (spK p)"

definition oneDocument :: "unicode \<Rightarrow> ChunkIndex \<Rightarrow> SearchParams \<Rightarrow> gostring \<Rightarrow> db \<Rightarrow> SearchResult list" where
  "oneDocument U ix p match s =
     (let (title, ready) = documentLabel (spDocID p) s
      in if \<not> ready then []
         else candidates ix match p \<lparr>rlTitle = title,
                rlBoostSections = indexSections U (spDocID p) (spQuery p) s (spDocID p),
                rlKeepKeywords = spKeywords p\<rparr> s)"

subsection \<open>Every document, in one walk\<close>

definition ListReadyDocuments :: "db \<Rightarrow> docRow list" where
  "ListReadyDocuments s =
     (let rows = filter (\<lambda>d. dStatus d = Published) (documents s)
      in map (\<lambda>i. the (find (\<lambda>d. dDocID d = i) rows)) (sort_texts (map dDocID rows)))"

definition readyTitles :: "db \<Rightarrow> (gostring \<times> gostring) list" where
  "readyTitles s = map (\<lambda>d. (dDocID d, dTitle d)) (ListReadyDocuments s)"

definition walkQuery :: "ChunkIndex \<Rightarrow> gostring \<Rightarrow> SearchParams \<Rightarrow> db \<Rightarrow> chunkRow list" where
  "walkQuery ix match p s =
     sort_key (ixScore ix match) (filter (sectionWithin (spSectionFilter p)) (chunks s))"

text \<open>\<^verbatim>\<open>walkPools.read\<close>: a row is kept while its document's pool has room.\<close>

fun walkRead :: "ChunkIndex \<Rightarrow> (gostring \<Rightarrow> int) \<Rightarrow> chunkRow list \<Rightarrow> int list" where
  "walkRead ix wanted [] = []"
| "walkRead ix wanted (c # cs) =
     (if 0 < wanted (cDocID c)
      then ixID ix c # walkRead ix (wanted(cDocID c := wanted (cDocID c) - 1)) cs
      else walkRead ix wanted cs)"

definition walk :: "ChunkIndex \<Rightarrow> SearchParams \<Rightarrow> gostring \<Rightarrow> (gostring \<times> gostring) list \<Rightarrow> db \<Rightarrow> int list" where
  "walk ix p match ready s =
     walkRead ix (\<lambda>d. if d \<in> set (map fst ready) then poolSize (spK p) else 0) (walkQuery ix match p s)"

text \<open>The rows \<^verbatim>\<open>score\<close> reads, by identifier, less those that score nothing.\<close>

definition scoredRows :: "ChunkIndex \<Rightarrow> gostring \<Rightarrow> int list \<Rightarrow> db \<Rightarrow> int \<Rightarrow> SearchResult option" where
  "scoredRows ix match ids s i =
     (if i \<notin> set ids then None
      else case find (\<lambda>c. ixID ix c = i) (chunks s) of
        None \<Rightarrow> None
      | Some c \<Rightarrow> let res = scanResult ix match c in if srBM25 res < 0 then Some res else None)"

definition titleOf :: "(gostring \<times> gostring) list \<Rightarrow> gostring \<Rightarrow> gostring" where
  "titleOf ready d = (case map_of ready d of None \<Rightarrow> [] | Some t \<Rightarrow> t)"

definition poolRows ::
  "(int \<Rightarrow> SearchResult option) \<Rightarrow> int list \<Rightarrow> (gostring \<times> gostring) list \<Rightarrow> (gostring \<Rightarrow> gostring list) \<Rightarrow> bool \<Rightarrow>
     SearchResult list" where
  "poolRows rows kept ready boosts keepKeywords =
     map (\<lambda>res. adjusted \<lparr>rlTitle = [], rlBoostSections = boosts (srDocID res), rlKeepKeywords = keepKeywords\<rparr>
            (res\<lparr>srTitle := titleOf ready (srDocID res)\<rparr>))
       (List.map_filter rows kept)"

definition rankedPools :: "unicode \<Rightarrow> ChunkIndex \<Rightarrow> SearchParams \<Rightarrow> gostring \<Rightarrow> db \<Rightarrow> SearchResult list list" where
  "rankedPools U ix p match s =
     (let ready = readyTitles s;
          boosts = indexSections U [] (spQuery p) s;
          kept = walk ix p match ready s;
          rows = scoredRows ix match kept s;
          results = poolRows rows kept ready boosts (spKeywords p)
      in map (\<lambda>d. rankCandidates (filter (\<lambda>r. srDocID r = d) results) (spK p))
           (sort_texts (remdups (map srDocID results))))"

subsection \<open>Merging\<close>

definition tierAt :: "SearchResult list list \<Rightarrow> nat \<Rightarrow> SearchResult list" where
  "tierAt perDoc depth = map (\<lambda>res. res ! depth) (filter (\<lambda>res. depth < length res) perDoc)"

function interleaveFrom :: "SearchResult list list \<Rightarrow> int \<Rightarrow> nat \<Rightarrow> SearchResult list \<Rightarrow> SearchResult list" where
  "interleaveFrom perDoc k depth out =
     (if \<not> int (length out) < k then out
      else
        let tier = sort_key srBM25 (tierAt perDoc depth)
        in if length tier = 0 then out
           else interleaveFrom perDoc k (Suc depth)
                  (out @ take (nat (min (int (length tier)) (k - int (length out)))) tier))"
  by pat_completeness auto
termination
  by (relation "measure (\<lambda>(perDoc, k, depth, out). nat (k - int (length out)))") (auto simp: Let_def)

declare interleaveFrom.simps [simp del]

definition interleave :: "SearchResult list list \<Rightarrow> int \<Rightarrow> SearchResult list" where
  "interleave perDoc k = interleaveFrom perDoc k 0 []"

definition numberedResults :: "SearchResult list \<Rightarrow> SearchResult list" where
  "numberedResults out = map (\<lambda>(i, r). r\<lparr>srRank := int i + 1\<rparr>) (zip [0..<length out] out)"

definition acrossDocuments :: "unicode \<Rightarrow> ChunkIndex \<Rightarrow> SearchParams \<Rightarrow> gostring \<Rightarrow> db \<Rightarrow> SearchResult list" where
  "acrossDocuments U ix p match s = numberedResults (interleave (rankedPools U ix p match s) (spK p))"

subsection \<open>The searches\<close>

definition ReadOnly :: "Scope \<Rightarrow> (db \<Rightarrow> goerror + 'a) \<Rightarrow> 'a io" where
  "ReadOnly scope work w =
     (let (beginFails, w) = popFault w
      in if beginFails then (Inl (Errorf (lit ''begin'') (Sentinel ErrFault)), w)
         else case setScope scope of
           Some e \<Rightarrow> (Inl e, w)
         | None \<Rightarrow>
             (case work (wDB w) of
                Inl e \<Rightarrow> (Inl e, w)
              | Inr a \<Rightarrow>
                  let (rollbackFails, w) = popFault w
                  in if rollbackFails then (Inl (Errorf (lit ''roll back'') (Sentinel ErrFault)), w) else (Inr a, w)))"

definition SearchStore ::
  "unicode \<Rightarrow> (gostring \<Rightarrow> ChunkIndex option) \<Rightarrow> Scope \<Rightarrow> SearchParams \<Rightarrow> SearchResult list io" where
  "SearchStore U ownIndex scope p w =
     (case preparedSearch U p of
        Inl e \<Rightarrow> (Inl e, w)
      | Inr (p, match) \<Rightarrow>
          ReadOnly scope (\<lambda>s. case ownIndex (scLibrary scope) of
              None \<Rightarrow> Inr []
            | Some ix \<Rightarrow> Inr (if spDocID p = [] then acrossDocuments U ix p match s
                              else oneDocument U ix p match s)) w)"

end
