(* ===== verification/ReadStore.thy ===== *)
theory ReadStore
  imports Search
begin

text \<open>
  \<^verbatim>\<open>internal/pgstore\<close> besides search: the documents of a library, a document's outline, and the text
  around a chunk or on a page.  Every read asks for a published document first.
\<close>

subsection \<open>tokens.go\<close>

text \<open>The pattern of \<^verbatim>\<open>atomRe\<close>: a run of word characters, or one character that is no letter, number or
  ASCII space.\<close>

definition regexpSpace :: "rune \<Rightarrow> bool" where
  "regexpSpace r = (r = 9 \<or> r = 10 \<or> r = 12 \<or> r = 13 \<or> r = 32)"

fun countAtomsFrom :: "unicode \<Rightarrow> gostring \<Rightarrow> bool \<Rightarrow> nat" where
  "countAtomsFrom U [] inWord = 0"
| "countAtomsFrom U (r # s) inWord =
     (if wordRe U r then (if inWord then 0 else 1) + countAtomsFrom U s True
      else if regexpSpace r then countAtomsFrom U s False
      else 1 + countAtomsFrom U s False)"

definition countAtoms :: "unicode \<Rightarrow> gostring \<Rightarrow> nat" where
  "countAtoms U s = countAtomsFrom U s False"

definition subwordFactor :: rat where "subwordFactor = 13 / 10"

definition tokensFromAtoms :: "nat \<Rightarrow> int" where
  "tokensFromAtoms atoms = \<lfloor>rnd (of_nat atoms * rnd subwordFactor)\<rfloor>"

definition estimateTokens :: "unicode \<Rightarrow> gostring \<Rightarrow> int" where
  "estimateTokens U s = tokensFromAtoms (countAtoms U s)"

subsection \<open>store.go\<close>

definition requireReady :: "Scope \<Rightarrow> gostring \<Rightarrow> unit io" where
  "requireReady scope docID w =
     (let missing = ErrorfPrefix (Sentinel ErrStoreNotFound) (lit '': no ready document '' @ goQuote docID)
      in case Read scope (DocumentStatus docID) w of
           (Inl e, w) \<Rightarrow> if errors_Is e ErrNoRows then (Inl missing, w) else (Inl e, w)
         | (Inr status, w) \<Rightarrow> if status \<noteq> Published then (Inl missing, w) else (Inr (), w))"

definition qualityUnknown :: gostring where "qualityUnknown = lit ''unknown''"

definition qualityLabel :: "Quality \<Rightarrow> gostring" where
  "qualityLabel q = (if q = 0 then qualityUnknown else Quality_String q)"

record DocumentEntry =
  deDocID :: gostring
  deLibrary :: gostring
  deTitle :: gostring
  deFormat :: gostring
  deSourceKind :: gostring
  dePageCount :: "int option"
  deChunkCount :: "int option"
  deQuality :: gostring
  deWarnings :: "gostring list"
  deTopHeaders :: "gostring list"

definition maxTopHeadings :: nat where "maxTopHeadings = 15"

text \<open>\<^verbatim>\<open>SELECT DISTINCT heading_path, ordinal ... ORDER BY ordinal\<close>.\<close>

definition TopLevelHeadings :: "gostring \<Rightarrow> (gostring \<times> int) list tx" where
  "TopLevelHeadings docID s =
     Inr (sort_key snd (remdups (map (\<lambda>c. (cHeadingPath c, cOrdinal c))
       (filter (\<lambda>c. cDocID c = docID \<and> cHeadingPath c \<noteq> []) (chunks s)))), s)"

definition topOf :: "gostring \<Rightarrow> gostring" where
  "topOf path = hd (split (lit '' > '') path)"

fun firstTops :: "gostring list \<Rightarrow> gostring list \<Rightarrow> gostring list" where
  "firstTops out [] = out"
| "firstTops out (t # ts) =
     (if t \<in> set out \<or> maxTopHeadings \<le> length out then firstTops out ts else firstTops (out @ [t]) ts)"

definition topLevelHeadings :: "Scope \<Rightarrow> gostring \<Rightarrow> gostring list io" where
  "topLevelHeadings scope docID w =
     (case Read scope (TopLevelHeadings docID) w of
        (Inl e, w) \<Rightarrow> (Inl e, w)
      | (Inr rows, w) \<Rightarrow> (Inr (firstTops [] (map (topOf \<circ> fst) rows)), w))"

fun withHeadings :: "Scope \<Rightarrow> DocumentEntry list \<Rightarrow> DocumentEntry list io" where
  "withHeadings scope [] w = (Inr [], w)"
| "withHeadings scope (d # ds) w =
     (case topLevelHeadings scope (deDocID d) w of
        (Inl e, w) \<Rightarrow> (Inl e, w)
      | (Inr heads, w) \<Rightarrow>
          (case withHeadings scope ds w of
             (Inl e, w) \<Rightarrow> (Inl e, w)
           | (Inr ds, w) \<Rightarrow> (Inr (d\<lparr>deTopHeaders := heads\<rparr> # ds), w)))"

definition documentEntry :: "(gostring \<Rightarrow> storedReport option) \<Rightarrow> docRow \<Rightarrow> DocumentEntry" where
  "documentEntry unmarshal r =
     (let (quality, warnings) = Summary unmarshal (dWarnings r)
      in \<lparr>deDocID = dDocID r, deLibrary = [], deTitle = dTitle r, deFormat = dFormat r, deSourceKind = dSourceKind r,
          dePageCount = dPageCount r, deChunkCount = dChunkCount r, deQuality = qualityLabel quality,
          deWarnings = warnings, deTopHeaders = []\<rparr>)"

definition ListDocuments :: "(gostring \<Rightarrow> storedReport option) \<Rightarrow> Scope \<Rightarrow> DocumentEntry list io" where
  "ListDocuments unmarshal scope w =
     (case Read scope (\<lambda>s. Inr (ListReadyDocuments s, s)) w of
        (Inl e, w) \<Rightarrow> (Inl e, w)
      | (Inr rows, w) \<Rightarrow> withHeadings scope (map (documentEntry unmarshal) rows) w)"

subsection \<open>The outline\<close>

record OutlineEntry =
  oePageStart :: "int option"
  oeChunkID :: "int option"
  oeHeading :: gostring
  oeSection :: gostring
  oeDepth :: nat

definition OutlineRows :: "gostring \<Rightarrow> chunkRow list tx" where
  "OutlineRows docID s = Inr (sort_key cOrdinal (filter (\<lambda>c. cDocID c = docID) (chunks s)), s)"

text \<open>The nodes at depth \<open>d\<close> and below, given what is placed already; also what is placed then.\<close>

function ancestryFrom ::
  "ChunkIndex \<Rightarrow> chunkRow \<Rightarrow> gostring list \<Rightarrow> int \<Rightarrow> nat \<Rightarrow> gostring list \<Rightarrow> OutlineEntry list \<times> gostring list" where
  "ancestryFrom ix r parts depth d seen =
     (if length parts < d \<or> depth < int d then ([], seen)
      else
        let key = join (lit '' > '') (take d parts)
        in if key \<in> set seen then ancestryFrom ix r parts depth (Suc d) seen
           else
             let e = \<lparr>oePageStart = cPageStart r, oeChunkID = (if d = length parts then Some (ixID ix r) else None),
                      oeHeading = parts ! (d - 1),
                      oeSection = (if d = length parts then (case cSection r of None \<Rightarrow> [] | Some x \<Rightarrow> x) else []),
                      oeDepth = d\<rparr>;
                 (rest, seen) = ancestryFrom ix r parts depth (Suc d) (key # seen)
             in (e # rest, seen))"
  by pat_completeness auto
termination
  by (relation "measure (\<lambda>(ix, r, parts, depth, d, seen). Suc (length parts) - d)") auto

declare ancestryFrom.simps [simp del]

definition ancestry ::
  "ChunkIndex \<Rightarrow> chunkRow \<Rightarrow> int \<Rightarrow> gostring list \<Rightarrow> OutlineEntry list \<times> gostring list" where
  "ancestry ix r depth seen =
     (if cHeadingPath r = [] then ([], seen)
      else ancestryFrom ix r (split (lit '' > '') (cHeadingPath r)) depth 1 seen)"

fun outlineOf :: "ChunkIndex \<Rightarrow> int \<Rightarrow> gostring list \<Rightarrow> chunkRow list \<Rightarrow> OutlineEntry list" where
  "outlineOf ix depth seen [] = []"
| "outlineOf ix depth seen (r # rs) =
     (let (es, seen) = ancestry ix r depth seen in es @ outlineOf ix depth seen rs)"

definition Outline :: "ChunkIndex \<Rightarrow> Scope \<Rightarrow> gostring \<Rightarrow> int \<Rightarrow> OutlineEntry list io" where
  "Outline ix scope docID depth w =
     (case requireReady scope docID w of
        (Inl e, w) \<Rightarrow> (Inl e, w)
      | (Inr _, w) \<Rightarrow>
          (case Read scope (OutlineRows docID) w of
             (Inl e, w) \<Rightarrow> (Inl e, w)
           | (Inr rows, w) \<Rightarrow> (Inr (outlineOf ix depth [] rows), w)))"

subsection \<open>context.go\<close>

record ContextChunk =
  ccPageStart :: "int option"
  ccHeadingPath :: gostring
  ccSection :: gostring
  ccURL :: gostring
  ccFragment :: gostring
  ccText :: gostring
  ccChunkID :: int
  ccOrdinal :: int
  ccImageCount :: int
  ccIsAnchor :: bool

definition contextTokenCap :: int where "contextTokenCap = 6000"
definition maxContextSide :: int where "maxContextSide = 50"
definition maxContextPages :: int where "maxContextPages = 20"

definition ChunkOrdinal :: "ChunkIndex \<Rightarrow> int \<Rightarrow> gostring \<Rightarrow> int tx" where
  "ChunkOrdinal ix chunkID docID s =
     (case find (\<lambda>c. ixID ix c = chunkID \<and> cDocID c = docID) (chunks s) of
        None \<Rightarrow> Inl (Sentinel ErrNoRows) | Some c \<Rightarrow> Inr (cOrdinal c, s))"

definition chunkOrdinal :: "ChunkIndex \<Rightarrow> Scope \<Rightarrow> gostring \<Rightarrow> int \<Rightarrow> int io" where
  "chunkOrdinal ix scope docID chunkID w =
     (case Read scope (ChunkOrdinal ix chunkID docID) w of
        (Inl e, w) \<Rightarrow>
          if errors_Is e ErrNoRows
          then (Inl (ErrorfPrefix (Sentinel ErrStoreNotFound)
                 (lit '': chunk '' @ show_int chunkID @ lit '' in '' @ goQuote docID)), w)
          else (Inl e, w)
      | (Inr ordinal, w) \<Rightarrow> (Inr ordinal, w))"

definition ContextChunks :: "gostring \<Rightarrow> int \<Rightarrow> int \<Rightarrow> chunkRow list tx" where
  "ContextChunks docID lo hi s =
     Inr (sort_key cOrdinal (filter (\<lambda>c. cDocID c = docID \<and> lo \<le> cOrdinal c \<and> cOrdinal c \<le> hi) (chunks s)), s)"

definition contextChunk :: "ChunkIndex \<Rightarrow> int \<Rightarrow> chunkRow \<Rightarrow> ContextChunk" where
  "contextChunk ix anchor r = \<lparr>ccPageStart = cPageStart r, ccHeadingPath = cHeadingPath r,
     ccSection = (case cSection r of None \<Rightarrow> [] | Some x \<Rightarrow> x), ccURL = (case cURL r of None \<Rightarrow> [] | Some x \<Rightarrow> x),
     ccFragment = (case cFragment r of None \<Rightarrow> [] | Some x \<Rightarrow> x), ccText = cText r, ccChunkID = ixID ix r,
     ccOrdinal = cOrdinal r, ccImageCount = cImageCount r, ccIsAnchor = (cOrdinal r = anchor)\<rparr>"

definition contextSpan :: "ChunkIndex \<Rightarrow> Scope \<Rightarrow> gostring \<Rightarrow> int \<Rightarrow> int \<Rightarrow> int \<Rightarrow> ContextChunk list io" where
  "contextSpan ix scope docID anchor before after w =
     (case Read scope (ContextChunks docID (Narrow (anchor - before)) (Narrow (anchor + after))) w of
        (Inl e, w) \<Rightarrow> (Inl e, w)
      | (Inr rows, w) \<Rightarrow> (Inr (map (contextChunk ix anchor) rows), w))"

text \<open>The loop of \<^verbatim>\<open>trimToCap\<close> over the two ends of the span.\<close>

function trimLoop :: "ContextChunk list \<Rightarrow> int list \<Rightarrow> int \<Rightarrow> int \<Rightarrow> int \<Rightarrow> int \<Rightarrow> int \<times> int" where
  "trimLoop spn tokens anchor total' first last' =
     (if contextTokenCap < total' \<and> first < last'
      then if ccOrdinal (spn ! nat first) < anchor
           then trimLoop spn tokens anchor (total' - tokens ! nat first) (first + 1) last'
           else trimLoop spn tokens anchor (total' - tokens ! nat last') first (last' - 1)
      else (first, last'))"
  by pat_completeness auto
termination
  by (relation "measure (\<lambda>(spn, tokens, anchor, total', first, last'). nat (last' - first))") auto

declare trimLoop.simps [simp del]

definition trimToCap :: "unicode \<Rightarrow> ContextChunk list \<Rightarrow> int \<Rightarrow> ContextChunk list \<times> bool" where
  "trimToCap U spn anchor =
     (let tokens = map (estimateTokens U \<circ> ccText) spn;
          (first, last') = trimLoop spn tokens anchor (sum_list tokens) 0 (int (length spn) - 1)
      in (take (nat (last' + 1 - first)) (drop (nat first) spn), 0 < first \<or> last' < int (length spn) - 1))"

definition GetContext ::
  "unicode \<Rightarrow> ChunkIndex \<Rightarrow> Scope \<Rightarrow> gostring \<Rightarrow> int \<Rightarrow> int \<Rightarrow> int \<Rightarrow> (ContextChunk list \<times> bool) io" where
  "GetContext U ix scope docID chunkID before after w =
     (case requireReady scope docID w of
        (Inl e, w) \<Rightarrow> (Inl e, w)
      | (Inr _, w) \<Rightarrow>
         (case chunkOrdinal ix scope docID chunkID w of
            (Inl e, w) \<Rightarrow> (Inl e, w)
          | (Inr anchor, w) \<Rightarrow>
             (case contextSpan ix scope docID anchor
                     (min (max before 0) maxContextSide) (min (max after 0) maxContextSide) w of
                (Inl e, w) \<Rightarrow> (Inl e, w)
              | (Inr spn, w) \<Rightarrow> (Inr (trimToCap U spn anchor), w))))"

definition PagesInRange :: "gostring \<Rightarrow> int \<Rightarrow> int \<Rightarrow> (int \<times> gostring) list tx" where
  "PagesInRange docID lo hi s =
     Inr (sort_key fst (map snd (filter (\<lambda>(d, p, _). d = docID \<and> lo \<le> p \<and> p \<le> hi) (pages s))), s)"

definition GetPages :: "Scope \<Rightarrow> gostring \<Rightarrow> int \<Rightarrow> int \<Rightarrow> ((int \<times> gostring) list \<times> bool) io" where
  "GetPages scope docID start stop w =
     (case requireReady scope docID w of
        (Inl e, w) \<Rightarrow> (Inl e, w)
      | (Inr _, w) \<Rightarrow>
          let stop = (if stop < start then start else stop);
              truncated = maxContextPages < stop - start + 1;
              stop = (if truncated then start + maxContextPages - 1 else stop)
          in case Read scope (PagesInRange docID (Narrow start) (Narrow stop)) w of
               (Inl e, w) \<Rightarrow> (Inl e, w)
             | (Inr rows, w) \<Rightarrow> (Inr (rows, truncated), w))"

subsection \<open>section.go: reads of the evaluation harness\<close>

definition ChunksMatchingHeading :: "unicode \<Rightarrow> gostring \<Rightarrow> gostring \<Rightarrow> (gostring \<times> gostring) list tx" where
  "ChunksMatchingHeading U docID heading s =
     Inr (map (\<lambda>c. (cHeadingPath c, cText c)) (sort_key cOrdinal (filter (\<lambda>c. cDocID c = docID \<and>
        contains (map (uToLower U) (cHeadingPath c)) (map (uToLower U) heading)) (chunks s))), s)"

definition ChunksMatchingExpectation ::
  "unicode \<Rightarrow> Scope \<Rightarrow> gostring \<Rightarrow> gostring \<Rightarrow> bool \<Rightarrow> (gostring \<times> gostring) list io" where
  "ChunksMatchingExpectation U scope docID expect bySection =
     (if docID = [] \<or> expect = [] then io_return []
      else if bySection then Read scope (ChunksInSection docID expect)
      else Read scope (ChunksMatchingHeading U docID expect))"

definition AllChunksInOrder :: "gostring \<Rightarrow> chunkRow list tx" where
  "AllChunksInOrder docID s = Inr (sort_key cOrdinal (filter (\<lambda>c. cDocID c = docID) (chunks s)), s)"

definition SampleChunks :: "ChunkIndex \<Rightarrow> Scope \<Rightarrow> gostring \<Rightarrow> int \<Rightarrow> (int \<times> gostring \<times> gostring) list io" where
  "SampleChunks ix scope docID stride w =
     (let stride = (if stride < 1 then 1 else stride)
      in case Read scope (AllChunksInOrder docID) w of
           (Inl e, w) \<Rightarrow> (Inl e, w)
         | (Inr rows, w) \<Rightarrow>
             (Inr (map (\<lambda>(i, r). (ixID ix r, cHeadingPath r, cText r))
                (filter (\<lambda>(i, r). int i mod stride = 0) (zip [0..<length rows] rows))), w))"

end
