(* ===== verification/Search_Props.thy ===== *)
theory Search_Props
  imports Search Store_Props
begin

text \<open>
  Properties of search: the one walk over a library gives every document the pool its own query gives
  it, the merge takes the documents' results rank by rank, and what a search answers is of published
  documents only.
\<close>

subsection \<open>Sorted lists of texts\<close>

lemma sorted_text_unique:
  "sorted_wrt text_le xs \<Longrightarrow> distinct xs \<Longrightarrow> sorted_wrt text_le ys \<Longrightarrow> distinct ys \<Longrightarrow> set xs = set ys \<Longrightarrow> xs = ys"
proof (induction xs arbitrary: ys)
  case (Cons x xs)
  then obtain y ys' where ys: "ys = y # ys'" by (cases ys) auto
  have "x = y"
  proof (rule ccontr)
    assume "x \<noteq> y"
    then have "x \<in> set ys'" "y \<in> set xs" using Cons.prems(5) ys by auto
    then have "text_le y x" "text_le x y" using Cons.prems(1,3) ys by auto
    with \<open>x \<noteq> y\<close> show False using text_le_antisym by blast
  qed
  moreover have "set xs = set ys'" using Cons.prems \<open>x = y\<close> ys by auto
  ultimately show ?case using Cons ys by auto
qed simp

lemma distinct_sorted_texts: "distinct xs \<Longrightarrow> distinct (sort_texts xs)"
  by (metis mset_sort_texts mset_eq_imp_distinct_iff)

subsection \<open>The walk\<close>

text \<open>The rows a walk keeps, whose identifiers \<^verbatim>\<open>walkRead\<close> hands on.\<close>

fun walkKeep :: "(gostring \<Rightarrow> int) \<Rightarrow> chunkRow list \<Rightarrow> chunkRow list" where
  "walkKeep wanted [] = []"
| "walkKeep wanted (c # cs) =
     (if 0 < wanted (cDocID c) then c # walkKeep (wanted(cDocID c := wanted (cDocID c) - 1)) cs
      else walkKeep wanted cs)"

lemma walkRead_eq: "walkRead ix wanted cs = map (ixID ix) (walkKeep wanted cs)"
  by (induction cs arbitrary: wanted) auto

lemma walkKeep_pool:
  "filter (\<lambda>c. cDocID c = d) (walkKeep wanted cs) = take (nat (wanted d)) (filter (\<lambda>c. cDocID c = d) cs)"
proof (induction cs arbitrary: wanted)
  case (Cons c cs)
  show ?case
  proof (cases "0 < wanted (cDocID c)")
    case True
    then have "nat (wanted (cDocID c)) = Suc (nat (wanted (cDocID c) - 1))" by linarith
    then show ?thesis using Cons True by auto
  qed (use Cons in auto)
qed simp

lemma walkKeep_set: "c \<in> set (walkKeep wanted cs) \<Longrightarrow> c \<in> set cs \<and> 0 < wanted (cDocID c)"
proof (induction cs arbitrary: wanted)
  case (Cons x cs)
  show ?case
  proof (cases "0 < wanted (cDocID x)")
    case True
    with Cons.prems have "c = x \<or> c \<in> set (walkKeep (wanted(cDocID x := wanted (cDocID x) - 1)) cs)" by simp
    then show ?thesis
    proof
      assume "c \<in> set (walkKeep (wanted(cDocID x := wanted (cDocID x) - 1)) cs)"
      from Cons.IH[OF this] True show ?thesis by (cases "cDocID c = cDocID x") simp_all
    qed (use True in simp)
  qed (use Cons in auto)
qed simp

lemma find_key: "distinct (map f xs) \<Longrightarrow> x \<in> set xs \<Longrightarrow> find (\<lambda>y. f y = f x) xs = Some x"
  by (induction xs) (auto simp: image_iff)

lemma map_filter_if:
  "(\<And>x. x \<in> set xs \<Longrightarrow> f (g x) = (if P x then Some (h x) else None)) \<Longrightarrow>
     List.map_filter f (map g xs) = map h (filter P xs)"
  by (induction xs) (auto simp: map_filter_simps)

lemma scoredRows_kept:
  assumes "distinct (map (ixID ix) (chunks s))" "set rows \<subseteq> set (chunks s)"
  shows "List.map_filter (scoredRows ix match (map (ixID ix) rows) s) (map (ixID ix) rows) =
    map (scanResult ix match) (filter (\<lambda>c. ixScore ix match c < 0) rows)"
proof -
  have "find (\<lambda>k. ixID ix k = ixID ix c) (chunks s) = Some c" if "c \<in> set (chunks s)" for c
    using find_key[OF assms(1) that] .
  then have "scoredRows ix match (map (ixID ix) rows) s (ixID ix c) =
      (if ixScore ix match c < 0 then Some (scanResult ix match c) else None)" if "c \<in> set rows" for c
    using assms(2) that by (auto simp: scoredRows_def scanResult_def Let_def)
  then show ?thesis by (rule map_filter_if)
qed

lemma adjusted_docID [simp]: "srDocID (adjusted l r) = srDocID r"
  by (simp add: adjusted_def Let_def)

lemma adjusted_title: "adjusted (l\<lparr>rlTitle := t\<rparr>) r = adjusted l r"
  by (simp add: adjusted_def)

lemma indexSections_one: "indexSections U [] q s d = indexSections U d q s d"
  by (auto simp: indexSections_def Let_def intro!: arg_cong[of _ _ remdups] arg_cong[of _ _ "map _"] filter_cong)

lemma rankCandidates_Nil: "0 < k \<Longrightarrow> rankCandidates out k = [] \<longleftrightarrow> out = []"
proof -
  assume "0 < k"
  then show ?thesis by (cases out) (auto simp: rankCandidates_def Let_def)
qed

subsection \<open>Pools\<close>

definition poolOf :: "unicode \<Rightarrow> ChunkIndex \<Rightarrow> SearchParams \<Rightarrow> gostring \<Rightarrow> db \<Rightarrow> gostring \<Rightarrow> SearchResult list" where
  "poolOf U ix p match s d =
     map (\<lambda>c. adjusted \<lparr>rlTitle = [], rlBoostSections = indexSections U [] (spQuery p) s d, rlKeepKeywords = spKeywords p\<rparr>
           ((scanResult ix match c)\<lparr>srTitle := titleOf (readyTitles s) d\<rparr>))
       (candidateQuery ix match (p\<lparr>spDocID := d\<rparr>) s)"

lemma candidateQuery_walk:
  "candidateQuery ix match (p\<lparr>spDocID := d\<rparr>) s =
     filter (\<lambda>c. ixScore ix match c < 0) (take (nat (poolSize (spK p))) (filter (\<lambda>c. cDocID c = d) (walkQuery ix match p s)))"
proof -
  have "filter (\<lambda>c. cDocID c = d) (walkQuery ix match p s) =
      sort_key (ixScore ix match) (filter (\<lambda>c. cDocID c = d \<and> sectionWithin (spSectionFilter p) c) (chunks s))"
    by (simp add: walkQuery_def filter_sort conj_commute)
  moreover have "sorted (map (ixScore ix match) (filter P (take n (sort_key (ixScore ix match) cs))))" for P n cs
    using sorted_sort_key[of "ixScore ix match" cs] by (intro sorted_filter) (simp add: sorted_wrt_take flip: take_map)
  ultimately show ?thesis by (simp add: candidateQuery_def sort_key_id_if_sorted)
qed

definition readyIDs :: "db \<Rightarrow> gostring list" where
  "readyIDs s = sort_texts (map dDocID (filter (\<lambda>d. dStatus d = Published) (documents s)))"

lemma readyTitles_props:
  assumes "distinct (map dDocID (documents s))"
  shows "map fst (readyTitles s) = readyIDs s" "distinct (readyIDs s)"
    "r \<in> set (documents s) \<Longrightarrow> dStatus r = Published \<Longrightarrow> titleOf (readyTitles s) (dDocID r) = dTitle r"
proof -
  let ?rows = "filter (\<lambda>d. dStatus d = Published) (documents s)"
  have d: "distinct (map dDocID ?rows)" using assms by (rule filter_distinct_map)
  have f: "find (\<lambda>d. dDocID d = dDocID r) ?rows = Some r" if "r \<in> set ?rows" for r using find_key[OF d that] .
  have "dDocID (the (find (\<lambda>d. dDocID d = i) ?rows)) = i" if "i \<in> set (sort_texts (map dDocID ?rows))" for i
    using that f by (auto simp: set_sort_texts)
  then have "map (\<lambda>i. dDocID (the (find (\<lambda>d. dDocID d = i) ?rows))) (readyIDs s) = readyIDs s"
    unfolding readyIDs_def by (rule map_idI)
  then show ids: "map fst (readyTitles s) = readyIDs s"
    by (simp add: readyTitles_def readyIDs_def ListReadyDocuments_def Let_def comp_def)
  show dis: "distinct (readyIDs s)" unfolding readyIDs_def by (rule distinct_sorted_texts[OF d])
  show "titleOf (readyTitles s) (dDocID r) = dTitle r" if r: "r \<in> set (documents s)" "dStatus r = Published"
  proof -
    have "dDocID r \<in> set (sort_texts (map dDocID ?rows))" using r by (auto simp: set_sort_texts)
    then have "(dDocID r, dTitle r) \<in> set (readyTitles s)"
      using f[of r] r by (force simp: readyTitles_def ListReadyDocuments_def Let_def)
    then have "map_of (readyTitles s) (dDocID r) = Some (dTitle r)" using ids dis by (intro map_of_is_SomeI) simp_all
    then show ?thesis by (simp add: titleOf_def)
  qed
qed

lemma oneDocument_pool:
  assumes "distinct (map dDocID (documents s))"
  shows "oneDocument U ix (p\<lparr>spDocID := d\<rparr>) match s =
    (if d \<in> set (readyIDs s) then rankCandidates (poolOf U ix p match s d) (spK p) else [])"
proof (cases "d \<in> set (readyIDs s)")
  case True
  then obtain r where r: "r \<in> set (documents s)" "dStatus r = Published" "dDocID r = d"
    by (auto simp: readyIDs_def set_sort_texts)
  have "find (\<lambda>k. dDocID k = d) (documents s) = Some r" using find_key[OF assms r(1)] r(3) by simp
  with True r readyTitles_props(3)[OF assms r(1,2)] show ?thesis
    by (simp add: oneDocument_def documentLabel_def DocumentByID_def candidates_def scanResults_def poolOf_def
      indexSections_one[symmetric] adjusted_def)
next
  case False
  have "find (\<lambda>k. dDocID k = d) (documents s) = Some r \<Longrightarrow> dStatus r \<noteq> Published" for r
    using False by (auto simp: readyIDs_def set_sort_texts find_Some_iff dest!: nth_mem)
  with False show ?thesis by (auto simp: oneDocument_def documentLabel_def DocumentByID_def split: option.splits)
qed

lemma poolRows_doc:
  assumes "distinct (map (ixID ix) (chunks s))" "distinct (map dDocID (documents s))" "0 < spK p"
    and kept: "kept = walk ix p match (readyTitles s) s"
    and results: "results = poolRows (scoredRows ix match kept s) kept (readyTitles s)
       (indexSections U [] (spQuery p) s) (spKeywords p)"
  shows "filter (\<lambda>r. srDocID r = d) results = (if d \<in> set (readyIDs s) then poolOf U ix p match s d else [])"
    "set (map srDocID results) \<subseteq> set (readyIDs s)"
proof -
  let ?wanted = "\<lambda>d. if d \<in> set (map fst (readyTitles s)) then poolSize (spK p) else 0"
  let ?rows = "walkKeep ?wanted (walkQuery ix match p s)"
  let ?mk = "\<lambda>c. adjusted \<lparr>rlTitle = [], rlBoostSections = indexSections U [] (spQuery p) s (cDocID c),
       rlKeepKeywords = spKeywords p\<rparr> ((scanResult ix match c)\<lparr>srTitle := titleOf (readyTitles s) (cDocID c)\<rparr>)"
  have sub: "set ?rows \<subseteq> set (chunks s)"
  proof
    fix c assume "c \<in> set ?rows"
    then have "c \<in> set (walkQuery ix match p s)" using walkKeep_set by blast
    then show "c \<in> set (chunks s)" by (simp add: walkQuery_def)
  qed
  have k: "kept = map (ixID ix) ?rows" by (simp add: kept walk_def walkRead_eq)
  have sd: "srDocID (scanResult ix match c) = cDocID c" for c by (simp add: scanResult_def)
  have res: "results = map ?mk (filter (\<lambda>c. ixScore ix match c < 0) ?rows)"
    unfolding results k poolRows_def scoredRows_kept[OF assms(1) sub] by (simp add: sd)
  have "filter (\<lambda>r. srDocID r = d) results =
      map ?mk (filter (\<lambda>c. ixScore ix match c < 0) (filter (\<lambda>c. cDocID c = d) ?rows))"
    unfolding res filter_map filter_filter comp_def by (simp add: sd conj_commute)
  also have "\<dots> = map ?mk (filter (\<lambda>c. ixScore ix match c < 0)
      (take (nat (?wanted d)) (filter (\<lambda>c. cDocID c = d) (walkQuery ix match p s))))"
    by (simp add: walkKeep_pool)
  also have "\<dots> = (if d \<in> set (readyIDs s) then poolOf U ix p match s d else [])"
  proof (cases "d \<in> set (readyIDs s)")
    case True
    have "c \<in> set (candidateQuery ix match (p\<lparr>spDocID := d\<rparr>) s) \<Longrightarrow> cDocID c = d" for c
      unfolding candidateQuery_walk by (auto dest: in_set_takeD)
    then have "poolOf U ix p match s d = map ?mk (candidateQuery ix match (p\<lparr>spDocID := d\<rparr>) s)"
      by (simp add: poolOf_def)
    with True show ?thesis
      unfolding readyTitles_props(1)[OF assms(2)] candidateQuery_walk by simp
  qed (simp add: readyTitles_props(1)[OF assms(2)])
  finally show "filter (\<lambda>r. srDocID r = d) results = (if d \<in> set (readyIDs s) then poolOf U ix p match s d else [])" .
  show "set (map srDocID results) \<subseteq> set (readyIDs s)"
  proof
    fix d assume "d \<in> set (map srDocID results)"
    then obtain c where c: "c \<in> set ?rows" "d = cDocID c" by (auto simp: res sd)
    then have "0 < ?wanted d" using walkKeep_set by blast
    then show "d \<in> set (readyIDs s)" unfolding readyTitles_props(1)[OF assms(2)] by (simp split: if_splits)
  qed
qed

lemma rankedPools_single:
  assumes "distinct (map (ixID ix) (chunks s))" "db_ok s" "0 < spK p"
  shows "rankedPools U ix p match s =
    filter (\<lambda>rs. rs \<noteq> []) (map (\<lambda>d. oneDocument U ix (p\<lparr>spDocID := d\<rparr>) match s) (readyIDs s))"
proof -
  have dd: "distinct (map dDocID (documents s))" using assms(2) by (simp add: db_ok_def)
  define kept where "kept = walk ix p match (readyTitles s) s"
  define results where "results = poolRows (scoredRows ix match kept s) kept (readyTitles s)
       (indexSections U [] (spQuery p) s) (spKeywords p)"
  note pr = poolRows_doc[OF assms(1) dd assms(3) kept_def results_def]
  let ?pool = "poolOf U ix p match s"
  have ne: "d \<in> set (map srDocID results) \<longleftrightarrow> d \<in> set (readyIDs s) \<and> ?pool d \<noteq> []" for d
  proof -
    have "d \<in> set (map srDocID results) \<longleftrightarrow> filter (\<lambda>r. srDocID r = d) results \<noteq> []"
      by (auto simp: filter_empty_conv)
    then show ?thesis using pr(1)[of d] by simp
  qed
  have keys: "sort_texts (remdups (map srDocID results)) = filter (\<lambda>d. ?pool d \<noteq> []) (readyIDs s)"
  proof (rule sorted_text_unique)
    show "sorted_wrt text_le (filter (\<lambda>d. ?pool d \<noteq> []) (readyIDs s))"
      unfolding readyIDs_def by (rule sorted_wrt_filter[OF sorted_sort_texts])
    show "set (sort_texts (remdups (map srDocID results))) = set (filter (\<lambda>d. ?pool d \<noteq> []) (readyIDs s))"
      using ne by (auto simp: set_sort_texts)
  qed (simp_all add: sorted_sort_texts distinct_sorted_texts readyTitles_props(2)[OF dd])
  have "rankedPools U ix p match s = map (\<lambda>d. rankCandidates (filter (\<lambda>r. srDocID r = d) results) (spK p))
      (filter (\<lambda>d. ?pool d \<noteq> []) (readyIDs s))"
    by (simp add: rankedPools_def Let_def keys[symmetric] results_def kept_def)
  also have "\<dots> = map (\<lambda>d. oneDocument U ix (p\<lparr>spDocID := d\<rparr>) match s) (filter (\<lambda>d. ?pool d \<noteq> []) (readyIDs s))"
    using pr(1) by (simp add: oneDocument_pool[OF dd])
  also have "\<dots> = filter (\<lambda>rs. rs \<noteq> []) (map (\<lambda>d. oneDocument U ix (p\<lparr>spDocID := d\<rparr>) match s) (readyIDs s))"
    unfolding filter_map comp_def
    by (rule arg_cong[of _ _ "map _"], rule filter_cong) (auto simp: oneDocument_pool[OF dd] rankCandidates_Nil[OF assms(3)])
  finally show ?thesis .
qed


definition ex_row :: "gostring \<Rightarrow> int \<Rightarrow> gostring \<Rightarrow> chunkRow" where
  "ex_row d i t = \<lparr>cDocID = d, cOrdinal = i, cSection = None, cPageStart = None, cPageEnd = None, cPrintedPageStart = None,
     cImageCount = 0, cKind = lit ''prose'', cURL = None, cFragment = None, cHeadingPath = lit ''H'', cText = t\<rparr>"

definition ex_published :: "gostring \<Rightarrow> docRow" where
  "ex_published d = \<lparr>dDocID = d, dTitle = d, dFormat = lit ''text'', dSourcePath = d, dSourceKind = lit ''file'',
     dSha256 = d, dPageCount = None, dChunkCount = None, dStatus = Published, dIngestedAt = None, dWarnings = []\<rparr>"

definition ex_library :: db where
  "ex_library = \<lparr>documents = [ex_published (lit ''b''), ex_published (lit ''a''), (ex_published (lit ''c''))\<lparr>dStatus := Ingesting\<rparr>],
     chunks = [ex_row (lit ''b'') 0 (lit ''cache''), ex_row (lit ''a'') 1 (lit ''no''), ex_row (lit ''a'') 0 (lit ''cache cache''),
       ex_row (lit ''c'') 2 (lit ''cache cache'')],
     pages = [], index_terms = [], jobs = [], now = 0\<rparr>"

text \<open>An index for the example: a score for every occurrence of a letter.\<close>

definition ex_index :: ChunkIndex where
  "ex_index = \<lparr>ixID = (\<lambda>c. 10 * int (length (cText c)) + 2 * cOrdinal c + int (length (filter (\<lambda>r. r = 98) (cDocID c)))),
     ixScore = (\<lambda>_ c. - of_nat (length (filter (\<lambda>r. r = 99) (cText c))))\<rparr>"

definition ex_params :: SearchParams where
  "ex_params = \<lparr>spQuery = lit ''cache'', spDocID = [], spSectionFilter = [], spK = 2, spKeywords = False\<rparr>"

lemma ex_library_ok: "db_ok ex_library" "distinct (map (ixID ex_index) (chunks ex_library))" "0 < spK ex_params"
  by code_simp+


subsection \<open>The merge\<close>

definition depthOf :: "SearchResult list list \<Rightarrow> nat" where
  "depthOf perDoc = foldr (\<lambda>res n. max (length res) n) perDoc 0"

lemma depthOf_le: "(\<forall>res\<in>set perDoc. length res \<le> n) \<longleftrightarrow> depthOf perDoc \<le> n"
  by (induction perDoc) (auto simp: depthOf_def)

lemma tierAt_Nil: "tierAt perDoc depth = [] \<longleftrightarrow> depthOf perDoc \<le> depth"
  unfolding depthOf_le[symmetric] by (auto simp: tierAt_def filter_empty_conv not_less)

definition tiers :: "SearchResult list list \<Rightarrow> nat \<Rightarrow> SearchResult list" where
  "tiers perDoc depth = concat (map (\<lambda>d. sort_key srBM25 (tierAt perDoc d)) [depth..<depthOf perDoc])"

lemma tiers_step: "depth < depthOf perDoc \<Longrightarrow> tiers perDoc depth = sort_key srBM25 (tierAt perDoc depth) @ tiers perDoc (Suc depth)"
  by (simp add: tiers_def upt_conv_Cons)

lemma interleaveFrom_eq:
  "int (length out) \<le> max k 0 \<Longrightarrow> interleaveFrom perDoc k depth out = take (nat k) (out @ tiers perDoc depth)"
proof (induction perDoc k depth out rule: interleaveFrom.induct)
  case (1 perDoc k depth out)
  let ?tier = "sort_key srBM25 (tierAt perDoc depth)"
  let ?n = "nat (min (int (length ?tier)) (k - int (length out)))"
  show ?case
  proof (cases "int (length out) < k \<and> tierAt perDoc depth \<noteq> []")
    case False
    then show ?thesis
    proof (cases "int (length out) < k")
      case True
      with False have "tiers perDoc depth = []" using tierAt_Nil by (auto simp: tiers_def)
      with True False show ?thesis by (subst interleaveFrom.simps) (simp add: Let_def)
    next
      case over: False
      with 1(2) have "nat k = length out" by (auto simp: max_def split: if_splits)
      with over show ?thesis by (subst interleaveFrom.simps) simp
    qed
  next
    case True
    then have step: "tiers perDoc depth = ?tier @ tiers perDoc (Suc depth)" using tiers_step tierAt_Nil not_le by blast
    have lt: "length (sort_key srBM25 (tierAt perDoc depth)) \<noteq> 0" using True by (simp only: length_sort length_0_conv not_False_eq_True)
    have "interleaveFrom perDoc k depth out = interleaveFrom perDoc k (Suc depth) (out @ take ?n ?tier)"
      using True lt by (subst interleaveFrom.simps) (simp only: Let_def if_True if_False not_not simp_thms)
    also have "\<dots> = take (nat k) ((out @ take ?n ?tier) @ tiers perDoc (Suc depth))"
      using True by (intro 1(1)[OF _ refl lt]) auto
    also have "\<dots> = take (nat k) (out @ tiers perDoc depth)"
    proof (cases "int (length ?tier) \<le> k - int (length out)")
      case True
      then have "take ?n ?tier = ?tier" by simp
      then show ?thesis by (simp add: step)
    next
      case False
      then have "?n = nat k - length out" by linarith
      with False show ?thesis unfolding step by (simp add: take_append)
    qed
    finally show ?thesis .
  qed
qed

text \<open>Merging takes the documents' results rank by rank: all firsts before all seconds, each tier in
  the order of the scores, and the whole cut at the number asked for.  A document's later result never
  precedes another's earlier one, whatever their scores.\<close>

theorem interleave_tiers:
  "interleave perDoc k =
     take (nat k) (concat (map (\<lambda>d. sort_key srBM25 (tierAt perDoc d)) [0..<depthOf perDoc]))"
  using interleaveFrom_eq[of "[]" k perDoc 0] by (simp add: interleave_def tiers_def)

subsection \<open>What a search answers\<close>

text \<open>A result is a matching chunk of a published document.\<close>

definition answers :: "ChunkIndex \<Rightarrow> gostring \<Rightarrow> db \<Rightarrow> SearchResult \<Rightarrow> bool" where
  "answers ix match s r \<longleftrightarrow> searchable s (srDocID r) \<and> (\<exists>c\<in>set (chunks s). cDocID c = srDocID r \<and>
     srChunkID r = ixID ix c \<and> srText r = cText c \<and> ixScore ix match c < 0)"

lemma answers_cong:
  "srDocID r' = srDocID r \<Longrightarrow> srChunkID r' = srChunkID r \<Longrightarrow> srText r' = srText r \<Longrightarrow> answers ix match s r' = answers ix match s r"
  by (simp add: answers_def)

lemma rankCandidates_mem:
  assumes "r \<in> set (rankCandidates out k)"
  obtains r0 i where "r0 \<in> set out" "r = ranked i r0"
proof -
  let ?o = "if k < int (length (sort_key srBM25 out)) then take (nat k) (sort_key srBM25 out) else sort_key srBM25 out"
  from assms obtain x where x: "x \<in> set (zip [0..<length ?o] ?o)" "r = (\<lambda>(i, r). ranked i r) x"
    unfolding rankCandidates_def Let_def by (auto simp only: set_map)
  have "snd x \<in> set ?o" using x(1) by (metis prod.collapse set_zip_rightD)
  then have "snd x \<in> set (sort_key srBM25 out)" by (metis in_set_takeD)
  then show thesis using that[of "snd x" "fst x"] x(2) by (simp add: case_prod_unfold)
qed

lemma candidateQuery_mem:
  "c \<in> set (candidateQuery ix match p s) \<Longrightarrow> c \<in> set (chunks s) \<and> cDocID c = spDocID p \<and> ixScore ix match c < 0"
  by (auto simp: candidateQuery_def dest: in_set_takeD)

lemma oneDocument_answers:
  assumes "r \<in> set (oneDocument U ix p match s)"
  shows "answers ix match s r"
proof -
  obtain row where row: "DocumentByID (spDocID p) s = Some row" "dStatus row = Published"
    using assms by (auto simp: oneDocument_def documentLabel_def split: option.splits if_splits)
  have "searchable s (spDocID p)"
    using row by (auto simp: DocumentByID_def searchable_def find_Some_iff list_ex_iff)
  moreover obtain label where "r \<in> set (rankCandidates (scanResults ix match label (candidateQuery ix match p s)) (spK p))"
    using assms by (auto simp: oneDocument_def candidates_def split: prod.splits if_splits)
  then obtain c i where c: "c \<in> set (candidateQuery ix match p s)"
    "r = ranked i (adjusted label ((scanResult ix match c)\<lparr>srTitle := rlTitle label\<rparr>))"
    by (elim rankCandidates_mem) (auto simp: scanResults_def)
  have "srDocID r = cDocID c" "srChunkID r = ixID ix c" "srText r = cText c"
    by (simp_all add: c(2) ranked_def adjusted_def scanResult_def Let_def)
  ultimately show ?thesis using candidateQuery_mem[OF c(1)] by (auto simp: answers_def)
qed

lemma set_tierAt: "r \<in> set (tierAt perDoc d) \<Longrightarrow> \<exists>res\<in>set perDoc. r \<in> set res"
  by (auto simp: tierAt_def intro!: bexI nth_mem)

lemma set_interleave: "r \<in> set (interleave perDoc k) \<Longrightarrow> \<exists>res\<in>set perDoc. r \<in> set res"
  unfolding interleaveFrom_eq[of "[]" k perDoc 0, simplified, folded interleave_def]
  by (auto simp: tiers_def dest!: in_set_takeD set_tierAt)

lemma preparedSearch_K: "preparedSearch U p = Inr (p', match) \<Longrightarrow> 0 < spK p' \<and>
    spK p' = (if spK p \<le> 0 then 8 else min (spK p) 200) \<and> ftsQuery U (spQuery p) = Inr match"
  by (auto simp: preparedSearch_def Let_def maxK_def split: sum.splits if_splits)

lemma ranks_upto: "map (\<lambda>(i, r). int i + 1) (zip [0..<length xs] xs) = [1..int (length xs)]"
proof (rule nth_equalityI)
  fix i assume "i < length (map (\<lambda>(i, r). int i + 1) (zip [0..<length xs] xs))"
  then show "map (\<lambda>(i, r). int i + 1) (zip [0..<length xs] xs) ! i = [1..int (length xs)] ! i" by simp
qed simp

lemma oneDocument_shape:
  assumes "0 < spK p"
  shows "int (length (oneDocument U ix p match s)) \<le> spK p"
    "map srRank (oneDocument U ix p match s) = [1..int (length (oneDocument U ix p match s))]"
proof -
  have len: "int (length (rankCandidates out (spK p))) \<le> spK p" for out
    using assms by (simp add: rankCandidates_def Let_def)
  have rk: "map srRank (rankCandidates out k) = [1..int (length (rankCandidates out k))]" for out k
  proof -
    let ?o = "if k < int (length (sort_key srBM25 out)) then take (nat k) (sort_key srBM25 out) else sort_key srBM25 out"
    have "map srRank (rankCandidates out k) = map (\<lambda>(i, r). int i + 1) (zip [0..<length ?o] ?o)"
      unfolding rankCandidates_def Let_def by (simp add: ranked_def case_prod_unfold comp_def)
    also have "\<dots> = [1..int (length ?o)]" by (rule ranks_upto)
    also have "length ?o = length (rankCandidates out k)" by (simp add: rankCandidates_def Let_def)
    finally show ?thesis .
  qed
  have c: "\<exists>out. oneDocument U ix p match s = rankCandidates out (spK p)" if "oneDocument U ix p match s \<noteq> []"
    using that by (auto simp: oneDocument_def candidates_def split: prod.splits if_splits)
  show "int (length (oneDocument U ix p match s)) \<le> spK p"
    "map srRank (oneDocument U ix p match s) = [1..int (length (oneDocument U ix p match s))]"
    using c len rk assms by (cases "oneDocument U ix p match s = []"; force)+
qed

lemma acrossDocuments_shape:
  assumes "0 < spK p"
  shows "int (length (acrossDocuments U ix p match s)) \<le> spK p"
    "map srRank (acrossDocuments U ix p match s) = [1..int (length (acrossDocuments U ix p match s))]"
proof -
  let ?o = "interleave (rankedPools U ix p match s) (spK p)"
  have l: "length (acrossDocuments U ix p match s) = length ?o" by (simp add: acrossDocuments_def numberedResults_def)
  have "length ?o \<le> nat (spK p)"
    using interleaveFrom_eq[of "[]" "spK p" "rankedPools U ix p match s" 0] by (simp add: interleave_def)
  then show "int (length (acrossDocuments U ix p match s)) \<le> spK p" using assms l by linarith
  have "map srRank (acrossDocuments U ix p match s) = map (\<lambda>(i, r). int i + 1) (zip [0..<length ?o] ?o)"
    by (simp add: acrossDocuments_def numberedResults_def case_prod_unfold comp_def)
  then show "map srRank (acrossDocuments U ix p match s) = [1..int (length (acrossDocuments U ix p match s))]"
    unfolding l ranks_upto .
qed

lemma acrossDocuments_answers:
  assumes "distinct (map (ixID ix) (chunks s))" "db_ok s" "0 < spK p" "r \<in> set (acrossDocuments U ix p match s)"
  shows "answers ix match s r"
proof -
  let ?o = "interleave (rankedPools U ix p match s) (spK p)"
  from assms(4) obtain x where x: "x \<in> set (zip [0..<length ?o] ?o)" "r = (\<lambda>(i, r). r\<lparr>srRank := int i + 1\<rparr>) x"
    unfolding acrossDocuments_def numberedResults_def by (auto simp only: set_map)
  have "snd x \<in> set ?o" using x(1) by (metis prod.collapse set_zip_rightD)
  from set_interleave[OF this] obtain d where "snd x \<in> set (oneDocument U ix (p\<lparr>spDocID := d\<rparr>) match s)"
    unfolding rankedPools_single[OF assms(1-3)] by auto
  from oneDocument_answers[OF this] show ?thesis using x(2) by (simp add: answers_def case_prod_unfold)
qed

text \<open>C5: What a search answers: at most as many results as asked for (8 where no number is given, 200
  at most), numbered from 1, each a chunk that matches the words of the query, of a document that is
  published.  A document being ingested, or staged beside the one it
  replaces, is never in it.\<close>

theorem SearchStore_answers:
  assumes "SearchStore U ownIndex scope p w = (Inr rs, w')" "ownIndex (scLibrary scope) = Some ix"
    "distinct (map (ixID ix) (chunks (wDB w)))" "db_ok (wDB w)"
  shows "\<exists>match. ftsQuery U (spQuery p) = Inr match \<and> list_all (answers ix match (wDB w)) rs \<and>
    int (length rs) \<le> (if spK p \<le> 0 then 8 else min (spK p) 200) \<and>
    map srRank rs = [1..int (length rs)] \<and> wDB w' = wDB w"
proof -
  obtain p' match where pm: "preparedSearch U p = Inr (p', match)"
    using assms(1) by (auto simp: SearchStore_def split: sum.splits prod.splits)
  note K = preparedSearch_K[OF pm]
  let ?s = "wDB w"
  let ?work = "\<lambda>s. Inr (if spDocID p' = [] then acrossDocuments U ix p' match s else oneDocument U ix p' match s) :: goerror + SearchResult list"
  have run: "ReadOnly scope ?work w = (Inr rs, w')" using assms(1,2) pm by (simp add: SearchStore_def)
  obtain f w1 where p1: "popFault w = (f, w1)" by force
  obtain g w2 where p2: "popFault w1 = (g, w2)" by force
  have db: "wDB w1 = ?s" "wDB w2 = ?s" using p1 p2 by (metis popFault_db snd_conv)+
  have rs: "rs = (if spDocID p' = [] then acrossDocuments U ix p' match ?s else oneDocument U ix p' match ?s)"
    and w': "wDB w' = ?s"
    using run p1 p2 db by (auto simp: ReadOnly_def split: if_splits option.splits)
  have "list_all (answers ix match ?s) rs"
    using acrossDocuments_answers[OF assms(3,4)] oneDocument_answers K by (auto simp: rs list_all_iff)
  moreover have "int (length rs) \<le> spK p'" "map srRank rs = [1..int (length rs)]"
    using acrossDocuments_shape[of p' U ix match ?s] oneDocument_shape[of p' U ix match ?s] K by (auto simp: rs)
  ultimately show ?thesis using w' K by auto
qed

definition ex_searching :: World where
  "ex_searching = \<lparr>wDB = ex_library, wFaults = [], wCtx = [], wClock = 0, wLast = None\<rparr>"

theorem SearchStore_answers_witness:
  "\<exists>rs w'. SearchStore ascii_unicode (\<lambda>_. Some ex_index) (Personal (lit ''u'')) ex_params ex_searching = (Inr rs, w') \<and>
     map srRank rs = [1, 2] \<and> (\<exists>match. list_all (answers ex_index match ex_library) rs)"
proof -
  let ?rs = "acrossDocuments ascii_unicode ex_index ex_params (lit ''cache'') ex_library"
  have "preparedSearch ascii_unicode ex_params = Inr (ex_params, lit ''cache'')" by code_simp
  moreover have "spDocID ex_params = []" by (simp add: ex_params_def)
  ultimately have r: "SearchStore ascii_unicode (\<lambda>_. Some ex_index) (Personal (lit ''u'')) ex_params ex_searching = (Inr ?rs, ex_searching)"
    by (simp add: SearchStore_def ReadOnly_def ex_searching_def popFault_def setScope_def Personal_def lit_def)
  have ok: "distinct (map (ixID ex_index) (chunks (wDB ex_searching)))" "db_ok (wDB ex_searching)"
    using ex_library_ok by (simp_all add: ex_searching_def)
  have "length ?rs = 2" "[1..int 2] = [1, 2]" by code_simp+
  with SearchStore_answers[OF r refl ok] r show ?thesis by (auto simp: ex_searching_def)
qed

text \<open>The relevance shown for a score is between 0 and 1, in the arithmetic the program runs.\<close>

theorem relevance_bounds:
  assumes "rnd (- bm25) = - bm25"
  shows "0 \<le> relevance bm25 \<and> relevance bm25 \<le> 1"
proof -
  define x where "x = (if - bm25 < 0 then 0 else - bm25)"
  have x: "0 \<le> x" "rnd x = x" using assms by (auto simp: x_def)
  have "rnd x \<le> rnd (x + relevanceScale)" using x by (intro rnd_mono) (simp_all add: relevanceScale_def)
  then have le: "x \<le> rnd (x + relevanceScale)" using x by simp
  have pos: "0 < rnd (x + relevanceScale)" using x by (intro rnd_pos) (simp add: relevanceScale_def)
  have "0 \<le> x / rnd (x + relevanceScale)" "x / rnd (x + relevanceScale) \<le> 1"
    using x pos le by (simp_all add: divide_le_eq)
  then have "rnd (x / rnd (x + relevanceScale)) \<le> rnd 1" "0 \<le> rnd (x / rnd (x + relevanceScale))"
    by (simp_all add: rnd_mono rnd_nonneg)
  moreover have "rnd 1 = 1" using rnd_of_nat[of 1] by simp
  ultimately show ?thesis by (simp add: relevance_def Let_def x_def)
qed

theorem relevance_bounds_witness: "0 \<le> relevance (- 10) \<and> relevance (- 10) \<le> 1"
proof -
  have "rnd (- (- 10)) = - (- 10)" by code_simp
  from relevance_bounds[OF this] show ?thesis .
qed

end
