(* ===== verification/Context_Props.thy ===== *)
theory Context_Props
  imports ReadStore Search_Props
begin

text \<open>
  Properties of the reads around a chunk: the trimmed span, and what is hidden while a document is not
  published.
\<close>

definition ordered :: "ContextChunk list \<Rightarrow> bool" where
  "ordered spn = sorted_wrt (<) (map ccOrdinal spn)"

lemma ordered_nth: "ordered spn \<Longrightarrow> i < j \<Longrightarrow> j < length spn \<Longrightarrow> ccOrdinal (spn ! i) < ccOrdinal (spn ! j)"
  by (simp add: ordered_def sorted_wrt_iff_nth_less)

definition slice_sum :: "int list \<Rightarrow> int \<Rightarrow> int \<Rightarrow> int" where
  "slice_sum ts first last' = sum_list (take (nat (last' + 1 - first)) (drop (nat first) ts))"

lemma slice_sum_first:
  assumes "0 \<le> first" "first \<le> last'" "last' < int (length ts)"
  shows "slice_sum ts first last' = ts ! nat first + slice_sum ts (first + 1) last'"
proof -
  have "drop (nat first) ts = ts ! nat first # drop (nat (first + 1)) ts"
    using assms by (metis Cons_nth_drop_Suc Suc_nat_eq_nat_zadd1 add.commute nat_less_iff le_less_trans)
  moreover have "nat (last' + 1 - first) = Suc (nat (last' + 1 - (first + 1)))" using assms by linarith
  ultimately show ?thesis by (simp add: slice_sum_def)
qed

lemma slice_sum_last:
  assumes "0 \<le> first" "first \<le> last'" "last' < int (length ts)"
  shows "slice_sum ts first last' = slice_sum ts first (last' - 1) + ts ! nat last'"
proof -
  have n: "nat (last' + 1 - first) = Suc (nat (last' - 1 + 1 - first))" using assms by linarith
  have "nat (last' - 1 + 1 - first) < length (drop (nat first) ts)" using assms by auto
  moreover have "drop (nat first) ts ! nat (last' - 1 + 1 - first) = ts ! nat last'"
    using assms by (simp add: nat_diff_distrib)
  ultimately show ?thesis unfolding slice_sum_def n by (simp add: take_Suc_conv_app_nth)
qed

text \<open>The loop keeps the anchor between its ends and its total the tokens between them, and ends within
  the cap or with the anchor alone.\<close>

lemma trimLoop_step:
  "\<not> (contextTokenCap < t \<and> i < j) \<Longrightarrow> trimLoop spn ts anchor t i j = (i, j)"
  "contextTokenCap < t \<Longrightarrow> i < j \<Longrightarrow> ccOrdinal (spn ! nat i) < anchor \<Longrightarrow>
     trimLoop spn ts anchor t i j = trimLoop spn ts anchor (t - ts ! nat i) (i + 1) j"
  "contextTokenCap < t \<Longrightarrow> i < j \<Longrightarrow> \<not> ccOrdinal (spn ! nat i) < anchor \<Longrightarrow>
     trimLoop spn ts anchor t i j = trimLoop spn ts anchor (t - ts ! nat j) i (j - 1)"
  by (subst trimLoop.simps, auto)+

lemma trimLoop_props:
  assumes "ordered spn" "a < length spn" "ccOrdinal (spn ! a) = anchor" "length ts = length spn"
  shows "0 \<le> i \<Longrightarrow> i \<le> int a \<Longrightarrow> int a \<le> j \<Longrightarrow> j < int (length spn) \<Longrightarrow>
    trimLoop spn ts anchor (slice_sum ts i j) i j = (f, l) \<Longrightarrow>
    i \<le> f \<and> f \<le> int a \<and> int a \<le> l \<and> l \<le> j \<and> (slice_sum ts f l \<le> contextTokenCap \<or> f = l)"
proof (induction "nat (j - i)" arbitrary: i j rule: less_induct)
  case less
  let ?t = "slice_sum ts i j"
  show ?case
  proof (cases "contextTokenCap < ?t \<and> i < j")
    case False
    then have "f = i" "l = j" using less.prems(5) by (simp_all add: trimLoop_step(1))
    then show ?thesis using less.prems False by auto
  next
    case go: True
    show ?thesis
    proof (cases "ccOrdinal (spn ! nat i) < anchor")
      case True
      have "int a \<noteq> i" using True assms(3) by auto
      moreover have "trimLoop spn ts anchor (slice_sum ts (i + 1) j) (i + 1) j = (f, l)"
        using less.prems go True slice_sum_first[of i j ts] assms(4) by (simp add: trimLoop_step(2))
      ultimately show ?thesis using less.hyps[of j "i + 1"] less.prems go by auto
    next
      case False
      have "int a = i"
      proof (rule ccontr)
        assume "int a \<noteq> i"
        then have "nat i < a" using less.prems by linarith
        with ordered_nth[OF assms(1) this assms(2)] assms(3) False show False by simp
      qed
      moreover have "trimLoop spn ts anchor (slice_sum ts i (j - 1)) i (j - 1) = (f, l)"
        using less.prems go False slice_sum_last[of i j ts] assms(4) by (simp add: trimLoop_step(3))
      ultimately show ?thesis using less.hyps[of "j - 1" i] less.prems go by auto
    qed
  qed
qed

text \<open>Trimming a span to the token cap keeps the chunk the caller asked for: what is left is a
  contiguous part of the span with the anchor in it, within the cap unless it is the anchor alone, and
  the flag says whether anything was cut.\<close>

theorem trimToCap_keeps_anchor:
  assumes "ordered spn" "a < length spn" "ccOrdinal (spn ! a) = anchor"
  shows "\<exists>i n. fst (trimToCap U spn anchor) = take n (drop i spn) \<and> spn ! a \<in> set (fst (trimToCap U spn anchor)) \<and>
    (sum_list (map (estimateTokens U \<circ> ccText) (fst (trimToCap U spn anchor))) \<le> contextTokenCap \<or>
     fst (trimToCap U spn anchor) = [spn ! a]) \<and>
    snd (trimToCap U spn anchor) = (fst (trimToCap U spn anchor) \<noteq> spn)"
proof -
  let ?ts = "map (estimateTokens U \<circ> ccText) spn"
  let ?j = "int (length spn) - 1"
  obtain f l where t: "trimLoop spn ?ts anchor (sum_list ?ts) 0 ?j = (f, l)" by force
  have "slice_sum ?ts 0 ?j = sum_list ?ts" by (simp add: slice_sum_def)
  then have fl: "0 \<le> f" "f \<le> int a" "int a \<le> l" "l \<le> ?j" "slice_sum ?ts f l \<le> contextTokenCap \<or> f = l"
    using trimLoop_props[OF assms, of ?ts 0 ?j f l] assms(2) t by auto
  let ?n = "nat (l + 1 - f)"
  have r: "trimToCap U spn anchor = (take ?n (drop (nat f) spn), 0 < f \<or> l < ?j)"
    unfolding trimToCap_def Let_def t by simp
  have mem: "spn ! a \<in> set (take ?n (drop (nat f) spn))"
  proof -
    have "a - nat f < length (take ?n (drop (nat f) spn))" using fl assms(2) by auto
    moreover have "take ?n (drop (nat f) spn) ! (a - nat f) = spn ! a" using fl assms(2) by (simp add: nat_le_iff)
    ultimately show ?thesis by (metis nth_mem)
  qed
  moreover have "sum_list (map (estimateTokens U \<circ> ccText) (take ?n (drop (nat f) spn))) = slice_sum ?ts f l"
    by (simp add: slice_sum_def take_map drop_map)
  moreover have "take ?n (drop (nat f) spn) = [spn ! a]" if "f = l"
  proof -
    have "nat f = a" "?n = 1" using fl that by auto
    then show ?thesis using assms(2) by (simp add: take_Suc_conv_app_nth hd_drop_conv_nth take_Suc)
  qed
  moreover have "(0 < f \<or> l < ?j) = (take ?n (drop (nat f) spn) \<noteq> spn)"
  proof -
    have "length (take ?n (drop (nat f) spn)) = ?n" using fl by auto
    moreover have "0 < f \<or> l < ?j \<Longrightarrow> ?n \<noteq> length spn" using fl by linarith
    ultimately have "0 < f \<or> l < ?j \<Longrightarrow> take ?n (drop (nat f) spn) \<noteq> spn" by metis
    moreover have "\<not> (0 < f \<or> l < ?j) \<Longrightarrow> take ?n (drop (nat f) spn) = spn" using fl by simp
    ultimately show ?thesis by blast
  qed
  ultimately show ?thesis using fl(5) unfolding r by (intro exI[of _ "nat f"] exI[of _ ?n]) auto
qed

definition ex_span :: "ContextChunk list" where
  "ex_span = map (\<lambda>i. \<lparr>ccPageStart = None, ccHeadingPath = [], ccSection = [], ccURL = [], ccFragment = [],
     ccText = lit ''some text'', ccChunkID = i, ccOrdinal = i, ccImageCount = 0, ccIsAnchor = (i = 5)\<rparr>) [4, 5, 6]"

theorem trimToCap_keeps_anchor_witness:
  "ex_span ! 1 \<in> set (fst (trimToCap ascii_unicode ex_span 5)) \<and> snd (trimToCap ascii_unicode ex_span 5) = False"
proof -
  have h: "ordered ex_span" "1 < length ex_span" "ccOrdinal (ex_span ! 1) = 5"
    by (simp_all add: ex_span_def ordered_def)
  have "fst (trimToCap ascii_unicode ex_span 5) = ex_span" by code_simp
  with trimToCap_keeps_anchor[OF h, of ascii_unicode] show ?thesis by auto
qed

subsection \<open>Nothing of an unpublished document\<close>

text \<open>C29: A document that is not published is not told from one that does not exist: while it is being
  ingested, its outline, its context and its pages all answer not found, with the same message, and
  read nothing.\<close>

theorem unpublished_hidden:
  assumes "\<not> searchable (wDB w) docID" "wFaults w = []" "setScope scope = None"
  shows "fst (Outline ix scope docID depth w) = Inl (ErrorfPrefix (Sentinel ErrStoreNotFound) (lit '': no ready document '' @ goQuote docID)) \<and>
    fst (GetContext U ix scope docID chunkID before after w) = Inl (ErrorfPrefix (Sentinel ErrStoreNotFound) (lit '': no ready document '' @ goQuote docID)) \<and>
    fst (GetPages scope docID start stop w) = Inl (ErrorfPrefix (Sentinel ErrStoreNotFound) (lit '': no ready document '' @ goQuote docID))"
proof -
  let ?e = "Inl (ErrorfPrefix (Sentinel ErrStoreNotFound) (lit '': no ready document '' @ goQuote docID)) :: goerror + unit"
  have "DocumentStatus docID (wDB w) = Inl (Sentinel ErrNoRows) \<or> (\<exists>st. DocumentStatus docID (wDB w) = Inr (st, wDB w) \<and> st \<noteq> Published)"
    using assms(1) by (auto simp: DocumentStatus_def searchable_def list_ex_iff find_Some_iff split: option.splits)
  then have "requireReady scope docID w = (?e, w)"
    using assms(2,3) by (auto simp: requireReady_def Read_def Run_def popFault_def Let_def)
  then show ?thesis by (simp add: Outline_def GetContext_def GetPages_def)
qed

theorem unpublished_hidden_witness:
  "hasDocument (wDB ex_searching) (lit ''c'') \<and>
   fst (GetPages (Personal (lit ''u'')) (lit ''c'') 1 2 ex_searching) =
     Inl (ErrorfPrefix (Sentinel ErrStoreNotFound) (lit '': no ready document '' @ goQuote (lit ''c'')))"
proof -
  have h: "\<not> searchable (wDB ex_searching) (lit ''c'')" "wFaults ex_searching = []" "setScope (Personal (lit ''u'')) = None"
    "hasDocument (wDB ex_searching) (lit ''c'')" by code_simp+
  from unpublished_hidden[OF h(1-3)] h(4) show ?thesis by blast
qed

end
