(* ===== verification/Libraries.thy ===== *)
theory Libraries
  imports Search_Props
begin

text \<open>
  \<^verbatim>\<open>internal/pgstore/library.go\<close> and \<^verbatim>\<open>internal/library\<close>: the libraries a user reads, how an identifier
  names a document in one of them, and the search across all of them.  What a user may read is a
  function of the database (\<^verbatim>\<open>readable_libraries\<close>), an argument here, as are the tables of each library.
\<close>

subsection \<open>Libraries\<close>

definition OwnLabel :: gostring where "OwnLabel = lit ''personal''"

record Library =
  lbID :: gostring
  lbLabel :: gostring
  lbName :: gostring
  lbRole :: gostring
  lbOwn :: bool

definition PersonalLibrary :: "gostring \<Rightarrow> Library" where
  "PersonalLibrary user = \<lparr>lbID = user, lbLabel = OwnLabel, lbName = [], lbRole = lit ''admin'', lbOwn = True\<rparr>"

definition Qualify :: "Library \<Rightarrow> gostring \<Rightarrow> gostring" where
  "Qualify l docID = (if lbOwn l then docID else lbLabel l @ lit ''/'' @ docID)"

record ReadableRow =
  rrLibraryID :: gostring
  rrSlug :: gostring
  rrName :: gostring
  rrRole :: gostring

definition libraryOf :: "gostring \<Rightarrow> ReadableRow \<Rightarrow> Library" where
  "libraryOf user row =
     (if rrLibraryID row = user
      then \<lparr>lbID = rrLibraryID row, lbLabel = OwnLabel, lbName = rrName row, lbRole = rrRole row, lbOwn = True\<rparr>
      else if rrSlug row \<noteq> []
      then \<lparr>lbID = rrLibraryID row, lbLabel = rrSlug row, lbName = rrName row, lbRole = rrRole row, lbOwn = False\<rparr>
      else \<lparr>lbID = rrLibraryID row, lbLabel = rrLibraryID row, lbName = rrName row, lbRole = rrRole row, lbOwn = False\<rparr>)"

definition LibrariesOf :: "(gostring \<Rightarrow> ReadableRow list tx) \<Rightarrow> gostring \<Rightarrow> Library list io" where
  "LibrariesOf readable user w =
     (case Read (Personal user) (readable user) w of
        (Inl e, w) \<Rightarrow> (Inl (Errorf (lit ''list the readable libraries'') e), w)
      | (Inr rows, w) \<Rightarrow> (Inr (map (libraryOf user) rows), w))"

text \<open>\<^verbatim>\<open>strings.Cut(docID, "/")\<close>.\<close>

definition cutSlash :: "gostring \<Rightarrow> gostring \<times> gostring \<times> bool" where
  "cutSlash s =
     (let before = takeWhile (\<lambda>r. r \<noteq> 47) s
      in if 47 \<in> set s then (before, drop (length before + 1) s, True) else (s, [], False))"

definition Resolve :: "Library list \<Rightarrow> gostring \<Rightarrow> (Library \<times> gostring) option" where
  "Resolve libs docID =
     (let (label, local, qualified) = cutSlash docID
      in case find (\<lambda>lib. (\<not> qualified \<and> lbOwn lib) \<or> (qualified \<and> lbLabel lib = label)) libs of
           None \<Rightarrow> None
         | Some lib \<Rightarrow> Some (lib, if qualified then local else docID))"

definition CanAdd :: "Library \<Rightarrow> bool" where
  "CanAdd l = (lbRole l = lit ''editor'' \<or> lbRole l = lit ''admin'')"

definition Writable :: "Library list \<Rightarrow> gostring \<Rightarrow> (Library \<times> bool) option" where
  "Writable libs label =
     (case find (\<lambda>lib. lbLabel lib = label \<or> (label = [] \<and> lbOwn lib)) libs of
        None \<Rightarrow> None | Some lib \<Rightarrow> Some (lib, CanAdd lib))"

subsection \<open>The view of one library\<close>

definition checkScope :: "Scope \<Rightarrow> goerror option" where
  "checkScope scope =
     (if scUser scope = [] \<or> scLibrary scope = []
      then Some (Errorf (lit ''build a library view'') (Sentinel ErrNoOwner)) else None)"

definition Destination :: "(gostring \<Rightarrow> ReadableRow list tx) \<Rightarrow> gostring \<Rightarrow> gostring \<Rightarrow> Scope io" where
  "Destination readable user label w =
     (if user = [] then (Inl (Errorf (lit ''resolve a library'') (Sentinel ErrNoOwner)), w)
      else if label = [] then (Inr (Personal user), w)
      else
        case LibrariesOf readable user w of
          (Inl e, w) \<Rightarrow> (Inl e, w)
        | (Inr libs, w) \<Rightarrow>
            (case Writable libs label of
               Some (lib, True) \<Rightarrow> (Inr \<lparr>scUser = user, scLibrary = lbID lib\<rparr>, w)
             | _ \<Rightarrow> (Inl (Sentinel ErrNotWritable), w)))"

definition Locate :: "(gostring \<Rightarrow> ReadableRow list tx) \<Rightarrow> gostring \<Rightarrow> gostring \<Rightarrow> (Scope \<times> gostring) io" where
  "Locate readable user docID w =
     (case LibrariesOf readable user w of
        (Inl e, w) \<Rightarrow> (Inl e, w)
      | (Inr libs, w) \<Rightarrow>
          (case Resolve libs docID of
             None \<Rightarrow> (Inr (Personal user, docID), w)
           | Some (lib, local) \<Rightarrow> (Inr (\<lparr>scUser = user, scLibrary = lbID lib\<rparr>, local), w)))"

subsection \<open>Search across libraries\<close>

definition Labelled :: "Library \<Rightarrow> SearchResult list \<Rightarrow> SearchResult list" where
  "Labelled lib results = map (\<lambda>r. r\<lparr>srLibrary := lbLabel lib, srDocID := Qualify lib (srDocID r)\<rparr>) results"

text \<open>The tables a transaction scoped to a library sees, none of a library the user holds no grant on.\<close>

type_synonym tables = "gostring \<Rightarrow> db"

definition poolsIn ::
  "unicode \<Rightarrow> (gostring \<Rightarrow> ChunkIndex option) \<Rightarrow> tables \<Rightarrow> gostring \<Rightarrow> SearchParams \<Rightarrow> gostring \<Rightarrow> Library \<Rightarrow>
     goerror + SearchResult list list" where
  "poolsIn U ownIndex tabs user p match lib =
     (case setScope \<lparr>scUser = user, scLibrary = lbID lib\<rparr> of
        Some e \<Rightarrow> Inl e
      | None \<Rightarrow>
          (case ownIndex (lbID lib) of
             None \<Rightarrow> Inr []
           | Some ix \<Rightarrow> Inr (map (Labelled lib) (rankedPools U ix p match (tabs (lbID lib))))))"

fun poolsOf ::
  "(Library \<Rightarrow> goerror + SearchResult list list) \<Rightarrow> Library list \<Rightarrow> SearchResult list list \<Rightarrow>
     goerror + SearchResult list list" where
  "poolsOf f [] perDoc = Inr perDoc"
| "poolsOf f (lib # libs) perDoc =
     (case f lib of Inl e \<Rightarrow> Inl e | Inr pools \<Rightarrow> poolsOf f libs (perDoc @ pools))"

definition SearchLibraries ::
  "unicode \<Rightarrow> (gostring \<Rightarrow> ChunkIndex option) \<Rightarrow> tables \<Rightarrow> gostring \<Rightarrow> Library list \<Rightarrow> SearchParams \<Rightarrow> SearchResult list io" where
  "SearchLibraries U ownIndex tabs user libs p w =
     (case preparedSearch U p of
        Inl e \<Rightarrow> (Inl e, w)
      | Inr (p, match) \<Rightarrow>
          if libs = [] then (Inr [], w)
          else
            let p = p\<lparr>spDocID := []\<rparr>
            in case ReadOnly (Personal user) (\<lambda>_. poolsOf (poolsIn U ownIndex tabs user p match) libs []) w of
                 (Inl e, w) \<Rightarrow> (Inl e, w)
               | (Inr perDoc, w) \<Rightarrow> (Inr (numberedResults (interleave perDoc (spK p))), w))"

subsection \<open>Properties\<close>

lemma cut_qualified: "47 \<notin> set label \<Longrightarrow> cutSlash (label @ 47 # d) = (label, d, True)"
proof -
  assume a: "47 \<notin> set label"
  then have "takeWhile (\<lambda>r. r \<noteq> 47) (label @ 47 # d) = label" by (subst takeWhile_append2) auto
  then show ?thesis by (simp add: cutSlash_def Let_def)
qed

text \<open>What a user's list of libraries has: one library of their own, and labels that tell the libraries
  apart and hold no slash.\<close>

definition libs_ok :: "Library list \<Rightarrow> bool" where
  "libs_ok libs \<longleftrightarrow> distinct (map lbLabel libs) \<and> list_all (\<lambda>l. 47 \<notin> set (lbLabel l)) libs \<and>
     length (filter lbOwn libs) \<le> 1"

text \<open>C27: The identifier a user is given for a document, in whichever of their libraries it is, leads back
  to that library and that document; a document of their own keeps its bare identifier, which no
  document has a slash in.\<close>

theorem Resolve_Qualify:
  assumes "libs_ok libs" "lib \<in> set libs" "lbOwn lib \<longrightarrow> 47 \<notin> set d"
  shows "Resolve libs (Qualify lib d) = Some (lib, d)"
proof (cases "lbOwn lib")
  case True
  have "find (\<lambda>l. lbOwn l) libs = Some lib"
  proof -
    have "lib \<in> set (filter lbOwn libs)" "length (filter lbOwn libs) \<le> 1" using assms(1,2) True by (simp_all add: libs_ok_def)
    then have "filter lbOwn libs = [lib]" by (cases "filter lbOwn libs") (simp_all del: set_filter)
    then show ?thesis by (induction libs) (auto split: if_splits)
  qed
  with True assms(3) show ?thesis by (simp add: Resolve_def Qualify_def cutSlash_def)
next
  case False
  have "47 \<notin> set (lbLabel lib)" using assms(1,2) by (auto simp: libs_ok_def list_all_iff)
  then have c: "cutSlash (Qualify lib d) = (lbLabel lib, d, True)"
    using False cut_qualified by (simp add: Qualify_def lit_def)
  have "find (\<lambda>l. lbLabel l = lbLabel lib) libs = Some lib"
    using assms(1,2) by (intro find_key) (simp_all add: libs_ok_def)
  with c show ?thesis by (simp add: Resolve_def)
qed

definition ex_libs :: "Library list" where
  "ex_libs = [PersonalLibrary (lit ''u1''), \<lparr>lbID = lit ''u7'', lbLabel = lit ''team'', lbName = [], lbRole = lit ''reader'', lbOwn = False\<rparr>]"

theorem Resolve_Qualify_witness: "Resolve ex_libs (lit ''team/a'') = Some (ex_libs ! 1, lit ''a'')"
proof -
  have h: "libs_ok ex_libs" "ex_libs ! 1 \<in> set ex_libs" "lbOwn (ex_libs ! 1) \<longrightarrow> 47 \<notin> set (lit ''a'')" by code_simp+
  have "Qualify (ex_libs ! 1) (lit ''a'') = lit ''team/a''" by code_simp
  with Resolve_Qualify[OF h] show ?thesis by simp
qed

text \<open>C28: A caller adds only where they may: the scope \<^verbatim>\<open>Destination\<close> hands out acts as the caller, in
  their own library or in one they read as an editor or an admin.\<close>

theorem Destination_writable:
  assumes "Destination readable user label w = (Inr scope, w')"
  shows "scUser scope = user \<and> user \<noteq> [] \<and> (scLibrary scope = user \<or> (\<exists>libs w1. LibrariesOf readable user w = (Inr libs, w1) \<and>
    (\<exists>lib\<in>set libs. lbID lib = scLibrary scope \<and> lbLabel lib = label \<and> CanAdd lib)))"
proof (cases "user = [] \<or> label = []")
  case True
  with assms show ?thesis by (auto simp: Destination_def Personal_def split: if_splits)
next
  case False
  with assms obtain libs lib w1 where l: "LibrariesOf readable user w = (Inr libs, w1)" "Writable libs label = Some (lib, True)"
    "scope = \<lparr>scUser = user, scLibrary = lbID lib\<rparr>"
    by (auto simp: Destination_def split: prod.splits sum.splits option.splits bool.splits)
  then have "lib \<in> set libs" "lbLabel lib = label" "CanAdd lib"
    using False by (auto simp: Writable_def find_Some_iff split: option.splits)
  with l False show ?thesis by auto
qed

definition ex_readable :: "gostring \<Rightarrow> ReadableRow list tx" where
  "ex_readable user s = Inr ([\<lparr>rrLibraryID = user, rrSlug = [], rrName = [], rrRole = lit ''admin''\<rparr>,
     \<lparr>rrLibraryID = lit ''l2'', rrSlug = lit ''team'', rrName = [], rrRole = lit ''editor''\<rparr>], s)"

theorem Destination_writable_witness:
  "\<exists>w'. Destination ex_readable (lit ''u'') (lit ''team'') ex_searching = (Inr \<lparr>scUser = lit ''u'', scLibrary = lit ''l2''\<rparr>, w') \<and>
    lit ''u'' \<noteq> []"
proof -
  let ?run = "Destination ex_readable (lit ''u'') (lit ''team'') ex_searching"
  have "fst ?run = Inr \<lparr>scUser = lit ''u'', scLibrary = lit ''l2''\<rparr>"
    by (simp add: Destination_def LibrariesOf_def Read_def Run_def ex_searching_def popFault_def setScope_def Personal_def
      ex_readable_def libraryOf_def Writable_def CanAdd_def lit_def OwnLabel_def)
  then have "?run = (Inr \<lparr>scUser = lit ''u'', scLibrary = lit ''l2''\<rparr>, snd ?run)" by (metis prod.collapse)
  with Destination_writable[OF this] show ?thesis by auto
qed

end
