(* ===== verification/Urlguard.thy ===== *)
theory Urlguard
  imports GoErrors Tokens "HOL-Library.Word"
begin

text \<open>
  \<^verbatim>\<open>internal/urlguard\<close>: which addresses and hosts may be fetched.  An address is a \<^verbatim>\<open>netip.Addr\<close>: none, 32
  bits, or 128 bits with a zone.  The predicates, prefixes and literals of \<^verbatim>\<open>net/netip\<close> are written out.
  Parsing a URL (\<^verbatim>\<open>net/url\<close>) and looking up a host are arguments.
\<close>

unbundle bit_operations_syntax

subsection \<open>Addresses\<close>

datatype Addr = NoAddr | Addr4 "32 word" | Addr6 "128 word" gostring

definition octet :: "32 word \<Rightarrow> nat \<Rightarrow> 32 word" where
  "octet a i = drop_bit (24 - 8 * i) a AND 0xFF"

definition group0 :: "128 word \<Rightarrow> 128 word" where
  "group0 a = drop_bit 112 a"

fun Is4 :: "Addr \<Rightarrow> bool" where
  "Is4 (Addr4 a) = True"
| "Is4 _ = False"

fun Is6 :: "Addr \<Rightarrow> bool" where
  "Is6 (Addr6 a z) = True"
| "Is6 _ = False"

fun Is4In6 :: "Addr \<Rightarrow> bool" where
  "Is4In6 (Addr6 a z) = (drop_bit 32 a = 0xFFFF)"
| "Is4In6 _ = False"

fun Unmap :: "Addr \<Rightarrow> Addr" where
  "Unmap (Addr6 a z) = (if Is4In6 (Addr6 a z) then Addr4 (ucast a) else Addr6 a z)"
| "Unmap a = a"

fun IsUnspecified :: "Addr \<Rightarrow> bool" where
  "IsUnspecified NoAddr = False"
| "IsUnspecified (Addr4 a) = (a = 0)"
| "IsUnspecified (Addr6 a z) = (a = 0 \<and> z = [])"

definition loopback4 :: "32 word \<Rightarrow> bool" where "loopback4 a = (octet a 0 = 127)"

definition private4 :: "32 word \<Rightarrow> bool" where
  "private4 a =
     (octet a 0 = 10 \<or> (octet a 0 = 172 \<and> octet a 1 AND 0xF0 = 16) \<or> (octet a 0 = 192 \<and> octet a 1 = 168))"

definition linkLocal4 :: "32 word \<Rightarrow> bool" where "linkLocal4 a = (octet a 0 = 169 \<and> octet a 1 = 254)"

definition linkLocalMulticast4 :: "32 word \<Rightarrow> bool" where
  "linkLocalMulticast4 a = (octet a 0 = 224 \<and> octet a 1 = 0 \<and> octet a 2 = 0)"

definition multicast4 :: "32 word \<Rightarrow> bool" where "multicast4 a = (octet a 0 AND 0xF0 = 0xE0)"

text \<open>Each predicate reads a 4-in-6 address as the address it maps.\<close>

definition judged :: "(32 word \<Rightarrow> bool) \<Rightarrow> (128 word \<Rightarrow> bool) \<Rightarrow> Addr \<Rightarrow> bool" where
  "judged P4 P6 addr =
     (case addr of
        NoAddr \<Rightarrow> False
      | Addr4 a \<Rightarrow> P4 a
      | Addr6 a z \<Rightarrow> if Is4In6 (Addr6 a z) then P4 (ucast a) else P6 a)"

definition IsLoopback :: "Addr \<Rightarrow> bool" where
  "IsLoopback = judged loopback4 (\<lambda>a. a = 1)"
definition IsPrivate :: "Addr \<Rightarrow> bool" where
  "IsPrivate = judged private4 (\<lambda>a. drop_bit 120 a AND 0xFE = 0xFC)"
definition IsLinkLocalUnicast :: "Addr \<Rightarrow> bool" where
  "IsLinkLocalUnicast = judged linkLocal4 (\<lambda>a. group0 a AND 0xFFC0 = 0xFE80)"
definition IsLinkLocalMulticast :: "Addr \<Rightarrow> bool" where
  "IsLinkLocalMulticast = judged linkLocalMulticast4 (\<lambda>a. group0 a AND 0xFF0F = 0xFF02)"
definition IsInterfaceLocalMulticast :: "Addr \<Rightarrow> bool" where
  "IsInterfaceLocalMulticast = judged (\<lambda>a. False) (\<lambda>a. group0 a AND 0xFF0F = 0xFF01)"
definition IsMulticast :: "Addr \<Rightarrow> bool" where
  "IsMulticast = judged multicast4 (\<lambda>a. drop_bit 120 a = 0xFF)"

datatype Prefix = Prefix4 "32 word" nat | Prefix6 "128 word" nat

text \<open>\<^verbatim>\<open>Prefix.Contains\<close>: never across families, never an address with a zone.\<close>

fun Contains :: "Prefix \<Rightarrow> Addr \<Rightarrow> bool" where
  "Contains (Prefix4 p n) (Addr4 a) = (drop_bit (32 - n) (a XOR p) = 0)"
| "Contains (Prefix6 p n) (Addr6 a z) = (z = [] \<and> (a XOR p) AND NOT (mask (128 - n)) = 0)"
| "Contains _ _ = False"

definition v4addr :: "int \<Rightarrow> int \<Rightarrow> int \<Rightarrow> int \<Rightarrow> 32 word" where
  "v4addr a b c d = of_int (((a * 256 + b) * 256 + c) * 256 + d)"

definition v6addr :: "int list \<Rightarrow> 128 word" where
  "v6addr gs = of_int (foldl (\<lambda>n g. n * 65536 + g) 0 (gs @ replicate (8 - length gs) 0))"

text \<open>\<^verbatim>\<open>netip.ParseAddr\<close>.  Four decimal fields, none above 255 and none with a leading zero: the loop carries
  the value and the digits of the field being read, and the fields read.\<close>

fun parseIPv4Fields :: "gostring \<Rightarrow> int \<Rightarrow> nat \<Rightarrow> int list \<Rightarrow> int list option" where
  "parseIPv4Fields [] val digLen done4 =
     (if length done4 < 3 \<or> digLen = 0 then None else Some (done4 @ [val]))"
| "parseIPv4Fields (c # s) val digLen done4 =
     (if 48 \<le> c \<and> c \<le> 57 then
        (if digLen = 1 \<and> val = 0 then None
         else let v = val * 10 + (c - 48) in if 255 < v then None else parseIPv4Fields s v (Suc digLen) done4)
      else if c = 46 then
        (if digLen = 0 \<or> s = [] \<or> length done4 = 3 then None else parseIPv4Fields s 0 0 (done4 @ [val]))
      else None)"

definition unhex :: "rune \<Rightarrow> int option" where
  "unhex c =
     (if 48 \<le> c \<and> c \<le> 57 then Some (c - 48)
      else if 97 \<le> c \<and> c \<le> 102 then Some (c - 87)
      else if 65 \<le> c \<and> c \<le> 70 then Some (c - 55)
      else None)"

definition parseGroup :: "gostring \<Rightarrow> int option" where
  "parseGroup g =
     (if g = [] \<or> 4 < length g then None
      else Some (foldl (\<lambda>n c. n * 16 + the (unhex c)) 0 g))"

text \<open>The groups of an IPv6 literal: at most sixteen bytes, the place of \<^verbatim>\<open>::\<close> if it has one, a dotted tail
  allowed where it fills the last four.\<close>

function parseIPv6Groups :: "gostring \<Rightarrow> int list \<Rightarrow> nat option \<Rightarrow> (int list \<times> nat option \<times> gostring) option" where
  "parseIPv6Groups s bytes ellipsis =
     (if \<not> length bytes < 16 then Some (bytes, ellipsis, s)
      else
        let g = takeWhile (\<lambda>c. unhex c \<noteq> None) s; rest = drop (length g) s
        in case parseGroup g of
             None \<Rightarrow> None
           | Some acc \<Rightarrow>
               if rest \<noteq> [] \<and> hd rest = 46 then
                 (if (ellipsis = None \<and> length bytes \<noteq> 12) \<or> 16 < length bytes + 4 then None
                  else case parseIPv4Fields s 0 0 [] of None \<Rightarrow> None | Some fs \<Rightarrow> Some (bytes @ fs, ellipsis, []))
               else
                 let bytes = bytes @ [acc div 256, acc mod 256]
                 in if rest = [] then Some (bytes, ellipsis, [])
                    else if hd rest \<noteq> 58 \<or> tl rest = [] then None
                    else
                      let s = tl rest
                      in if hd s = 58 then
                           (if ellipsis \<noteq> None then None
                            else if tl s = [] then Some (bytes, Some (length bytes), [])
                            else parseIPv6Groups (tl s) bytes (Some (length bytes)))
                         else parseIPv6Groups s bytes ellipsis)"
  by pat_completeness auto
termination
  by (relation "measure (\<lambda>(s, bytes, ellipsis). 16 - length bytes)") (auto simp: Let_def)

declare parseIPv6Groups.simps [simp del]

definition bytes6 :: "int list \<Rightarrow> 128 word" where
  "bytes6 bs = of_int (foldl (\<lambda>n b. n * 256 + b) 0 bs)"

definition parseIPv6 :: "gostring \<Rightarrow> Addr option" where
  "parseIPv6 text =
     (let s = takeWhile (\<lambda>c. c \<noteq> 37) text; zoned = (37 \<in> set text); zone = drop (length s + 1) text
      in if zoned \<and> zone = [] then None
         else
           let lead = has_prefix s [58, 58]; s' = (if lead then drop 2 s else s)
           in if lead \<and> s' = [] then Some (Addr6 0 zone)
              else case parseIPv6Groups s' [] (if lead then Some 0 else None) of
                     None \<Rightarrow> None
                   | Some (bytes, ellipsis, rest) \<Rightarrow>
                       if rest \<noteq> [] then None
                       else if length bytes < 16 then
                         (case ellipsis of
                            None \<Rightarrow> None
                          | Some k \<Rightarrow> Some (Addr6 (bytes6 (take k bytes @ replicate (16 - length bytes) 0 @ drop k bytes)) zone))
                       else if ellipsis \<noteq> None then None
                       else Some (Addr6 (bytes6 bytes) zone))"

definition ParseAddr :: "gostring \<Rightarrow> Addr option" where
  "ParseAddr s =
     (case find (\<lambda>c. c = 46 \<or> c = 58 \<or> c = 37) s of
        None \<Rightarrow> None
      | Some c \<Rightarrow>
          if c = 46 then map_option (\<lambda>fs. Addr4 (of_int (foldl (\<lambda>n b. n * 256 + b) 0 fs))) (parseIPv4Fields s 0 0 [])
          else if c = 58 then parseIPv6 s
          else None)"

subsection \<open>What may be fetched\<close>

definition blockedPrefixes :: "Prefix list" where
  "blockedPrefixes =
    [Prefix4 (v4addr 0 0 0 0) 8, Prefix6 (v6addr [0x2001]) 23, Prefix6 (v6addr [0x3FFF]) 20,
     Prefix4 (v4addr 100 64 0 0) 10, Prefix4 (v4addr 192 0 0 0) 24, Prefix4 (v4addr 192 0 2 0) 24,
     Prefix4 (v4addr 192 88 99 0) 24, Prefix4 (v4addr 198 18 0 0) 15, Prefix4 (v4addr 198 51 100 0) 24,
     Prefix4 (v4addr 203 0 113 0) 24, Prefix4 (v4addr 240 0 0 0) 4, Prefix6 (v6addr [0x2001, 0xDB8]) 32,
     Prefix6 (v6addr [0x2002]) 16, Prefix6 (v6addr [0x2001]) 32]"

definition routableWithin :: "Prefix list" where
  "routableWithin =
    [Prefix6 (v6addr [0x2001, 1, 0, 0, 0, 0, 0, 1]) 128, Prefix6 (v6addr [0x2001, 1, 0, 0, 0, 0, 0, 2]) 128,
     Prefix6 (v6addr [0x2001, 3]) 32, Prefix6 (v6addr [0x2001, 4, 0x112]) 48,
     Prefix6 (v6addr [0x2001, 0x20]) 28, Prefix6 (v6addr [0x2001, 0x30]) 28]"

definition globalUnicastV6 :: Prefix where
  "globalUnicastV6 = Prefix6 (v6addr [0x2000]) 3"

definition blockedSuffixes :: "gostring list" where
  "blockedSuffixes = [lit ''.local'', lit ''.internal'', lit ''.localhost'', lit ''.home.arpa'']"

definition AddrAllowed :: "Addr \<Rightarrow> bool" where
  "AddrAllowed addr =
     (if addr = NoAddr then False
      else
        let a = Unmap addr
        in if IsUnspecified a \<or> IsLoopback a \<or> IsPrivate a \<or> IsLinkLocalUnicast a \<or> IsLinkLocalMulticast a
              \<or> IsInterfaceLocalMulticast a \<or> IsMulticast a then False
           else if Is6 a \<and> \<not> Contains globalUnicastV6 a then False
           else if list_ex (\<lambda>p. Contains p a) routableWithin then True
           else if list_ex (\<lambda>p. Contains p a) blockedPrefixes then False
           else True)"

definition isASCII :: "gostring \<Rightarrow> bool" where
  "isASCII s = list_all (\<lambda>r. r < 128) s"

definition HostAllowed :: "unicode \<Rightarrow> gostring \<Rightarrow> bool" where
  "HostAllowed U host =
     (let h = map (uToLower U) (rev (dropWhile (\<lambda>r. r = 46) (rev host)))
      in if h = [] \<or> \<not> isASCII h then False
         else if h = lit ''localhost'' then False
         else if list_ex (has_suffix h) blockedSuffixes then False
         else True)"

text \<open>What the program reads of a \<^verbatim>\<open>*url.URL\<close>.\<close>

record URL =
  uScheme :: gostring
  uHasUser :: bool
  uHostname :: gostring
  uPort :: gostring
  uHost :: gostring
  uPath :: gostring
  uEscapedPath :: gostring
  uRawQuery :: gostring

record Target =
  tgURL :: URL
  tgAddrs :: "Addr list"

fun checkAddrs :: "Addr list \<Rightarrow> Addr list \<Rightarrow> Addr list option" where
  "checkAddrs [] out = Some out"
| "checkAddrs (a # addrs) out = (if \<not> AddrAllowed a then None else checkAddrs addrs (out @ [Unmap a]))"

definition Check ::
  "unicode \<Rightarrow> (gostring \<Rightarrow> URL option) \<Rightarrow> (gostring \<Rightarrow> Addr list option) \<Rightarrow> gostring \<Rightarrow> goerror + Target" where
  "Check U parse lookup raw =
     (case parse raw of
        None \<Rightarrow> Inl (Sentinel ErrBlocked)
      | Some u \<Rightarrow>
          let scheme = map (uToLower U) (uScheme u); host = uHostname u
          in if scheme \<noteq> lit ''http'' \<and> scheme \<noteq> lit ''https'' then Inl (Sentinel ErrBlocked)
             else if uHasUser u then Inl (Sentinel ErrBlocked)
             else if \<not> HostAllowed U host then Inl (Sentinel ErrBlocked)
             else
               case ParseAddr host of
                 Some a \<Rightarrow>
                   if \<not> AddrAllowed a then Inl (Sentinel ErrBlocked)
                   else Inr \<lparr>tgURL = u, tgAddrs = [Unmap a]\<rparr>
               | None \<Rightarrow>
                   (case lookup host of
                      None \<Rightarrow> Inl (Sentinel ErrUnresolved)
                    | Some addrs \<Rightarrow>
                        if addrs = [] then Inl (Sentinel ErrUnresolved)
                        else
                          case checkAddrs addrs [] of
                            None \<Rightarrow> Inl (Sentinel ErrBlocked)
                          | Some out \<Rightarrow> Inr \<lparr>tgURL = u, tgAddrs = out\<rparr>))"

end
