(* ===== verification/Webfetch.thy ===== *)
theory Webfetch
  imports Urlguard
begin

text \<open>
  \<^verbatim>\<open>internal/site/fetch\<close> and \<^verbatim>\<open>pgcache\<close>: one URL fetched through the cache, the guard, robots.txt and the
  rate limit.  The fetcher is a record; what lies outside it is the record \<open>Web\<close>: the two cache tables of
  the library, database failures, the clock, and the requests sent so far.  The network, the guard's
  answers, URL parsing and the robots.txt matcher are the record \<open>WebEnv\<close>; an answer may depend on how
  many have been given.
\<close>

subsection \<open>normalize.go\<close>

fun applySegment :: "gostring list \<Rightarrow> gostring \<Rightarrow> gostring list" where
  "applySegment out seg =
     (if seg = lit ''.'' then out
      else if seg = lit ''..'' then (if 1 < length out then butlast out else out)
      else out @ [seg])"

definition endsInDots :: "gostring \<Rightarrow> bool" where
  "endsInDots path = (has_suffix path (lit ''/.'') \<or> has_suffix path (lit ''/..''))"

definition removeDotSegments :: "gostring \<Rightarrow> gostring" where
  "removeDotSegments path =
     (let joined = join [47] (foldl applySegment [] (split [47] path))
      in if endsInDots path \<and> \<not> has_suffix joined [47] then joined @ [47] else joined)"

definition authority :: "unicode \<Rightarrow> URL \<Rightarrow> gostring \<Rightarrow> gostring" where
  "authority U u scheme =
     (let host = map (uToLower U) (uHostname u);
          host = (if contains host [58] then [91] @ host @ [93] else host);
          port = uPort u
      in if port = [] \<or> (scheme = lit ''http'' \<and> port = lit ''80'') \<or> (scheme = lit ''https'' \<and> port = lit ''443'')
         then host else host @ [58] @ port)"

definition Normalize :: "unicode \<Rightarrow> (gostring \<Rightarrow> URL option) \<Rightarrow> gostring \<Rightarrow> goerror + gostring" where
  "Normalize U parse raw =
     (case parse raw of
        None \<Rightarrow> Inl (Errorf (lit ''unparseable URL '' @ raw) (ErrorNew (lit ''parse'')))
      | Some u \<Rightarrow>
          let scheme = map (uToLower U) (uScheme u);
              path = removeDotSegments (uEscapedPath u);
              path = (if path = [] then [47] else path);
              out = scheme @ lit ''://'' @ authority U u scheme @ path
          in Inr (if uRawQuery u \<noteq> [] then out @ [63] @ uRawQuery u else out))"

subsection \<open>State\<close>

record Response =
  rsURL :: gostring
  rsFinalURL :: gostring
  rsStatus :: int
  rsContentType :: gostring
  rsETag :: gostring
  rsLastModified :: gostring
  rsBody :: "byte list"
  rsSHA256 :: gostring
  rsFetchedAt :: int

record RobotsFile =
  rfBody :: "byte list"
  rfFetchedAt :: int

record Fetched =
  ftURL :: gostring
  ftFinalURL :: gostring
  ftContentType :: gostring
  ftBody :: "byte list"
  ftStatus :: int
  ftFromCache :: bool

text \<open>An answer on the wire: the bytes that arrive, and whether the connection breaks after them.\<close>

record Answer =
  anStatus :: int
  anContentType :: gostring
  anETag :: gostring
  anLastModified :: gostring
  anLocation :: gostring
  anBytes :: "byte list"
  anBroken :: bool

record Sent =
  seURL :: gostring
  seHost :: gostring
  seAddrs :: "Addr list"
  seAt :: int

record Web =
  wbResponses :: "gostring \<Rightarrow> Response option"
  wbRobots :: "gostring \<Rightarrow> RobotsFile option"
  wbFaults :: "bool list"
  wbClock :: int
  wbTick :: nat
  wbSent :: "Sent list"

record WebEnv =
  weUnicode :: unicode
  weParse :: "gostring \<Rightarrow> URL option"
  weResolve :: "gostring \<Rightarrow> gostring \<Rightarrow> gostring option"  \<comment> \<open>base, reference: the URL it names\<close>
  weEqualFold :: "gostring \<Rightarrow> gostring \<Rightarrow> bool"  \<comment> \<open>strings.EqualFold\<close>
  weGuard :: "nat \<Rightarrow> gostring \<Rightarrow> goerror + Target"
  weServe :: "nat \<Rightarrow> gostring \<Rightarrow> (gostring \<times> gostring) list \<Rightarrow> goerror + Answer"
  weTook :: "nat \<Rightarrow> nat"
  weCancelled :: "nat \<Rightarrow> bool"
  weAgentAllowed :: "byte list \<Rightarrow> gostring \<Rightarrow> gostring \<Rightarrow> bool"
  weSHA256 :: "byte list \<Rightarrow> gostring"

definition UserAgent :: gostring where
  "UserAgent = lit ''docsearch/0.1 (+https://github.com/bamsammich/docsearch)''"
definition DefaultInterval :: int where "DefaultInterval = 500"
definition DefaultMaxRedirects :: int where "DefaultMaxRedirects = 5"
definition DefaultMaxFetches :: int where "DefaultMaxFetches = 5000"
definition DefaultMaxBodyBytes :: int where "DefaultMaxBodyBytes = 104857600"

record FetchOptions =
  foUserAgent :: gostring
  foInterval :: int
  foMaxRedirects :: int
  foMaxFetches :: int
  foMaxBodyBytes :: int
  foIgnoreRobots :: bool

record Fetcher =
  feRobots :: "gostring \<Rightarrow> byte list option"
  feLast :: "gostring \<Rightarrow> int option"
  feUserAgent :: gostring
  feInterval :: int
  feMaxRedirects :: int
  feMaxFetches :: int
  feSlack :: int
  feFetches :: int
  feMaxBody :: int
  feIgnoreRobots :: bool

definition orInt :: "int \<Rightarrow> int \<Rightarrow> int" where
  "orInt v fallback = (if v = 0 then fallback else v)"

definition orText :: "gostring \<Rightarrow> gostring \<Rightarrow> gostring" where
  "orText v fallback = (if v = [] then fallback else v)"

definition newFetcher :: "FetchOptions \<Rightarrow> Fetcher" where
  "newFetcher opts = \<lparr>feRobots = Map.empty, feLast = Map.empty, feUserAgent = orText (foUserAgent opts) UserAgent,
     feInterval = orInt (foInterval opts) DefaultInterval, feMaxRedirects = orInt (foMaxRedirects opts) DefaultMaxRedirects,
     feMaxFetches = orInt (foMaxFetches opts) DefaultMaxFetches, feSlack = orInt (foMaxFetches opts) DefaultMaxFetches,
     feFetches = 0, feMaxBody = (if 0 < foMaxBodyBytes opts then foMaxBodyBytes opts else DefaultMaxBodyBytes),
     feIgnoreRobots = foIgnoreRobots opts\<rparr>"

type_synonym fstate = "Fetcher \<times> Web"
type_synonym 'a web = "fstate \<Rightarrow> (goerror + 'a) \<times> fstate"

subsection \<open>pgcache.go\<close>

definition cacheFault :: "gostring \<Rightarrow> Web \<Rightarrow> goerror option \<times> Web" where
  "cacheFault what w =
     (case wbFaults w of
        [] \<Rightarrow> (None, w)
      | f # fs \<Rightarrow> (if f then Some (Errorf what (Sentinel ErrFault)) else None, w\<lparr>wbFaults := fs\<rparr>))"

definition cacheGet :: "gostring \<Rightarrow> Response option web" where
  "cacheGet url = (\<lambda>(f, w).
     case cacheFault (lit ''read '' @ url @ lit '' from cache'') w of
       (Some e, w) \<Rightarrow> (Inl e, f, w)
     | (None, w) \<Rightarrow> (Inr (wbResponses w url), f, w))"

text \<open>A header the server left out is stored as NULL and reads back empty, the value it had.\<close>

definition cachePut :: "Response \<Rightarrow> unit web" where
  "cachePut r = (\<lambda>(f, w).
     case cacheFault (lit ''store '' @ rsURL r @ lit '' in cache'') w of
       (Some e, w) \<Rightarrow> (Inl e, f, w)
     | (None, w) \<Rightarrow> (Inr (), f, w\<lparr>wbResponses := (wbResponses w)(rsURL r \<mapsto> r)\<rparr>))"

definition cacheTouch :: "gostring \<Rightarrow> unit web" where
  "cacheTouch url = (\<lambda>(f, w).
     case cacheFault (lit ''touch '' @ url @ lit '' in cache'') w of
       (Some e, w) \<Rightarrow> (Inl e, f, w)
     | (None, w) \<Rightarrow> (Inr (), f, w\<lparr>wbResponses :=
          (wbResponses w)(url := map_option (\<lambda>r. r\<lparr>rsFetchedAt := wbClock w\<rparr>) (wbResponses w url))\<rparr>))"

definition cacheRobots :: "gostring \<Rightarrow> RobotsFile option web" where
  "cacheRobots host = (\<lambda>(f, w).
     case cacheFault (lit ''read robots for '' @ host) w of
       (Some e, w) \<Rightarrow> (Inl e, f, w)
     | (None, w) \<Rightarrow> (Inr (wbRobots w host), f, w))"

text \<open>The runes of a string of bytes, and what a column of text takes: UTF-8 without a NUL.\<close>

function stringRunes :: "byte list \<Rightarrow> gostring" where
  "stringRunes [] = []"
| "stringRunes (b # bs) = (let (r, n) = DecodeRune (b # bs) in r # stringRunes (drop n (b # bs)))"
  by pat_completeness auto
termination
proof (relation "measure length", goal_cases)
  case (2 b bs x r n)
  then have "0 < n" using DecodeRune_width[of b bs] by (metis snd_conv)
  then show ?case by (cases n) auto
qed simp

definition pg_bytes :: "byte list \<Rightarrow> bool" where
  "pg_bytes b = (0 \<notin> set b \<and> concat (map EncodeRune (stringRunes b)) = b)"

definition cachePutRobots :: "gostring \<Rightarrow> RobotsFile \<Rightarrow> unit web" where
  "cachePutRobots host r = (\<lambda>(f, w).
     case cacheFault (lit ''store robots for '' @ host) w of
       (Some e, w) \<Rightarrow> (Inl e, f, w)
     | (None, w) \<Rightarrow>
         if \<not> pg_bytes (rfBody r)
         then (Inl (Errorf (lit ''store robots for '' @ host) (ErrorNew (lit ''invalid byte sequence for encoding UTF8''))), f, w)
         else (Inr (), f, w\<lparr>wbRobots := (wbRobots w)(host \<mapsto> r)\<rparr>))"

subsection \<open>fetch.go\<close>

definition isRedirect :: "int \<Rightarrow> bool" where
  "isRedirect status = (status = 301 \<or> status = 302 \<or> status = 303 \<or> status = 307 \<or> status = 308)"

definition fetchError :: "gostring \<Rightarrow> goerror" where
  "fetchError msg = ErrorfPrefix (Sentinel ErrFetch) (lit '': '' @ msg)"

definition fetchErrorOf :: "gostring \<Rightarrow> goerror \<Rightarrow> goerror" where
  "fetchErrorOf raw e = ErrorfBoth (Sentinel ErrFetch) (lit '': '' @ raw @ lit '': '') e"

text \<open>\<^verbatim>\<open>wait\<close>: sleep out what remains of the interval, then note the time.\<close>

definition wait :: "gostring \<Rightarrow> fstate \<Rightarrow> fstate" where
  "wait host = (\<lambda>(f, w).
     let w = (case feLast f host of
                None \<Rightarrow> w
              | Some t \<Rightarrow> let remaining = feInterval f - (wbClock w - t)
                          in if 0 < remaining then w\<lparr>wbClock := wbClock w + remaining\<rparr> else w)
     in (f\<lparr>feLast := (feLast f)(host \<mapsto> wbClock w)\<rparr>, w))"

text \<open>\<^verbatim>\<open>do\<close>: send, and read the body up to the limit.\<close>

definition doRequest ::
  "WebEnv \<Rightarrow> gostring \<Rightarrow> gostring \<Rightarrow> Addr list \<Rightarrow> (gostring \<times> gostring) list \<Rightarrow> Answer web" where
  "doRequest E raw host addrs headers = (\<lambda>(f, w).
     let n = wbTick w;
         w = w\<lparr>wbSent := wbSent w @ [\<lparr>seURL = raw, seHost = host, seAddrs = addrs, seAt = wbClock w\<rparr>],
               wbClock := wbClock w + int (weTook E n)\<rparr>
     in case weServe E n raw headers of
          Inl e \<Rightarrow> (Inl (fetchErrorOf raw e), f, w)
        | Inr a \<Rightarrow>
            if isRedirect (anStatus a) \<or> anStatus a = 304 then (Inr (a\<lparr>anBytes := [], anBroken := False\<rparr>), f, w)
            else if feMaxBody f < int (length (anBytes a)) then
              (Inl (fetchError (raw @ lit '': the response is larger than '' @ show_int (feMaxBody f div 1048576) @ lit '' MB'')), f, w)
            else if anBroken a then (Inl (fetchErrorOf raw (ErrorNew (lit ''unexpected EOF''))), f, w)
            else (Inr a, f, w))"

definition request :: "WebEnv \<Rightarrow> gostring \<Rightarrow> (gostring \<times> gostring) list \<Rightarrow> Answer web" where
  "request E raw headers = (\<lambda>(f, w).
     let w = w\<lparr>wbTick := wbTick w + 1\<rparr>
     in case weGuard E (wbTick w) raw of
          Inl e \<Rightarrow> (Inl (fetchErrorOf raw e), f, w)
        | Inr checked \<Rightarrow>
            let (f, w) = wait (uHostname (tgURL checked)) (f, w);
                f = f\<lparr>feFetches := feFetches f + 1\<rparr>
            in if weParse E raw = None then (Inl (fetchErrorOf raw (ErrorNew (lit ''parse''))), f, w)
               else doRequest E raw (uHostname (tgURL checked)) (tgAddrs checked) headers (f, w))"

definition Reserve :: "int \<Rightarrow> fstate \<Rightarrow> fstate" where
  "Reserve requests = (\<lambda>(f, w). (f\<lparr>feMaxFetches := max (feMaxFetches f) (feFetches f + requests + feSlack f)\<rparr>, w))"

definition hop :: "WebEnv \<Rightarrow> gostring \<Rightarrow> (gostring \<times> gostring) list \<Rightarrow> Answer web" where
  "hop E raw headers = (\<lambda>(f, w).
     if feMaxFetches f \<le> feFetches f
     then (Inl (fetchError (lit ''fetch budget of '' @ show_int (feMaxFetches f) @ lit '' exhausted'')), f, w)
     else request E raw headers (f, w))"

definition redirectTo :: "WebEnv \<Rightarrow> gostring \<Rightarrow> gostring \<Rightarrow> goerror + gostring" where
  "redirectTo E source location =
     (if location = [] then Inl (fetchError (source @ lit '': redirect without a location''))
      else case weParse E source of
        None \<Rightarrow> Inl (fetchErrorOf source (ErrorNew (lit ''parse'')))
      | Some _ \<Rightarrow>
          (case weResolve E source location of
             None \<Rightarrow> Inl (fetchError (source @ lit '': unresolvable redirect to '' @ location))
           | Some next \<Rightarrow> Normalize (weUnicode E) (weParse E) next))"

definition conditional :: "Response option \<Rightarrow> (gostring \<times> gostring) list" where
  "conditional cached =
     (case cached of
        None \<Rightarrow> []
      | Some r \<Rightarrow> (if rsETag r \<noteq> [] then [(lit ''If-None-Match'', rsETag r)] else []) @
                  (if rsLastModified r \<noteq> [] then [(lit ''If-Modified-Since'', rsLastModified r)] else []))"

definition fromCache :: "Response \<Rightarrow> Fetched" where
  "fromCache r = \<lparr>ftURL = rsURL r, ftFinalURL = rsFinalURL r, ftContentType = rsContentType r, ftBody = rsBody r,
     ftStatus = rsStatus r, ftFromCache = True\<rparr>"

definition storeResponse :: "WebEnv \<Rightarrow> gostring \<Rightarrow> gostring \<Rightarrow> Answer \<Rightarrow> Fetched web" where
  "storeResponse E target final res = (\<lambda>(f, w).
     case cachePut \<lparr>rsURL = target, rsFinalURL = final, rsStatus = anStatus res, rsContentType = anContentType res,
            rsETag = anETag res, rsLastModified = anLastModified res, rsBody = anBytes res,
            rsSHA256 = weSHA256 E (anBytes res), rsFetchedAt = wbClock w\<rparr> (f, w) of
       (Inl e, fw) \<Rightarrow> (Inl e, fw)
     | (Inr _, fw) \<Rightarrow> (Inr \<lparr>ftURL = target, ftFinalURL = final, ftContentType = anContentType res, ftBody = anBytes res,
                            ftStatus = anStatus res, ftFromCache = False\<rparr>, fw))"

definition settle :: "WebEnv \<Rightarrow> gostring \<Rightarrow> gostring \<Rightarrow> Answer \<Rightarrow> Response option \<Rightarrow> Fetched web" where
  "settle E target final res cached fw =
     (case cached of
        Some r \<Rightarrow>
          if anStatus res = 304 then
            (case cacheTouch target fw of (Inl e, fw) \<Rightarrow> (Inl e, fw) | (Inr _, fw) \<Rightarrow> (Inr (fromCache r), fw))
          else storeResponse E target final res fw
      | None \<Rightarrow> storeResponse E target final res fw)"

text \<open>The loop of \<^verbatim>\<open>follow\<close>, with the hops it has left.\<close>

fun followFrom :: "nat \<Rightarrow> WebEnv \<Rightarrow> gostring \<Rightarrow> Response option \<Rightarrow> gostring \<Rightarrow> Fetched web" where
  "followFrom 0 E target cached current (f, w) =
     (Inl (fetchError (target @ lit '': more than '' @ show_int (feMaxRedirects f) @ lit '' redirects'')), f, w)"
| "followFrom (Suc n) E target cached current fw =
     (case hop E current (conditional cached) fw of
        (Inl e, fw) \<Rightarrow> (Inl e, fw)
      | (Inr res, fw) \<Rightarrow>
          if \<not> isRedirect (anStatus res) then settle E target current res cached fw
          else case redirectTo E current (anLocation res) of
                 Inl e \<Rightarrow> (Inl e, fw)
               | Inr next \<Rightarrow> followFrom n E target cached next fw)"

definition follow :: "WebEnv \<Rightarrow> gostring \<Rightarrow> Response option \<Rightarrow> Fetched web" where
  "follow E target cached = (\<lambda>(f, w). followFrom (nat (feMaxRedirects f + 1)) E target cached target (f, w))"

text \<open>robots.txt.\<close>

definition robotsMaxAge :: int where "robotsMaxAge = 86400000"

definition disallowAll :: "byte list" where
  "disallowAll = lit ''User-agent: *'' @ [10] @ lit ''Disallow: /'' @ [10]"

definition readRobotsAnswer :: "Answer \<Rightarrow> byte list \<times> bool" where
  "readRobotsAnswer res =
     (if anStatus res = 200 then (anBytes res, True)
      else if 500 \<le> anStatus res then ([], False)
      else ([], True))"

text \<open>The loop of \<^verbatim>\<open>fetchRobots\<close>.\<close>

fun fetchRobotsFrom :: "nat \<Rightarrow> WebEnv \<Rightarrow> gostring \<Rightarrow> (byte list \<times> bool) web" where
  "fetchRobotsFrom 0 E current fw = (Inr ([], True), fw)"
| "fetchRobotsFrom (Suc n) E current fw =
     (case request E current [] fw of
        (Inl e, f, w) \<Rightarrow>
          if weCancelled E (wbTick w) then (Inl (Sentinel ErrContext), f, w) else (Inr ([], False), f, w)
      | (Inr res, fw) \<Rightarrow>
          if \<not> isRedirect (anStatus res) then (Inr (readRobotsAnswer res), fw)
          else case redirectTo E current (anLocation res) of
                 Inl e \<Rightarrow> (Inr ([], True), fw)
               | Inr next \<Rightarrow> fetchRobotsFrom n E next fw)"

definition fetchRobots :: "WebEnv \<Rightarrow> gostring \<Rightarrow> (byte list \<times> bool) web" where
  "fetchRobots E raw = (\<lambda>(f, w). fetchRobotsFrom (nat (feMaxRedirects f + 1)) E raw (f, w))"

definition readRobots :: "WebEnv \<Rightarrow> URL \<Rightarrow> RobotsFile option \<Rightarrow> byte list web" where
  "readRobots E u stored fw =
     (case fetchRobots E (uScheme u @ lit ''://'' @ uHost u @ lit ''/robots.txt'') fw of
        (Inl e, fw) \<Rightarrow> (Inl e, fw)
      | (Inr (body, reachable), f, w) \<Rightarrow>
          if \<not> reachable then
            (case stored of Some r \<Rightarrow> (Inr (rfBody r), f, w) | None \<Rightarrow> (Inr disallowAll, f, w))
          else case cachePutRobots (uHostname u) \<lparr>rfBody = body, rfFetchedAt = wbClock w\<rparr> (f, w) of
                 (Inl e, fw) \<Rightarrow> (Inl e, fw)
               | (Inr _, fw) \<Rightarrow> (Inr body, fw))"

definition holdRobots :: "gostring \<Rightarrow> byte list \<Rightarrow> fstate \<Rightarrow> fstate" where
  "holdRobots host body = (\<lambda>(f, w). (f\<lparr>feRobots := (feRobots f)(host \<mapsto> body)\<rparr>, w))"

definition robotsFor :: "WebEnv \<Rightarrow> URL \<Rightarrow> byte list web" where
  "robotsFor E u = (\<lambda>(f, w).
     let host = uHostname u
     in case feRobots f host of
          Some body \<Rightarrow> (Inr body, f, w)
        | None \<Rightarrow>
            (case cacheRobots host (f, w) of
               (Inl e, fw) \<Rightarrow> (Inl e, fw)
             | (Inr stored, f, w) \<Rightarrow>
                 (case stored of
                    Some r \<Rightarrow>
                      if wbClock w - rfFetchedAt r < robotsMaxAge
                      then (Inr (rfBody r), holdRobots host (rfBody r) (f, w))
                      else (case readRobots E u stored (f, w) of
                              (Inl e, fw) \<Rightarrow> (Inl e, fw) | (Inr body, fw) \<Rightarrow> (Inr body, holdRobots host body fw))
                  | None \<Rightarrow>
                      (case readRobots E u stored (f, w) of
                         (Inl e, fw) \<Rightarrow> (Inl e, fw) | (Inr body, fw) \<Rightarrow> (Inr body, holdRobots host body fw)))))"

definition allowedByRobots :: "WebEnv \<Rightarrow> gostring \<Rightarrow> bool web" where
  "allowedByRobots E raw = (\<lambda>(f, w).
     if feIgnoreRobots f then (Inr True, f, w)
     else case weParse E raw of
       None \<Rightarrow> (Inl (fetchErrorOf raw (ErrorNew (lit ''parse''))), f, w)
     | Some u \<Rightarrow>
         (case robotsFor E u (f, w) of
            (Inl e, fw) \<Rightarrow> (Inl e, fw)
          | (Inr body, f, w) \<Rightarrow> (Inr (weAgentAllowed E body (feUserAgent f) raw), f, w)))"

definition Robots :: "WebEnv \<Rightarrow> gostring \<Rightarrow> byte list web" where
  "Robots E raw fw =
     (case weParse E raw of
        None \<Rightarrow> (Inl (fetchErrorOf raw (ErrorNew (lit ''parse''))), fw)
      | Some u \<Rightarrow> robotsFor E u fw)"

definition Fetch :: "WebEnv \<Rightarrow> gostring \<Rightarrow> bool \<Rightarrow> Fetched web" where
  "Fetch E raw revalidate fw =
     (case Normalize (weUnicode E) (weParse E) raw of
        Inl e \<Rightarrow> (Inl e, fw)
      | Inr target \<Rightarrow>
          (case cacheGet target fw of
             (Inl e, fw) \<Rightarrow> (Inl e, fw)
           | (Inr cached, fw) \<Rightarrow>
               if cached \<noteq> None \<and> \<not> revalidate then (Inr (fromCache (the cached)), fw)
               else case allowedByRobots E target fw of
                      (Inl e, fw) \<Rightarrow> (Inl e, fw)
                    | (Inr allowed, fw) \<Rightarrow>
                        if \<not> allowed then (Inl (fetchError (lit ''robots.txt disallows '' @ target)), fw)
                        else follow E target cached fw))"

end
