(* ===== verification/Nav.thy ===== *)
theory Nav
  imports Webfetch Gofmt
begin

text \<open>
  \<^verbatim>\<open>internal/site/nav\<close>: how a site's pages nest.  What goquery selects from the seed page is a record
  (\<open>SeedPage\<close>): the navigation containers with their lists and links, and the headings and links of the
  body in document order.  The trees, their numbering and the choice between them are the code's.
\<close>

definition minCoverage :: rat where "minCoverage = 1 / 2"

record Placement =
  plURL :: gostring
  plSection :: gostring
  plTitle :: gostring
  plAncestry :: "gostring list"

record Hierarchy =
  hiPlacements :: "Placement list"
  hiPlacedByPath :: "gostring list"
  hiNotes :: "gostring list"
  hiSource :: StructureSource
  hiInferred :: bool

definition ByURL :: "Hierarchy \<Rightarrow> gostring \<Rightarrow> Placement option" where
  "ByURL h u = map_of (rev (map (\<lambda>p. (plURL p, p)) (hiPlacements h))) u"

datatype node = Node (nTitle: gostring) (nURL: gostring) (nChildren: "node list")

subsection \<open>Links and titles\<close>

text \<open>\<^verbatim>\<open>unicode.IsSpace\<close>, which \<^verbatim>\<open>strings.TrimSpace\<close> and \<^verbatim>\<open>strings.Fields\<close> go by.\<close>

definition goSpace :: "rune \<Rightarrow> bool" where
  "goSpace r = (r \<in> {9, 10, 11, 12, 13, 32, 0x85, 0xA0, 0x1680, 0x2028, 0x2029, 0x202F, 0x205F, 0x3000} \<or>
     (0x2000 \<le> r \<and> r \<le> 0x200A))"

definition TrimSpace :: "gostring \<Rightarrow> gostring" where
  "TrimSpace s = trim_func goSpace s"

definition isPageLink :: "gostring \<Rightarrow> bool" where
  "isPageLink href =
     (if href = [] \<or> has_prefix href (lit ''#'') then False
      else \<not> list_ex (has_prefix href) [lit ''mailto:'', lit ''javascript:'', lit ''tel:''])"

text \<open>The resolved and normalised target of an \<^verbatim>\<open>href\<close>, where it addresses a page.\<close>

definition absolute :: "WebEnv \<Rightarrow> gostring \<Rightarrow> gostring \<Rightarrow> gostring option" where
  "absolute E base href =
     (let href = TrimSpace href
      in if \<not> isPageLink href then None
         else case weParse E base of
           None \<Rightarrow> None
         | Some _ \<Rightarrow>
             (case weResolve E base href of
                None \<Rightarrow> None
              | Some next \<Rightarrow>
                  (case Normalize (weUnicode E) (weParse E) next of Inl _ \<Rightarrow> None | Inr u \<Rightarrow> Some u)))"

definition sameHost :: "WebEnv \<Rightarrow> gostring \<Rightarrow> gostring \<Rightarrow> bool" where
  "sameHost E a b =
     (case (weParse E a, weParse E b) of
        (Some ua, Some ub) \<Rightarrow> weEqualFold E (uHostname ua) (uHostname ub)
      | _ \<Rightarrow> False)"

definition pathOf :: "WebEnv \<Rightarrow> gostring \<Rightarrow> gostring" where
  "pathOf E raw = (case weParse E raw of None \<Rightarrow> [] | Some u \<Rightarrow> uPath u)"

definition segmentsOf :: "WebEnv \<Rightarrow> gostring \<Rightarrow> gostring list" where
  "segmentsOf E raw = filter (\<lambda>seg. seg \<noteq> []) (split [47] (pathOf E raw))"

text \<open>\<^verbatim>\<open>w[:1]\<close> is a byte: of a letter beyond ASCII it is no character, and each byte of the letter becomes
  U+FFFD as the two halves are mapped.\<close>

definition titleWord :: "unicode \<Rightarrow> gostring \<Rightarrow> gostring" where
  "titleWord U w =
     (case w of
        [] \<Rightarrow> []
      | r # rest \<Rightarrow>
          (if r < 128 then [if 97 \<le> r \<and> r \<le> 122 then r - 32 else r] else replicate (runeLen r) 0xFFFD) @
          map (uToLower U) rest)"

definition titleCase :: "unicode \<Rightarrow> gostring \<Rightarrow> gostring" where
  "titleCase U text = join [32] (map (titleWord U) (split [32] text))"

definition titleFromSlug :: "unicode \<Rightarrow> gostring \<Rightarrow> gostring" where
  "titleFromSlug U slug =
     (let text = trim_func (\<lambda>r. r = 47) slug;
          text = (case last_index text [47] of None \<Rightarrow> text | Some i \<Rightarrow> drop (i + 1) text);
          text = foldl (\<lambda>t suffix. trim_suffix t suffix) text [lit ''.html'', lit ''.htm'', lit ''.md''];
          text = TrimSpace (map (\<lambda>r. if r = 45 \<or> r = 95 then 32 else r) text)
      in if text = [] then lit ''Untitled'' else titleCase U text)"

definition titleOr :: "WebEnv \<Rightarrow> node \<Rightarrow> gostring \<Rightarrow> gostring" where
  "titleOr E n raw = (if nTitle n \<noteq> [] then nTitle n else titleFromSlug (weUnicode E) (pathOf E raw))"

definition percent :: "rat \<Rightarrow> gostring" where
  "percent share = formatF 0 (rnd (share * 100)) @ lit ''%''"

subsection \<open>Numbering\<close>

definition sectionAt :: "gostring \<Rightarrow> nat \<Rightarrow> gostring" where
  "sectionAt path k = (if path \<noteq> [] then path @ lit ''.'' @ show_nat k else show_nat k)"

definition addPlacement :: "WebEnv \<Rightarrow> node \<Rightarrow> gostring \<Rightarrow> gostring list \<Rightarrow> Placement list \<Rightarrow> Placement list" where
  "addPlacement E n section ancestry out =
     (if nURL n = [] then out
      else if nURL n \<in> set (map plURL out) then out
      else out @ [\<lparr>plURL = nURL n, plSection = section, plTitle = titleOr E n (nURL n), plAncestry = ancestry\<rparr>])"

text \<open>\<^verbatim>\<open>flattener.walk\<close>, with the index its loop has reached.\<close>

fun walkNodes :: "WebEnv \<Rightarrow> nat \<Rightarrow> node list \<Rightarrow> gostring \<Rightarrow> gostring list \<Rightarrow> Placement list \<Rightarrow> Placement list" where
  "walkNodes E i [] path ancestry out = out"
| "walkNodes E i (Node title url children # items) path ancestry out =
     (let section = sectionAt path (i + 1);
          out = addPlacement E (Node title url children) section ancestry out;
          next = (if title \<noteq> [] then ancestry @ [title] else ancestry);
          out = walkNodes E 0 children section next out
      in walkNodes E (i + 1) items path ancestry out)"

definition flatten :: "WebEnv \<Rightarrow> node list \<Rightarrow> gostring \<Rightarrow> Placement list" where
  "flatten E nodes path = walkNodes E 0 nodes path [] []"

subsection \<open>The tree of URL paths\<close>

text \<open>Groups are keyed by their segment below their parent, which is what the map of path prefixes finds.\<close>

datatype pathTree = PathPage gostring gostring | PathGroup gostring "pathTree list"

fun addPath :: "WebEnv \<Rightarrow> gostring list \<Rightarrow> gostring \<Rightarrow> pathTree list \<Rightarrow> pathTree list" where
  "addPath E [] raw trees = trees"
| "addPath E [seg] raw trees = trees @ [PathPage (titleFromSlug (weUnicode E) seg) raw]"
| "addPath E (seg # seg' # segs) raw [] = [PathGroup seg (addPath E (seg' # segs) raw [])]"
| "addPath E (seg # seg' # segs) raw (PathPage t u # trees) = PathPage t u # addPath E (seg # seg' # segs) raw trees"
| "addPath E (seg # seg' # segs) raw (PathGroup g kids # trees) =
     (if g = seg then PathGroup g (addPath E (seg' # segs) raw kids) # trees
      else PathGroup g kids # addPath E (seg # seg' # segs) raw trees)"

fun nodeOf :: "WebEnv \<Rightarrow> pathTree \<Rightarrow> node" where
  "nodeOf E (PathPage t u) = Node t u []"
| "nodeOf E (PathGroup seg kids) = Node (titleFromSlug (weUnicode E) seg) [] (map (nodeOf E) kids)"

definition addURL :: "WebEnv \<Rightarrow> nat \<Rightarrow> pathTree list \<Rightarrow> gostring \<Rightarrow> pathTree list" where
  "addURL E baseDepth roots raw =
     (let segments = segmentsOf E raw
      in if length segments \<le> baseDepth then roots @ [PathPage (titleFromSlug (weUnicode E) (pathOf E raw)) raw]
         else addPath E (drop baseDepth segments) raw roots)"

definition urlPathTree :: "WebEnv \<Rightarrow> gostring list \<Rightarrow> gostring \<Rightarrow> node list" where
  "urlPathTree E urls seed = map (nodeOf E) (foldl (addURL E (length (segmentsOf E seed))) [] urls)"

subsection \<open>The trees of the seed page\<close>

text \<open>A list item as goquery reads it: the link that is its own, the text of its label, its nested items.\<close>

datatype NavItem = NavItem (niAnchor: "(gostring \<times> gostring) option") (niLabel: gostring) (niItems: "NavItem list")

record NavContainer =
  ncLinks :: "(gostring \<times> gostring) list"  \<comment> \<open>href and text of every link\<close>
  ncItems :: "NavItem list"

record PageElement =
  peLink :: bool
  peHref :: "gostring option"
  peInLink :: bool
  peLevel :: int
  peText :: gostring
  peInner :: "gostring option"  \<comment> \<open>text of the first heading inside a link\<close>

record SeedPage =
  sdContainers :: "NavContainer list"
  sdElements :: "PageElement list"

definition sameHostLinks :: "WebEnv \<Rightarrow> gostring \<Rightarrow> NavContainer \<Rightarrow> nat" where
  "sameHostLinks E base c =
     length (filter (\<lambda>(href, _). case absolute E base href of None \<Rightarrow> False | Some u \<Rightarrow> sameHost E u base) (ncLinks c))"

definition flatLinks :: "WebEnv \<Rightarrow> gostring \<Rightarrow> NavContainer \<Rightarrow> node list" where
  "flatLinks E base c =
     List.map_filter (\<lambda>(href, text). map_option (\<lambda>u. Node text u []) (absolute E base href)) (ncLinks c)"

definition firstLine :: "gostring \<Rightarrow> gostring" where
  "firstLine s = TrimSpace (takeWhile (\<lambda>r. r \<noteq> 10) s)"

fun itemNode :: "WebEnv \<Rightarrow> gostring \<Rightarrow> NavItem \<Rightarrow> node" where
  "itemNode E base (NavItem anchor label items) =
     (case anchor of
        Some (href, text) \<Rightarrow>
          (case absolute E base href of
             Some u \<Rightarrow> Node text u (map (itemNode E base) items)
           | None \<Rightarrow> Node (firstLine label) [] (map (itemNode E base) items))
      | None \<Rightarrow> Node (firstLine label) [] (map (itemNode E base) items))"

definition treeFromLists :: "WebEnv \<Rightarrow> gostring \<Rightarrow> NavContainer \<Rightarrow> node list" where
  "treeFromLists E base c =
     (if ncItems c = [] then flatLinks E base c else map (itemNode E base) (ncItems c))"

text \<open>The container with the most links of the host, the first of several.\<close>

definition bestContainer :: "WebEnv \<Rightarrow> gostring \<Rightarrow> NavContainer list \<Rightarrow> NavContainer option" where
  "bestContainer E base cs =
     fst (foldl (\<lambda>(best, bestLinks) c. let n = sameHostLinks E base c
                 in if bestLinks < n then (Some c, n) else (best, bestLinks)) (None, 0) cs)"

definition sidebarTree :: "WebEnv \<Rightarrow> gostring \<Rightarrow> SeedPage \<Rightarrow> node list" where
  "sidebarTree E base page =
     (case bestContainer E base (sdContainers page) of None \<Rightarrow> [] | Some c \<Rightarrow> treeFromLists E base c)"

text \<open>The builder of the index page's tree: its open sections, innermost first, with the children each has
  so far.  A section joins its parent's children where it was opened, since nothing else is added to the
  parent while it is open.\<close>

record IndexBuilder =
  ibSeen :: "gostring list"
  ibRoots :: "node list"
  ibOpen :: "(int \<times> gostring \<times> node list) list"

fun addNode :: "node \<Rightarrow> IndexBuilder \<Rightarrow> IndexBuilder" where
  "addNode n b =
     (case ibOpen b of
        [] \<Rightarrow> b\<lparr>ibRoots := ibRoots b @ [n]\<rparr>
      | (level, title, kids) # rest \<Rightarrow> b\<lparr>ibOpen := (level, title, kids @ [n]) # rest\<rparr>)"

function closeTo :: "int \<Rightarrow> IndexBuilder \<Rightarrow> IndexBuilder" where
  "closeTo level b =
     (case ibOpen b of
        [] \<Rightarrow> b
      | (l, title, kids) # rest \<Rightarrow>
          if level \<le> l then closeTo level (addNode (Node title [] kids) (b\<lparr>ibOpen := rest\<rparr>)) else b)"
  by pat_completeness auto
termination
  by (relation "measure (\<lambda>(level, b). length (ibOpen b))") (auto split: list.splits)

declare closeTo.simps [simp del]

definition openSection :: "int \<Rightarrow> gostring \<Rightarrow> IndexBuilder \<Rightarrow> IndexBuilder" where
  "openSection level title b = (let b = closeTo level b in b\<lparr>ibOpen := (level, title, []) # ibOpen b\<rparr>)"

definition addLink :: "WebEnv \<Rightarrow> gostring \<Rightarrow> PageElement \<Rightarrow> IndexBuilder \<Rightarrow> IndexBuilder" where
  "addLink E base a b =
     (case peHref a of
        None \<Rightarrow> b
      | Some href \<Rightarrow>
          (case absolute E base href of
             None \<Rightarrow> b
           | Some u \<Rightarrow>
               if \<not> sameHost E u base \<or> u \<in> set (ibSeen b) then b
               else addNode (Node (case peInner a of Some h \<Rightarrow> h | None \<Rightarrow> peText a) u []) (b\<lparr>ibSeen := ibSeen b @ [u]\<rparr>)))"

definition visitElement :: "WebEnv \<Rightarrow> gostring \<Rightarrow> IndexBuilder \<Rightarrow> PageElement \<Rightarrow> IndexBuilder" where
  "visitElement E base b el =
     (if peLink el then addLink E base el b
      else if peInLink el then b
      else openSection (peLevel el) (peText el) b)"

definition indexPageTree :: "WebEnv \<Rightarrow> gostring \<Rightarrow> SeedPage \<Rightarrow> node list" where
  "indexPageTree E base page =
     ibRoots (closeTo 0 (foldl (visitElement E base) \<lparr>ibSeen = [], ibRoots = [], ibOpen = []\<rparr> (sdElements page)))"

subsection \<open>Choosing and placing\<close>

definition coveredShare :: "Placement list \<Rightarrow> gostring list \<Rightarrow> rat" where
  "coveredShare placements coverage =
     (if length coverage = 0 then 0
      else rnd (of_nat (length (filter (\<lambda>u. u \<in> set (map plURL placements)) coverage)) / of_nat (length coverage)))"

record candidate =
  caPlacements :: "Placement list"
  caShare :: rat
  caName :: StructureSource

definition tryTree :: "WebEnv \<Rightarrow> gostring list \<Rightarrow> candidate \<times> gostring list \<Rightarrow> node list \<times> StructureSource \<Rightarrow> candidate \<times> gostring list" where
  "tryTree E coverage = (\<lambda>(best, notes) (nodes, name).
     if nodes = [] then (best, notes)
     else
       let placements = flatten E nodes []; share = coveredShare placements coverage;
           notes = notes @ [StructureSource_String name @ lit '' places '' @ percent share @ lit '' of the page set'']
       in (if caShare best < share then \<lparr>caPlacements = placements, caShare = share, caName = name\<rparr> else best, notes))"

definition bestCandidate :: "WebEnv \<Rightarrow> SeedPage option \<Rightarrow> gostring \<Rightarrow> gostring list \<Rightarrow> candidate \<times> gostring list" where
  "bestCandidate E seedPage seed coverage =
     (let best = \<lparr>caPlacements = [], caShare = 0, caName = SourceURLPath\<rparr>
      in case seedPage of
           None \<Rightarrow> (best, [])
         | Some page \<Rightarrow> foldl (tryTree E coverage) (best, [])
             [(sidebarTree E seed page, SourceSidebarDOM), (indexPageTree E seed page, SourceIndexPage)])"

definition place :: "WebEnv \<Rightarrow> candidate \<Rightarrow> gostring list \<Rightarrow> gostring \<Rightarrow> gostring list \<Rightarrow> Hierarchy" where
  "place E best coverage seed notes =
     (let kept = filter (\<lambda>p. plURL p \<in> set coverage) (caPlacements best);
          missing = filter (\<lambda>u. u \<notin> set (map plURL kept)) coverage
      in if missing \<noteq> []
         then \<lparr>hiPlacements = kept @ flatten E (urlPathTree E missing seed) (show_nat (length kept + 1)),
                hiPlacedByPath = missing,
                hiNotes = notes @ [show_nat (length missing) @ lit '' page(s) absent from '' @
                  StructureSource_String (caName best) @ lit '', placed by URL path''],
                hiSource = caName best, hiInferred = False\<rparr>
         else \<lparr>hiPlacements = kept, hiPlacedByPath = [], hiNotes = notes, hiSource = caName best, hiInferred = False\<rparr>)"

definition Derive :: "WebEnv \<Rightarrow> gostring list \<Rightarrow> gostring \<Rightarrow> SeedPage option \<Rightarrow> Hierarchy" where
  "Derive E coverage seed seedPage =
     (let h = \<lparr>hiPlacements = [], hiPlacedByPath = [], hiNotes = [], hiSource = SourceURLPath, hiInferred = True\<rparr>
      in if length coverage = 0 then h
         else
           let (best, notes) = bestCandidate E seedPage seed coverage
           in if caShare best < minCoverage then
                h\<lparr>hiNotes := notes @ (if 0 < caShare best then
                     [StructureSource_String (caName best) @ lit '' places only '' @ percent (caShare best) @
                      lit '' of the page set; falling back to URL path depth''] else []),
                  hiPlacements := flatten E (urlPathTree E coverage seed) [],
                  hiPlacedByPath := coverage\<rparr>
              else place E best coverage seed notes)"

end
