(* ===== verification/Discover.thy ===== *)
theory Discover
  imports Nav
begin

text \<open>
  \<^verbatim>\<open>internal/site/discover\<close>: which pages a site consists of.  A fetcher is the pair of operations the code
  asks of one, over a state of its own.  What goquery and the XML decoder read from a body is the record
  \<open>PageReader\<close>: a page's links and visible text, a sitemap's tokens, the matches of the llms.txt pattern.
\<close>

record 's SiteFetcher =
  sfFetch :: "gostring \<Rightarrow> bool \<Rightarrow> 's \<Rightarrow> (goerror + Fetched) \<times> 's"
  sfRobots :: "gostring \<Rightarrow> 's \<Rightarrow> (goerror + byte list) \<times> 's"
  sfReserve :: "int \<Rightarrow> 's \<Rightarrow> 's"

datatype xmlToken = StartElement gostring | EndElement | CharData gostring

record PageReader =
  prHrefs :: "byte list \<Rightarrow> goerror + gostring list"  \<comment> \<open>the href of every link, scripts and styles removed\<close>
  prLinks :: "byte list \<Rightarrow> goerror + (gostring \<times> gostring) list"  \<comment> \<open>rel and href of every link element\<close>
  prText :: "byte list \<Rightarrow> goerror + gostring"  \<comment> \<open>visible text of the body, scripts and styles removed\<close>
  prTokens :: "byte list \<Rightarrow> xmlToken list"
  prLLMs :: "gostring \<Rightarrow> (gostring \<times> gostring) list"  \<comment> \<open>title and URL of every list item that is a link\<close>
  prSeed :: "byte list \<Rightarrow> SeedPage"

definition maxSitemapDepth :: nat where "maxSitemapDepth = 3"
definition resemblance :: rat where "resemblance = rnd (9 / 10)"
definition probeAgreement :: rat where "probeAgreement = rnd (7 / 10)"
definition minSignatureTokens :: nat where "minSignatureTokens = 8"
definition probePaths :: "gostring list" where
  "probePaths = [lit ''zqxvj7-nonexistent'', lit ''kwmbp3-missingpage'']"

record Coverage =
  cvTitles :: "gostring \<Rightarrow> gostring option"
  cvURLs :: "gostring list"
  cvFromSitemap :: "gostring list"
  cvFromIndex :: "gostring list"
  cvFromLLMsTxt :: "gostring list"
  cvNotes :: "gostring list"

definition Sources :: "Coverage \<Rightarrow> gostring list" where
  "Sources c =
     (if 0 < length (cvFromSitemap c) then [lit ''sitemap''] else []) @
     (if 0 < length (cvFromIndex c) then [lit ''index_page''] else []) @
     (if 0 < length (cvFromLLMsTxt c) then [lit ''llms_txt''] else [])"

definition addNote :: "gostring \<Rightarrow> Coverage \<Rightarrow> Coverage" where
  "addNote n c = c\<lparr>cvNotes := cvNotes c @ [n]\<rparr>"

subsection \<open>Scope and links\<close>

definition InPrefixScope :: "WebEnv \<Rightarrow> gostring \<Rightarrow> gostring \<Rightarrow> bool" where
  "InPrefixScope E raw seed =
     (case weParse E raw of
        None \<Rightarrow> False
      | Some u \<Rightarrow>
          (case weParse E seed of
             None \<Rightarrow> False
           | Some s \<Rightarrow>
               if \<not> weEqualFold E (uHostname u) (uHostname s) then False
               else
                 let base = (if \<not> has_suffix (uPath s) [47] then uPath s @ [47] else uPath s)
                 in uPath u = uPath s \<or> has_prefix (uPath u) base))"

definition linkOf :: "WebEnv \<Rightarrow> gostring \<Rightarrow> gostring \<Rightarrow> gostring option" where
  "linkOf E base href =
     (if \<not> isPageLink href then None
      else case weResolve E base href of
        None \<Rightarrow> None
      | Some next \<Rightarrow>
          (case Normalize (weUnicode E) (weParse E) next of
             Inl _ \<Rightarrow> None
           | Inr u \<Rightarrow> if sameHost E u base then Some u else None))"

fun addLinks :: "(gostring \<Rightarrow> gostring option) \<Rightarrow> gostring list \<Rightarrow> gostring list \<Rightarrow> gostring list" where
  "addLinks f [] out = out"
| "addLinks f (href # hrefs) out =
     (case f href of
        None \<Rightarrow> addLinks f hrefs out
      | Some u \<Rightarrow> addLinks f hrefs (if u \<in> set out then out else out @ [u]))"

definition IndexPageCandidates :: "WebEnv \<Rightarrow> PageReader \<Rightarrow> byte list \<Rightarrow> gostring \<Rightarrow> goerror + gostring list" where
  "IndexPageCandidates E P body base =
     (case prHrefs P body of
        Inl e \<Rightarrow> Inl (Errorf (lit ''parse '' @ base) e)
      | Inr hrefs \<Rightarrow>
          (case weParse E base of
             None \<Rightarrow> Inl (Errorf (lit ''parse '' @ base) (ErrorNew (lit ''parse'')))
           | Some _ \<Rightarrow> Inr (addLinks (\<lambda>href. linkOf E base (TrimSpace href)) hrefs [])))"

subsection \<open>llms.txt\<close>

text \<open>\<^verbatim>\<open>strings.Cut(raw, "?")\<close>.\<close>

definition cutQuery :: "gostring \<Rightarrow> gostring \<times> gostring option" where
  "cutQuery raw =
     (let head = takeWhile (\<lambda>r. r \<noteq> 63) raw
      in (head, if 63 \<in> set raw then Some (drop (length head + 1) raw) else None))"

definition pageOfTwin :: "gostring \<Rightarrow> gostring option" where
  "pageOfTwin raw =
     (let (head, query) = cutQuery raw
      in if \<not> has_suffix head (lit ''.md'') then None
         else
           let head = trim_suffix head (lit ''.md'');
               head = (if has_suffix head (lit ''/index.html'') then trim_suffix head (lit ''index.html'') else head)
           in Some (case query of None \<Rightarrow> head | Some q \<Rightarrow> head @ [63] @ q))"

definition isManifest :: "gostring \<Rightarrow> bool" where
  "isManifest raw =
     (let head = fst (cutQuery raw);
          name = (case last_index head [47] of None \<Rightarrow> head | Some i \<Rightarrow> drop (i + 1) head)
      in name = lit ''llms.txt'' \<or> name = lit ''llms-full.txt'')"

definition addLLMsEntry :: "WebEnv \<Rightarrow> gostring \<Rightarrow> gostring \<times> gostring \<Rightarrow> Coverage \<Rightarrow> Coverage \<times> bool" where
  "addLLMsEntry E seed = (\<lambda>(title, url) c.
     case Normalize (weUnicode E) (weParse E) url of
       Inl _ \<Rightarrow> (c, False)
     | Inr u \<Rightarrow>
         if isManifest u then (c, False)
         else
           let page = pageOfTwin u; u = (case page of None \<Rightarrow> u | Some v \<Rightarrow> v)
           in if \<not> InPrefixScope E u seed \<or> u \<in> set (cvFromLLMsTxt c) then (c, False)
              else
                (c\<lparr>cvFromLLMsTxt := cvFromLLMsTxt c @ [u],
                   cvTitles := (if cvTitles c u = None \<and> title \<noteq> [] then (cvTitles c)(u \<mapsto> title) else cvTitles c)\<rparr>,
                 page \<noteq> None))"

fun addLLMsEntries :: "WebEnv \<Rightarrow> gostring \<Rightarrow> (gostring \<times> gostring) list \<Rightarrow> Coverage \<times> nat \<Rightarrow> Coverage \<times> nat" where
  "addLLMsEntries E seed [] cn = cn"
| "addLLMsEntries E seed (p # ps) (c, twins) =
     (let (c, twin) = addLLMsEntry E seed p c in addLLMsEntries E seed ps (c, if twin then twins + 1 else twins))"

text \<open>\<^verbatim>\<open>path.Dir\<close> of a rooted path: what comes before the last slash, cleaned.\<close>

definition cleanSegment :: "gostring list \<Rightarrow> gostring \<Rightarrow> gostring list" where
  "cleanSegment out seg =
     (if seg = [] \<or> seg = lit ''.'' then out else if seg = lit ''..'' then butlast out else out @ [seg])"

definition pathDir :: "gostring \<Rightarrow> gostring" where
  "pathDir dir =
     (let before = (case last_index dir [47] of None \<Rightarrow> [] | Some i \<Rightarrow> take (i + 1) dir)
      in [47] @ join [47] (foldl cleanSegment [] (split [47] before)))"

definition weight :: "gostring list \<Rightarrow> nat" where
  "weight segs = sum_list (map (\<lambda>s. length s + 1) segs)"

lemma join_weight: "segs \<noteq> [] \<Longrightarrow> length (join [47] segs) + 1 = weight segs"
proof (induction segs)
  case (Cons s segs)
  then show ?case by (cases segs) (simp_all add: weight_def)
qed simp

lemma clean_weight: "weight (foldl cleanSegment out segs) \<le> weight out + weight (filter (\<lambda>s. s \<noteq> []) segs)"
proof (induction segs arbitrary: out)
  case (Cons s segs)
  have "weight (butlast out) \<le> weight out"
    by (cases out rule: rev_cases) (simp_all add: weight_def)
  then have "weight (cleanSegment out s) \<le> weight out + (if s = [] then 0 else length s + 1)"
    by (auto simp: cleanSegment_def weight_def)
  then show ?case using Cons[of "cleanSegment out s"] by (auto simp: weight_def split: if_splits)
qed simp

text \<open>The directories above a rooted path get shorter, down to the root.\<close>

lemma pathDir_shorter:
  assumes "has_prefix dir [47]" "dir \<noteq> [47]"
  shows "length (pathDir dir) < length dir \<and> has_prefix (pathDir dir) [47]"
proof -
  obtain rest where dir: "dir = 47 # rest" using assms(1) by (auto simp: has_prefix_iff)
  obtain i where i: "last_index dir [47] = Some i"
    by (cases "last_index rest [47]") (simp_all add: dir has_prefix_def)
  have "has_prefix (drop i dir) [47] \<and> i < length dir" using i
  proof (induction dir arbitrary: i)
    case (Cons c s)
    then show ?case by (auto split: option.splits if_splits simp: has_prefix_def)
  qed simp
  then have il: "i < length dir" "dir ! i = 47" by (auto simp: has_prefix_def hd_drop_conv_nth take_Suc)
  let ?b = "take (i + 1) dir"
  have b: "?b = take i dir @ [47]" using il by (simp add: take_Suc_conv_app_nth)
  let ?parts = "split [47] ?b"
  have lp: "length ?b + 1 = weight ?parts" using join_weight[of ?parts] by (simp add: join_split)
  have parts: "?parts = split [47] (take i dir) @ [[]]" unfolding b by (rule split_last) simp
  have first: "i > 0 \<Longrightarrow> hd (split [47] (take i dir)) = []"
    by (cases i) (auto simp: dir split_def split_from_step)
  have "weight (filter (\<lambda>s. s \<noteq> []) ?parts) + (if i = 0 then 1 else 2) \<le> weight ?parts"
  proof (cases "i = 0")
    case True
    then have "?parts = [[], []]" unfolding parts by (simp add: split_def split_from_step)
    then show ?thesis using True by (simp add: weight_def)
  next
    case False
    then obtain more where "split [47] (take i dir) = [] # more" using first by (metis list.collapse split_nonempty neq0_conv)
    moreover have "weight (filter (\<lambda>s. s \<noteq> []) more) \<le> weight more" by (induction more) (simp_all add: weight_def)
    ultimately show ?thesis using False unfolding parts by (simp add: weight_def)
  qed
  then have w: "weight (foldl cleanSegment [] ?parts) + (if i = 0 then 1 else 2) \<le> length ?b + 1"
    using clean_weight[of "[]" ?parts] lp by (simp add: weight_def)
  have r: "pathDir dir = 47 # join [47] (foldl cleanSegment [] ?parts)" by (simp add: pathDir_def i)
  have "length (pathDir dir) < length dir"
  proof (cases "foldl cleanSegment [] ?parts = []")
    case True
    then show ?thesis using assms(2) unfolding r True by (cases rest) (simp_all add: dir)
  next
    case False
    from join_weight[OF this] w have "length (pathDir dir) < length ?b + 1 \<and> (i > 0 \<longrightarrow> length (pathDir dir) < length ?b)"
      unfolding r by (auto split: if_splits)
    moreover have "i = 0 \<Longrightarrow> length ?b < length dir" using assms(2) il by (cases rest) (simp_all add: dir)
    ultimately show ?thesis using il by (cases "i = 0") auto
  qed
  then show ?thesis by (simp add: r has_prefix_def)
qed

text \<open>A URL with a host has an empty path or one that begins with a slash, so the loop ends at the root.\<close>

function manifestLoop :: "gostring \<Rightarrow> gostring \<Rightarrow> gostring list" where
  "manifestLoop origin dir =
     (if dir = [] \<or> dir = [47] \<or> \<not> has_prefix dir [47] then []
      else (origin @ dir @ [47]) # manifestLoop origin (pathDir dir))"
  by pat_completeness auto
termination
  by (relation "measure (\<lambda>(origin, dir). length dir)") (use pathDir_shorter in auto)

declare manifestLoop.simps [simp del]

definition manifestDirs :: "WebEnv \<Rightarrow> gostring \<Rightarrow> gostring list" where
  "manifestDirs E seed =
     (case weParse E seed of
        None \<Rightarrow> []
      | Some u \<Rightarrow>
          let origin = uScheme u @ lit ''://'' @ uHost u
          in manifestLoop origin (trim_suffix (uEscapedPath u) [47]) @ [origin @ [47]])"

definition originOf :: "WebEnv \<Rightarrow> gostring \<Rightarrow> gostring" where
  "originOf E raw = (case weParse E raw of None \<Rightarrow> [] | Some u \<Rightarrow> uScheme u @ lit ''://'' @ uHost u)"

definition readLLMsTxt :: "PageReader \<Rightarrow> 's SiteFetcher \<Rightarrow> gostring \<Rightarrow> bool \<Rightarrow> 's \<Rightarrow> (goerror + (gostring \<times> gostring) list) \<times> 's" where
  "readLLMsTxt P F target revalidate s =
     (case sfFetch F target revalidate s of
        (Inl e, s) \<Rightarrow> (Inl e, s)
      | (Inr res, s) \<Rightarrow>
          if ftStatus res \<noteq> 200 then (Inr [], s)
          else (Inr (map (\<lambda>(title, url). (Strip title, url)) (prLLMs P (ReadText (ftBody res)))), s))"

fun llmsTxtFrom ::
  "PageReader \<Rightarrow> 's SiteFetcher \<Rightarrow> bool \<Rightarrow> gostring list \<Rightarrow> (gostring \<times> gostring) list \<Rightarrow> gostring list \<Rightarrow> gostring list \<Rightarrow> 's \<Rightarrow>
     ((gostring \<times> gostring) list \<times> gostring list \<times> gostring list) \<times> 's" where
  "llmsTxtFrom P F revalidate [] out notes read s = ((out, notes, read), s)"
| "llmsTxtFrom P F revalidate (dir # dirs) out notes read s =
     (let target = dir @ lit ''llms.txt''
      in case readLLMsTxt P F target revalidate s of
           (Inl e, s) \<Rightarrow> llmsTxtFrom P F revalidate dirs out (notes @ [lit ''llms.txt '' @ target @ lit '': '' @ errorText e]) read s
         | (Inr entries, s) \<Rightarrow>
             if 0 < length entries then llmsTxtFrom P F revalidate dirs (out @ entries) notes (read @ [target]) s
             else llmsTxtFrom P F revalidate dirs out notes read s)"

definition llmsTxtCandidates ::
  "WebEnv \<Rightarrow> PageReader \<Rightarrow> 's SiteFetcher \<Rightarrow> gostring \<Rightarrow> bool \<Rightarrow> 's \<Rightarrow> ((gostring \<times> gostring) list \<times> gostring list) \<times> 's" where
  "llmsTxtCandidates E P F seed revalidate s =
     (let ((out, notes, read), s) = llmsTxtFrom P F revalidate (manifestDirs E seed) [] [] [] s
      in ((out, if 1 < length read then notes @ [lit ''llms.txt read at '' @ join (lit '', '') read] else notes), s))"

definition addLLMsTxt ::
  "WebEnv \<Rightarrow> PageReader \<Rightarrow> 's SiteFetcher \<Rightarrow> gostring \<Rightarrow> bool \<Rightarrow> Coverage \<Rightarrow> 's \<Rightarrow> Coverage \<times> 's" where
  "addLLMsTxt E P F seed revalidate c s =
     (let ((pairs, notes), s) = llmsTxtCandidates E P F seed revalidate s;
          (c, twins) = addLLMsEntries E seed pairs (c\<lparr>cvNotes := cvNotes c @ notes\<rparr>, 0)
      in (if 0 < twins then addNote (lit ''llms.txt lists '' @ show_nat twins @
            lit '' Markdown twin(s); each is crawled as the HTML page it mirrors'') c else c, s))"

subsection \<open>Sitemaps\<close>

record sitemapRef =
  smURL :: gostring
  smDepth :: nat
  smOptional :: bool

record locReader =
  lrPages :: "gostring list"
  lrNested :: "gostring list"
  lrIsIndex :: bool
  lrSawRoot :: bool
  lrInLoc :: bool

definition addLoc :: "gostring \<Rightarrow> locReader \<Rightarrow> locReader" where
  "addLoc loc r =
     (if \<not> lrInLoc r \<or> loc = [] then r
      else if lrIsIndex r then r\<lparr>lrNested := lrNested r @ [loc]\<rparr>
      else r\<lparr>lrPages := lrPages r @ [loc]\<rparr>)"

definition readToken :: "locReader \<Rightarrow> xmlToken \<Rightarrow> locReader" where
  "readToken r token =
     (case token of
        StartElement name \<Rightarrow>
          (let r = (if \<not> lrSawRoot r then r\<lparr>lrIsIndex := (name = lit ''sitemapindex''), lrSawRoot := True\<rparr> else r)
           in r\<lparr>lrInLoc := (name = lit ''loc'')\<rparr>)
      | EndElement \<Rightarrow> r\<lparr>lrInLoc := False\<rparr>
      | CharData t \<Rightarrow> addLoc (TrimSpace t) r)"

definition sitemapLocs :: "PageReader \<Rightarrow> byte list \<Rightarrow> gostring list \<times> gostring list" where
  "sitemapLocs P body =
     (let r = foldl readToken \<lparr>lrPages = [], lrNested = [], lrIsIndex = False, lrSawRoot = False, lrInLoc = False\<rparr> (prTokens P body)
      in (lrPages r, lrNested r))"

definition readSitemap ::
  "PageReader \<Rightarrow> 's SiteFetcher \<Rightarrow> sitemapRef \<Rightarrow> bool \<Rightarrow> 's \<Rightarrow> (gostring list \<times> sitemapRef list \<times> gostring) \<times> 's" where
  "readSitemap P F ref revalidate s =
     (case sfFetch F (smURL ref) revalidate s of
        (Inl e, s) \<Rightarrow> (([], [], lit ''sitemap '' @ smURL ref @ lit '': '' @ errorText e), s)
      | (Inr res, s) \<Rightarrow>
          if ftStatus res \<noteq> 200 then
            (([], [], if smOptional ref then [] else lit ''sitemap '' @ smURL ref @ lit '': HTTP '' @ show_int (ftStatus res)), s)
          else
            let (pages, nested) = sitemapLocs P (ftBody res)
            in ((pages, map (\<lambda>n. \<lparr>smURL = n, smDepth = smDepth ref + 1, smOptional = False\<rparr>) nested, []), s))"

definition robotsSitemap :: "WebEnv \<Rightarrow> gostring \<Rightarrow> gostring option" where
  "robotsSitemap E line =
     (let name = takeWhile (\<lambda>r. r \<noteq> 58) line
      in if 58 \<notin> set line \<or> \<not> weEqualFold E (Strip name) (lit ''sitemap'') then None
         else let v = Strip (drop (length name + 1) line) in if v = [] then None else Some v)"

definition sitemapsFromRobots :: "WebEnv \<Rightarrow> 's SiteFetcher \<Rightarrow> gostring \<Rightarrow> 's \<Rightarrow> (goerror + gostring list) \<times> 's" where
  "sitemapsFromRobots E F origin s =
     (case sfRobots F (origin @ [47]) s of
        (Inl e, s) \<Rightarrow> (Inl e, s)
      | (Inr body, s) \<Rightarrow> (Inr (List.map_filter (robotsSitemap E) (SplitLines (stringRunes body))), s))"

definition sitemapRoots ::
  "WebEnv \<Rightarrow> 's SiteFetcher \<Rightarrow> gostring \<Rightarrow> 's \<Rightarrow> (goerror + sitemapRef list \<times> gostring list) \<times> 's" where
  "sitemapRoots E F seed s =
     (let origin = originOf E seed
      in case sitemapsFromRobots E F origin s of
           (Inl e, s) \<Rightarrow> (Inl e, s)
         | (Inr declared, s) \<Rightarrow>
             let refs = map (\<lambda>dir. \<lparr>smURL = dir @ lit ''sitemap.xml'', smDepth = 0, smOptional = True\<rparr>)
                          (filter (\<lambda>dir. dir \<noteq> origin @ [47]) (manifestDirs E seed))
             in if length declared = 0
                then (Inr (refs @ [\<lparr>smURL = origin @ lit ''/sitemap.xml'', smDepth = 0, smOptional = False\<rparr>], []), s)
                else (Inr (refs @ map (\<lambda>d. \<lparr>smURL = d, smDepth = 0, smOptional = False\<rparr>) declared,
                        [lit ''robots.txt names '' @ show_nat (length declared) @ lit '' sitemap(s)'']), s))"

lemma readSitemap_deeper: "readSitemap P F ref revalidate s = ((found, nested, note'), s') \<Longrightarrow> r \<in> set nested \<Longrightarrow> smDepth r = smDepth ref + 1"
  by (auto simp: readSitemap_def Let_def split: prod.splits sum.splits if_splits)

text \<open>The queue of sitemaps: each one read puts deeper ones in its place, and none below the bound is read.\<close>

function sitemapLoop ::
  "PageReader \<Rightarrow> 's SiteFetcher \<Rightarrow> bool \<Rightarrow> sitemapRef list \<Rightarrow> gostring list \<Rightarrow> gostring list \<Rightarrow> gostring list \<Rightarrow> 's \<Rightarrow>
     (gostring list \<times> gostring list) \<times> 's" where
  "sitemapLoop P F revalidate [] seen locs notes s = ((locs, notes), s)"
| "sitemapLoop P F revalidate (ref # queue) seen locs notes s =
     (if smURL ref \<in> set seen \<or> maxSitemapDepth < smDepth ref then sitemapLoop P F revalidate queue seen locs notes s
      else
        case readSitemap P F ref revalidate s of
          ((found, nested, note'), s) \<Rightarrow>
            sitemapLoop P F revalidate (queue @ nested) (seen @ [smURL ref]) (locs @ found)
              (if note' \<noteq> [] then notes @ [note'] else notes) s)"
  by pat_completeness auto
termination
proof (relation "inv_image (mult less_than) (\<lambda>(P, F, rv, queue, seen, locs, notes, s).
    image_mset (\<lambda>r. 5 - smDepth r) (mset queue))", goal_cases)
  case 1
  show ?case by (intro wf_inv_image wf_mult wf_less_than)
next
  case (2 P F revalidate ref queue seen locs ns s)
  have "(image_mset (\<lambda>r. 5 - smDepth r) (mset queue) + {#}, image_mset (\<lambda>r. 5 - smDepth r) (mset queue) + {#5 - smDepth ref#})
      \<in> mult less_than" by (rule one_step_implies_mult) auto
  then show ?case by simp
next
  case (3 P F revalidate ref queue seen locs ns s x s' found y nested note')
  then have "readSitemap P F ref revalidate s = ((found, nested, note'), s')" by simp
  from readSitemap_deeper[OF this] have d: "\<forall>r\<in>set nested. smDepth r = smDepth ref + 1" by auto
  have "smDepth ref \<le> 3" using 3 by (simp add: maxSitemapDepth_def)
  note d = d this
  have "(image_mset (\<lambda>r. 5 - smDepth r) (mset queue) + image_mset (\<lambda>r. 5 - smDepth r) (mset nested),
      image_mset (\<lambda>r. 5 - smDepth r) (mset queue) + {#5 - smDepth ref#}) \<in> mult less_than"
    by (rule one_step_implies_mult) (use d in auto)
  then show ?case by simp
qed

definition sitemapCandidates ::
  "WebEnv \<Rightarrow> PageReader \<Rightarrow> 's SiteFetcher \<Rightarrow> gostring \<Rightarrow> bool \<Rightarrow> 's \<Rightarrow> (goerror + gostring list \<times> gostring list) \<times> 's" where
  "sitemapCandidates E P F seed revalidate s =
     (case sitemapRoots E F seed s of
        (Inl e, s) \<Rightarrow> (Inl e, s)
      | (Inr (queue, notes), s) \<Rightarrow>
          let (r, s) = sitemapLoop P F revalidate queue [] [] notes s in (Inr r, s))"

subsection \<open>The page set\<close>

fun scopedFrom :: "WebEnv \<Rightarrow> gostring \<Rightarrow> gostring list \<Rightarrow> gostring list \<Rightarrow> gostring list" where
  "scopedFrom E seed [] out = out"
| "scopedFrom E seed (raw # urls) out =
     (case Normalize (weUnicode E) (weParse E) raw of
        Inl _ \<Rightarrow> scopedFrom E seed urls out
      | Inr u \<Rightarrow> scopedFrom E seed urls (if u \<in> set out \<or> \<not> InPrefixScope E u seed then out else out @ [u]))"

definition scopedAndSorted :: "WebEnv \<Rightarrow> gostring list \<Rightarrow> gostring \<Rightarrow> gostring list" where
  "scopedAndSorted E urls seed = sort_texts (scopedFrom E seed urls [])"

definition addIndexPage ::
  "WebEnv \<Rightarrow> PageReader \<Rightarrow> 's SiteFetcher \<Rightarrow> gostring \<Rightarrow> Fetched option \<Rightarrow> bool \<Rightarrow> Coverage \<Rightarrow> 's \<Rightarrow> (goerror + Coverage) \<times> 's" where
  "addIndexPage E P F seed seedPage revalidate c s =
     (case (case seedPage of Some p \<Rightarrow> (Inr p, s) | None \<Rightarrow> sfFetch F seed revalidate s) of
        (Inl e, s) \<Rightarrow> (Inr (addNote (lit ''seed page: '' @ errorText e) c), s)
      | (Inr page, s) \<Rightarrow>
          if ftStatus page \<noteq> 200 then (Inr c, s)
          else case IndexPageCandidates E P (ftBody page) seed of
                 Inl e \<Rightarrow> (Inl e, s)
               | Inr links \<Rightarrow> (Inr (c\<lparr>cvFromIndex := links\<rparr>), s))"

definition scopeIndex :: "WebEnv \<Rightarrow> gostring \<Rightarrow> Coverage \<Rightarrow> Coverage" where
  "scopeIndex E seed c =
     (if length (cvFromSitemap c) = 0 \<and> length (cvFromLLMsTxt c) = 0 then c
      else
        let kept = filter (\<lambda>u. InPrefixScope E u seed) (cvFromIndex c);
            dropped = length (cvFromIndex c) - length kept;
            c = c\<lparr>cvFromIndex := kept\<rparr>
        in if 0 < dropped
           then addNote (show_nat dropped @ lit '' seed page link(s) outside the seed's path left out: a manifest declares the pages under it'') c
           else c)"

definition declared :: "Coverage \<Rightarrow> gostring set" where
  "declared c = set (cvFromIndex c) \<union> set (cvFromSitemap c) \<union> set (cvFromLLMsTxt c)"

definition dropIndexNonPages :: "Coverage \<Rightarrow> Coverage" where
  "dropIndexNonPages c =
     c\<lparr>cvFromIndex := filter (\<lambda>u. \<not> (isManifest u \<or>
        (case pageOfTwin u of None \<Rightarrow> False | Some page \<Rightarrow> page \<in> declared c))) (cvFromIndex c)\<rparr>"

fun addNew :: "gostring list \<Rightarrow> gostring list \<Rightarrow> gostring list" where
  "addNew out [] = out"
| "addNew out (u # us) = addNew (if u \<in> set out then out else out @ [u]) us"

definition unionSources :: "Coverage \<Rightarrow> Coverage" where
  "unionSources c = c\<lparr>cvURLs := addNew [] (cvFromIndex c @ cvFromSitemap c @ cvFromLLMsTxt c)\<rparr>"

definition countMissing :: "gostring list \<Rightarrow> gostring list \<Rightarrow> nat" where
  "countMissing urls have' = length (filter (\<lambda>u. u \<notin> set have') urls)"

definition compareSources :: "Coverage \<Rightarrow> Coverage" where
  "compareSources c =
     (let n = countMissing (cvFromLLMsTxt c) (cvFromSitemap c);
          c = (if 0 < length (cvFromSitemap c) \<and> 0 < n
               then addNote (show_nat n @ lit '' llms.txt URL(s) absent from the sitemap'') c else c);
          m = countMissing (cvFromSitemap c) (cvFromLLMsTxt c)
      in if 0 < length (cvFromLLMsTxt c) \<and> 0 < m
         then addNote (lit ''llms.txt omits '' @ show_nat m @
                lit '' page(s) the sitemap declares; it is not authoritative for coverage'') c else c)"

definition Discover ::
  "WebEnv \<Rightarrow> PageReader \<Rightarrow> 's SiteFetcher \<Rightarrow> gostring \<Rightarrow> Fetched option \<Rightarrow> bool \<Rightarrow> 's \<Rightarrow> (goerror + Coverage) \<times> 's" where
  "Discover E P F seed seedPage revalidate s =
     (case Normalize (weUnicode E) (weParse E) seed of
        Inl e \<Rightarrow> (Inl e, s)
      | Inr seed \<Rightarrow>
          (case sitemapCandidates E P F seed revalidate s of
             (Inl e, s) \<Rightarrow> (Inl e, s)
           | (Inr (sitemap, notes), s) \<Rightarrow>
               let scoped = scopedAndSorted E sitemap seed;
                   c = \<lparr>cvTitles = Map.empty, cvURLs = [], cvFromSitemap = scoped, cvFromIndex = [], cvFromLLMsTxt = [], cvNotes = notes\<rparr>;
                   c = (if 0 < length sitemap then addNote (lit ''sitemap declares '' @ show_nat (length sitemap) @ lit '' URL(s), '' @
                          show_nat (length scoped) @ lit '' under the seed'') c else c)
               in case addIndexPage E P F seed seedPage revalidate c s of
                    (Inl e, s) \<Rightarrow> (Inl e, s)
                  | (Inr c, s) \<Rightarrow>
                      let (c, s) = addLLMsTxt E P F seed revalidate c s
                      in (Inr (compareSources (unionSources (dropIndexNonPages (scopeIndex E seed c)))), s)))"

subsection \<open>absent.go\<close>

text \<open>The words of a text, counted: the template of a not-found page.\<close>

record Signature =
  sgCounts :: "gostring \<Rightarrow> nat"
  sgWords :: "gostring list"
  sgTotal :: nat

definition wordRune :: "unicode \<Rightarrow> rune \<Rightarrow> bool" where
  "wordRune U r = (uLetter U r \<or> uNd U r \<or> uNlNo U r)"

definition tokenCounts :: "unicode \<Rightarrow> gostring \<Rightarrow> Signature" where
  "tokenCounts U text =
     (let ws = map (Lower U) (find_runs (wordRune U) text)
      in \<lparr>sgCounts = count_of ws, sgWords = remdups ws, sgTotal = length ws\<rparr>)"

definition intersect :: "Signature \<Rightarrow> Signature \<Rightarrow> Signature" where
  "intersect a b =
     (let shared = filter (\<lambda>w. 0 < min (sgCounts a w) (sgCounts b w)) (sgWords a)
      in \<lparr>sgCounts = (\<lambda>w. if w \<in> set shared then min (sgCounts a w) (sgCounts b w) else 0), sgWords = shared,
          sgTotal = sum_list (map (\<lambda>w. min (sgCounts a w) (sgCounts b w)) shared)\<rparr>)"

definition resembles :: "Signature \<Rightarrow> Signature \<Rightarrow> rat" where
  "resembles a b =
     (if sgTotal a = 0 \<or> sgTotal b = 0 then 0
      else rnd (of_nat (sgTotal (intersect a b)) / of_nat (max (sgTotal a) (sgTotal b))))"

definition covers :: "Signature \<Rightarrow> Signature \<Rightarrow> rat" where
  "covers signature page =
     (if sgTotal signature = 0 \<or> sgTotal page = 0 then 0
      else rnd (of_nat (sgTotal (intersect signature page)) / of_nat (sgTotal signature)))"

definition Found :: "Signature option \<Rightarrow> bool" where
  "Found s = (case s of None \<Rightarrow> False | Some s \<Rightarrow> 0 < sgTotal s)"

definition probe ::
  "WebEnv \<Rightarrow> PageReader \<Rightarrow> 's SiteFetcher \<Rightarrow> gostring \<Rightarrow> bool \<Rightarrow> gostring \<Rightarrow> 's \<Rightarrow> (goerror + Signature option) \<times> 's" where
  "probe E P F origin revalidate name s =
     (case sfFetch F (origin @ lit ''/'' @ name) revalidate s of
        (Inl e, s) \<Rightarrow> (Inr None, s)
      | (Inr res, s) \<Rightarrow>
          if ftStatus res \<noteq> 200 then (Inr None, s)
          else case prText P (ftBody res) of
                 Inl e \<Rightarrow> (Inl e, s) | Inr text \<Rightarrow> (Inr (Some (tokenCounts (weUnicode E) text)), s))"

definition templateOf :: "Signature \<Rightarrow> Signature \<Rightarrow> Signature option" where
  "templateOf a b =
     (if resembles a b < probeAgreement then None
      else let shared = intersect a b in if sgTotal shared < minSignatureTokens then None else Some shared)"

definition NotFoundSignature ::
  "WebEnv \<Rightarrow> PageReader \<Rightarrow> 's SiteFetcher \<Rightarrow> gostring \<Rightarrow> bool \<Rightarrow> 's \<Rightarrow> (goerror + Signature option) \<times> 's" where
  "NotFoundSignature E P F origin revalidate s =
     (case probe E P F origin revalidate (probePaths ! 0) s of
        (Inl e, s) \<Rightarrow> (Inl e, s)
      | (Inr None, s) \<Rightarrow> (Inr None, s)
      | (Inr (Some a), s) \<Rightarrow>
          (case probe E P F origin revalidate (probePaths ! 1) s of
             (Inl e, s) \<Rightarrow> (Inl e, s)
           | (Inr None, s) \<Rightarrow> (Inr None, s)
           | (Inr (Some b), s) \<Rightarrow> (Inr (templateOf a b), s)))"

definition LooksAbsent :: "WebEnv \<Rightarrow> PageReader \<Rightarrow> byte list \<Rightarrow> Signature option \<Rightarrow> goerror + bool" where
  "LooksAbsent E P body signature =
     (if \<not> Found signature then Inr False
      else case prText P body of
             Inl e \<Rightarrow> Inl e
           | Inr text \<Rightarrow> Inr (resemblance \<le> covers (the signature) (tokenCounts (weUnicode E) text)))"

end
