(* ===== verification/Crawl.thy ===== *)
theory Crawl
  imports Discover
begin

text \<open>
  \<^verbatim>\<open>internal/site/crawl\<close>: visiting a site.  The crawler's state is a record; the fetcher is a \<open>SiteFetcher\<close>
  over a state of its own; \<open>ctx\<close> says whether the context is found cancelled at a step of the walk.
\<close>

definition DefaultMaxPages :: int where "DefaultMaxPages = 500"
definition DefaultLinkDepth :: int where "DefaultLinkDepth = 3"
definition htmlTypes :: "gostring list" where
  "htmlTypes = [lit ''text/html'', lit ''application/xhtml+xml'']"

record Page =
  pgURL :: gostring
  pgFinalURL :: gostring
  pgDeclaredTitle :: gostring
  pgBody :: "byte list"

record Result =
  crCoverage :: Coverage
  crHierarchy :: Hierarchy
  crPages :: "(gostring \<times> Page) list"
  crSeed :: gostring
  crOrder :: "gostring list"
  crUnreachable :: "(gostring \<times> gostring) list"
  crMerges :: "(gostring \<times> gostring) list"
  crNotes :: "gostring list"

definition Declared :: "Result \<Rightarrow> int" where
  "Declared r = int (length (crPages r)) + int (length (crUnreachable r))"

definition UnreachableShare :: "Result \<Rightarrow> rat" where
  "UnreachableShare r =
     (if Declared r = 0 then 0 else rnd (of_nat (length (crUnreachable r)) / of_int (Declared r)))"

datatype CrawlPhase = PhaseDiscover | PhaseFetch

record CrawlOptions =
  coMaxPages :: int
  coLinkDepth :: int
  coRevalidate :: bool

record frontierEntry =
  enURL :: gostring
  enDepth :: int

record crawler =
  cwResult :: Result
  cwSignature :: "Signature option"
  cwKnown :: "gostring list"
  cwQueue :: "frontierEntry list"
  cwFollowed :: bool
  cwReports :: "(CrawlPhase \<times> int \<times> int) list"

text \<open>What a crawl is given: the environment, the readers, the fetcher, the seed and the options.
  The program's own fetcher is the one of \<^verbatim>\<open>internal/site/fetch\<close>.\<close>

definition siteFetcher :: "WebEnv \<Rightarrow> fstate SiteFetcher" where
  "siteFetcher E = \<lparr>sfFetch = Fetch E, sfRobots = Robots E, sfReserve = Reserve\<rparr>"

record 's CrawlJob =
  cjEnv :: WebEnv
  cjReader :: PageReader
  cjFetcher :: "'s SiteFetcher"
  cjSeed :: gostring
  cjOpts :: CrawlOptions
  cjCancelled :: "nat \<Rightarrow> bool"

definition onResult :: "(Result \<Rightarrow> Result) \<Rightarrow> crawler \<Rightarrow> crawler" where
  "onResult f c = c\<lparr>cwResult := f (cwResult c)\<rparr>"

definition crawlNote :: "gostring \<Rightarrow> crawler \<Rightarrow> crawler" where
  "crawlNote n = onResult (\<lambda>r. r\<lparr>crNotes := crNotes r @ [n]\<rparr>)"

definition unreachable :: "gostring \<Rightarrow> gostring \<Rightarrow> crawler \<Rightarrow> crawler" where
  "unreachable raw reason = onResult (\<lambda>r. r\<lparr>crUnreachable := crUnreachable r @ [(raw, reason)]\<rparr>)"

definition report :: "CrawlPhase \<Rightarrow> int \<Rightarrow> int \<Rightarrow> crawler \<Rightarrow> crawler" where
  "report phase current known c = c\<lparr>cwReports := cwReports c @ [(phase, current, known)]\<rparr>"

definition know :: "gostring \<Rightarrow> crawler \<Rightarrow> crawler" where
  "know u c = c\<lparr>cwKnown := (if u \<in> set (cwKnown c) then cwKnown c else cwKnown c @ [u])\<rparr>"

definition hasPage :: "crawler \<Rightarrow> gostring \<Rightarrow> bool" where
  "hasPage c u = (u \<in> set (map fst (crPages (cwResult c))))"

definition putPage :: "gostring \<Rightarrow> Page \<Rightarrow> Result \<Rightarrow> Result" where
  "putPage key page r = r\<lparr>crPages := filter (\<lambda>kp. fst kp \<noteq> key) (crPages r) @ [(key, page)], crOrder := crOrder r @ [key]\<rparr>"

subsection \<open>What a response holds\<close>

definition containsFold :: "WebEnv \<Rightarrow> gostring list \<Rightarrow> gostring \<Rightarrow> bool" where
  "containsFold E list want = list_ex (\<lambda>item. weEqualFold E item want) list"

definition isHTML :: "WebEnv \<Rightarrow> gostring \<Rightarrow> bool" where
  "isHTML E contentType =
     (if contentType = [] then True
      else containsFold E htmlTypes (TrimSpace (takeWhile (\<lambda>r. r \<noteq> 59) contentType)))"

definition canonicalHref :: "WebEnv \<Rightarrow> gostring \<Rightarrow> gostring \<times> gostring \<Rightarrow> gostring option" where
  "canonicalHref E base = (\<lambda>(rel, href).
     if \<not> containsFold E (find_runs (\<lambda>r. \<not> goSpace r) rel) (lit ''canonical'') then None
     else
       let href = TrimSpace href
       in if href = [] then None
          else case weResolve E base href of
            None \<Rightarrow> None
          | Some next \<Rightarrow>
              (case Normalize (weUnicode E) (weParse E) next of Inl _ \<Rightarrow> None | Inr u \<Rightarrow> Some u))"

fun firstCanonical :: "WebEnv \<Rightarrow> gostring \<Rightarrow> (gostring \<times> gostring) list \<Rightarrow> gostring" where
  "firstCanonical E base [] = []"
| "firstCanonical E base (link # links) =
     (case canonicalHref E base link of Some u \<Rightarrow> u | None \<Rightarrow> firstCanonical E base links)"

definition canonicalOf :: "WebEnv \<Rightarrow> PageReader \<Rightarrow> byte list \<Rightarrow> gostring \<Rightarrow> goerror + gostring" where
  "canonicalOf E P body base =
     (case prLinks P body of
        Inl e \<Rightarrow> Inl (Errorf (lit ''parse '' @ base) e)
      | Inr links \<Rightarrow>
          (case weParse E base of
             None \<Rightarrow> Inl (Errorf (lit ''parse '' @ base) (ErrorNew (lit ''parse'')))
           | Some _ \<Rightarrow> Inr (firstCanonical E base links)))"

text \<open>Why a response holds no content, or empty.\<close>

definition refusal :: "'s CrawlJob \<Rightarrow> crawler \<Rightarrow> Fetched \<Rightarrow> goerror + gostring" where
  "refusal J c res =
     (if ftStatus res \<noteq> 200 then Inr (lit ''HTTP '' @ show_int (ftStatus res))
      else if \<not> isHTML (cjEnv J) (ftContentType res) then Inr (lit ''not HTML: '' @ ftContentType res)
      else case LooksAbsent (cjEnv J) (cjReader J) (ftBody res) (cwSignature c) of
             Inl e \<Rightarrow> Inl e
           | Inr absent \<Rightarrow> Inr (if absent then lit ''soft 404: matches the site's not-found template'' else []))"

subsection \<open>Keeping a page\<close>

fun queueEach :: "'s CrawlJob \<Rightarrow> frontierEntry \<Rightarrow> gostring list \<Rightarrow> crawler \<Rightarrow> crawler" where
  "queueEach J entry [] c = c"
| "queueEach J entry (link # links) c =
     (if coMaxPages (cjOpts J) \<le> int (length (cwKnown c)) then c
      else if link \<in> set (cwKnown c) \<or> \<not> InPrefixScope (cjEnv J) link (cjSeed J) then queueEach J entry links c
      else queueEach J entry links
             (c\<lparr>cwKnown := cwKnown c @ [link], cwQueue := cwQueue c @ [\<lparr>enURL = link, enDepth = enDepth entry + 1\<rparr>]\<rparr>))"

definition queueLinks :: "'s CrawlJob \<Rightarrow> byte list \<Rightarrow> frontierEntry \<Rightarrow> crawler \<Rightarrow> goerror + crawler" where
  "queueLinks J body entry c =
     (case IndexPageCandidates (cjEnv J) (cjReader J) body (enURL entry) of
        Inl e \<Rightarrow> Inl e
      | Inr links \<Rightarrow> Inr (queueEach J entry links c))"

text \<open>\<^verbatim>\<open>keep\<close> under the key the page goes by.\<close>

definition keepUnder :: "'s CrawlJob \<Rightarrow> frontierEntry \<Rightarrow> Fetched \<Rightarrow> gostring \<Rightarrow> crawler \<Rightarrow> goerror + crawler" where
  "keepUnder J entry res key c =
     (let title = (case cvTitles (crCoverage (cwResult c)) (enURL entry) of None \<Rightarrow> [] | Some t \<Rightarrow> t);
          c = onResult (putPage key \<lparr>pgURL = key, pgFinalURL = ftFinalURL res, pgDeclaredTitle = title, pgBody = ftBody res\<rparr>) c
      in if \<not> cwFollowed c \<or> coLinkDepth (cjOpts J) \<le> enDepth entry then Inr c
         else queueLinks J (ftBody res) entry c)"

definition mergeInto :: "gostring \<Rightarrow> gostring \<Rightarrow> crawler \<Rightarrow> crawler" where
  "mergeInto u canonical = onResult (\<lambda>r. r\<lparr>crMerges := crMerges r @ [(u, canonical)]\<rparr>)"

definition keep :: "'s CrawlJob \<Rightarrow> frontierEntry \<Rightarrow> Fetched \<Rightarrow> crawler \<Rightarrow> goerror + crawler" where
  "keep J entry res c =
     (case canonicalOf (cjEnv J) (cjReader J) (ftBody res) (enURL entry) of
        Inl e \<Rightarrow> Inl e
      | Inr canonical \<Rightarrow>
          if canonical \<noteq> [] \<and> canonical \<noteq> enURL entry \<and> InPrefixScope (cjEnv J) canonical (cjSeed J) then
            (let c = mergeInto (enURL entry) canonical c
             in if hasPage c canonical then Inr c else keepUnder J entry res canonical (know canonical c))
          else keepUnder J entry res (enURL entry) c)"

definition readPage :: "'s CrawlJob \<Rightarrow> gostring \<Rightarrow> crawler \<times> 's \<Rightarrow> (goerror + Fetched option) \<times> crawler \<times> 's" where
  "readPage J raw = (\<lambda>(c, s).
     case sfFetch (cjFetcher J) raw (coRevalidate (cjOpts J)) s of
       (Inl e, s) \<Rightarrow> (Inr None, unreachable raw (errorText e) c, s)
     | (Inr res, s) \<Rightarrow>
         (case refusal J c res of
            Inl e \<Rightarrow> (Inl e, c, s)
          | Inr reason \<Rightarrow> if reason \<noteq> [] then (Inr None, unreachable raw reason c, s) else (Inr (Some res), c, s)))"

definition visit :: "'s CrawlJob \<Rightarrow> frontierEntry \<Rightarrow> crawler \<times> 's \<Rightarrow> (goerror + unit) \<times> crawler \<times> 's" where
  "visit J entry = (\<lambda>(c, s).
     if hasPage c (enURL entry) then (Inr (), c, s)
     else case readPage J (enURL entry) (c, s) of
       (Inl e, c, s) \<Rightarrow> (Inl e, c, s)
     | (Inr None, c, s) \<Rightarrow> (Inr (), c, s)
     | (Inr (Some res), c, s) \<Rightarrow> (case keep J entry res c of Inl e \<Rightarrow> (Inl e, c, s) | Inr c \<Rightarrow> (Inr (), c, s)))"

subsection \<open>The walk\<close>

text \<open>Links are added only while the crawl knows fewer pages than it may, and each one it adds it then knows,
  so what is left to add and what is queued bound the visits left.\<close>

definition walkLeft :: "'s CrawlJob \<Rightarrow> crawler \<Rightarrow> nat" where
  "walkLeft J c = 2 * nat (coMaxPages (cjOpts J) - int (length (cwKnown c))) + length (cwQueue c)"

lemma queueEach_left: "walkLeft J (queueEach J entry links c) \<le> walkLeft J c"
proof (induction J entry links c rule: queueEach.induct)
  case (2 J entry link links c)
  then show ?case by (cases "coMaxPages (cjOpts J) \<le> int (length (cwKnown c))";
    cases "link \<in> set (cwKnown c) \<or> \<not> InPrefixScope (cjEnv J) link (cjSeed J)") (auto simp: walkLeft_def)
qed simp

lemma onResult_left [simp]: "walkLeft J (onResult f c) = walkLeft J c"
  by (simp add: walkLeft_def onResult_def)

lemma know_left: "walkLeft J (know u c) \<le> walkLeft J c"
proof -
  have "nat (m - (1 + int n)) \<le> nat (m - int n)" for m and n :: nat by simp
  then show ?thesis by (simp add: walkLeft_def know_def)
qed

lemma keepUnder_left: "keepUnder J entry res key c = Inr c' \<Longrightarrow> walkLeft J c' \<le> walkLeft J c"
proof -
  assume k: "keepUnder J entry res key c = Inr c'"
  define c1 where "c1 = onResult (putPage key \<lparr>pgURL = key, pgFinalURL = ftFinalURL res,
      pgDeclaredTitle = (case cvTitles (crCoverage (cwResult c)) (enURL entry) of None \<Rightarrow> [] | Some t \<Rightarrow> t), pgBody = ftBody res\<rparr>) c"
  have l: "walkLeft J c1 = walkLeft J c" by (simp add: c1_def)
  have "c' = c1 \<or> (\<exists>links. c' = queueEach J entry links c1)"
    using k by (auto simp: keepUnder_def c1_def Let_def queueLinks_def split: if_splits sum.splits)
  then show ?thesis
  proof
    assume "\<exists>links. c' = queueEach J entry links c1"
    then obtain links where "c' = queueEach J entry links c1" ..
    then show ?thesis using queueEach_left[of J entry links c1] l by simp
  qed (simp add: l)
qed

text \<open>\<^verbatim>\<open>keep\<close> adds nothing, or keeps the page under the canonical URL, or under its own.\<close>

lemma keep_cases:
  assumes "keep J entry res c = Inr c'"
  obtains (merged) canonical where "canonical \<noteq> enURL entry" "hasPage c canonical" "c' = mergeInto (enURL entry) canonical c"
  | (canonical) canonical where "canonical \<noteq> []" "InPrefixScope (cjEnv J) canonical (cjSeed J)" "\<not> hasPage c canonical"
      "keepUnder J entry res canonical (know canonical (mergeInto (enURL entry) canonical c)) = Inr c'"
  | (own) "keepUnder J entry res (enURL entry) c = Inr c'"
proof -
  obtain u where can: "canonicalOf (cjEnv J) (cjReader J) (ftBody res) (enURL entry) = Inr u"
    using assms by (auto simp: keep_def split: sum.splits)
  have has: "hasPage (mergeInto (enURL entry) u c) u = hasPage c u" by (simp add: hasPage_def mergeInto_def onResult_def)
  show thesis
  proof (cases "u \<noteq> [] \<and> u \<noteq> enURL entry \<and> InPrefixScope (cjEnv J) u (cjSeed J)")
    case True
    then have k: "(if hasPage c u then Inr (mergeInto (enURL entry) u c)
        else keepUnder J entry res u (know u (mergeInto (enURL entry) u c))) = Inr c'"
      using assms by (simp add: keep_def can Let_def has)
    show thesis
    proof (cases "hasPage c u")
      case h: True
      show thesis by (rule merged[of u]) (use k True h in simp_all)
    next
      case h: False
      show thesis by (rule canonical[of u]) (use k True h in simp_all)
    qed
  next
    case False
    show thesis by (rule own) (use assms can False in \<open>simp add: keep_def\<close>)
  qed
qed

lemma keep_left: "keep J entry res c = Inr c' \<Longrightarrow> walkLeft J c' \<le> walkLeft J c"
proof (erule keep_cases)
  fix u assume "keepUnder J entry res u (know u (mergeInto (enURL entry) u c)) = Inr c'"
  from keepUnder_left[OF this] know_left[of J u "mergeInto (enURL entry) u c"]
  show ?thesis by (simp add: mergeInto_def)
qed (auto simp: mergeInto_def dest: keepUnder_left)

lemma readPage_left: "readPage J raw (c, s) = (r, c', s') \<Longrightarrow> walkLeft J c' = walkLeft J c"
  by (auto simp: readPage_def unreachable_def split: prod.splits sum.splits if_splits)

lemma visit_left:
  assumes "visit J entry (c, s) = (r, c', s')"
  shows "walkLeft J c' \<le> walkLeft J c"
proof (cases "hasPage c (enURL entry)")
  case True
  then show ?thesis using assms by (simp add: visit_def)
next
  case False
  obtain p c1 s1 where rd: "readPage J (enURL entry) (c, s) = (p, c1, s1)" by (metis prod.exhaust)
  from readPage_left[OF rd] have l: "walkLeft J c1 = walkLeft J c" .
  consider "c' = c1" | res where "keep J entry res c1 = Inr c'"
    using assms False rd by (auto simp: visit_def split: sum.splits option.splits)
  then show ?thesis
  proof cases
    case (2 res)
    from keep_left[OF this] show ?thesis using l by simp
  qed (simp add: l)
qed

lemma tick_left:
  assumes "cwQueue c = entry # queue" "visit J entry ((report p n m c)\<lparr>cwQueue := queue\<rparr>, s) = (r, c', s')"
  shows "walkLeft J c' < walkLeft J c"
  using visit_left[OF assms(2)] by (simp add: walkLeft_def report_def assms(1))

function walkFrom :: "'s CrawlJob \<Rightarrow> nat \<Rightarrow> int \<Rightarrow> crawler \<times> 's \<Rightarrow> (goerror + unit) \<times> crawler \<times> 's" where
  "walkFrom J tick done' (c, s) =
     (case cwQueue c of
        [] \<Rightarrow> (Inr (), report PhaseFetch done' (int (length (cwKnown c))) c, s)
      | entry # queue \<Rightarrow>
          if cjCancelled J tick then (Inl (Errorf (lit ''crawl '' @ cjSeed J) (Sentinel ErrContext)), c, s)
          else
            let c = (report PhaseFetch done' (int (length (cwKnown c))) c)\<lparr>cwQueue := queue\<rparr>
            in case visit J entry (c, s) of
                 (Inl e, c, s) \<Rightarrow> (Inl e, c, s)
               | (Inr _, c, s) \<Rightarrow> walkFrom J (tick + 1) (done' + 1) (c, s))"
  by pat_completeness auto
termination
proof (relation "measure (\<lambda>(J, tick, d, c, s). walkLeft J c)", goal_cases)
  case (2 J tick n c s entry queue c1 r y u c2 s2)
  then have "visit J entry ((report PhaseFetch n (int (length (cwKnown c))) c)\<lparr>cwQueue := queue\<rparr>, s) = (r, c2, s2)" by simp
  from tick_left[OF _ this] 2(1) show ?case by simp
qed simp

declare walkFrom.simps [simp del]

definition walkFrontier :: "'s CrawlJob \<Rightarrow> crawler \<times> 's \<Rightarrow> (goerror + unit) \<times> crawler \<times> 's" where
  "walkFrontier J = (\<lambda>(c, s). walkFrom J 0 (int (length (crPages (cwResult c)))) (c, s))"

subsection \<open>A crawl\<close>

definition fetchSeed :: "'s CrawlJob \<Rightarrow> crawler \<times> 's \<Rightarrow> Fetched option \<times> crawler \<times> 's" where
  "fetchSeed J = (\<lambda>(c, s).
     case sfFetch (cjFetcher J) (cjSeed J) (coRevalidate (cjOpts J)) s of
       (Inl e, s) \<Rightarrow> (None, crawlNote (lit ''seed '' @ cjSeed J @ lit '': '' @ errorText e) c, s)
     | (Inr res, s) \<Rightarrow>
         if ftStatus res \<noteq> 200
         then (None, crawlNote (lit ''seed '' @ cjSeed J @ lit '': HTTP '' @ show_int (ftStatus res)) c, s)
         else (Some res, c, s))"

definition start :: "'s CrawlJob \<Rightarrow> gostring list \<Rightarrow> crawler \<times> 's \<Rightarrow> crawler \<times> 's" where
  "start J urls = (\<lambda>(c, s).
     let s = sfReserve (cjFetcher J) (int (length urls)) s
     in (c\<lparr>cwKnown := remdups (rev urls), cwQueue := cwQueue c @ map (\<lambda>u. \<lparr>enURL = u, enDepth = 0\<rparr>) urls\<rparr>, s))"

definition keepSeed :: "'s CrawlJob \<Rightarrow> Fetched option \<Rightarrow> gostring list \<Rightarrow> crawler \<Rightarrow> goerror + crawler" where
  "keepSeed J seedPage declaredURLs c =
     (case seedPage of
        None \<Rightarrow> Inr c
      | Some page \<Rightarrow>
          if cjSeed J \<in> set declaredURLs then Inr c
          else if (case Normalize (weUnicode (cjEnv J)) (weParse (cjEnv J)) (ftFinalURL page) of
                     Inl _ \<Rightarrow> False | Inr final \<Rightarrow> final \<in> set declaredURLs) then Inr c
          else case refusal J c page of
                 Inl e \<Rightarrow> Inl e
               | Inr reason \<Rightarrow>
                   if reason \<noteq> [] then Inr (crawlNote (lit ''seed '' @ cjSeed J @ lit '' not kept: '' @ reason) c)
                   else keep J \<lparr>enURL = cjSeed J, enDepth = 0\<rparr> page (know (cjSeed J) c))"

definition summarize :: "crawler \<Rightarrow> crawler" where
  "summarize c =
     (let n = length (crMerges (cwResult c));
          c = (if 0 < n then crawlNote (show_nat n @ lit '' page(s) collapsed into the URL they declare as canonical'') c else c);
          m = length (crUnreachable (cwResult c))
      in if 0 < m then crawlNote (show_nat m @ lit '' of '' @ show_int (Declared (cwResult c)) @
           lit '' known page(s) could not be fetched ('' @ percent (UnreachableShare (cwResult c)) @ lit '')'') c else c)"

definition finish :: "'s CrawlJob \<Rightarrow> Fetched option \<Rightarrow> crawler \<Rightarrow> crawler" where
  "finish J seedPage c =
     (let c = summarize c;
          h = Derive (cjEnv J) (crOrder (cwResult c)) (cjSeed J) (map_option (\<lambda>p. prSeed (cjReader J) (ftBody p)) seedPage)
      in onResult (\<lambda>r. r\<lparr>crHierarchy := h, crNotes := crNotes r @ hiNotes h\<rparr>) c)"

text \<open>\<^verbatim>\<open>run\<close>, from the coverage on and as a whole.\<close>

definition runCovered ::
  "'s CrawlJob \<Rightarrow> Fetched option \<Rightarrow> Coverage \<Rightarrow> crawler \<times> 's \<Rightarrow> (goerror + unit) \<times> crawler \<times> 's" where
  "runCovered J seedPage cov = (\<lambda>(c, s).
     let c = onResult (\<lambda>r. r\<lparr>crCoverage := cov, crNotes := crNotes r @ cvNotes cov\<rparr>) c;
         followed = (length (cvFromSitemap cov) = 0 \<and> length (cvFromLLMsTxt cov) = 0);
         c = c\<lparr>cwFollowed := followed\<rparr>;
         c = (if followed then crawlNote (lit ''no sitemap or llms.txt; following links from fetched pages to depth '' @
                show_int (coLinkDepth (cjOpts J))) c else c);
         (c, s) = start J (cvURLs cov) (c, s)
     in case NotFoundSignature (cjEnv J) (cjReader J) (cjFetcher J) (originOf (cjEnv J) (cjSeed J)) (coRevalidate (cjOpts J)) s of
          (Inl e, s) \<Rightarrow> (Inl e, c, s)
        | (Inr sig, s) \<Rightarrow>
            let c = c\<lparr>cwSignature := sig\<rparr>;
                c = (if Found sig then crawlNote (lit ''this site answers 200 for pages that do not exist; responses matching its not-found template are treated as unreachable'') c else c)
            in case keepSeed J seedPage (cvURLs cov) c of
                 Inl e \<Rightarrow> (Inl e, c, s)
               | Inr c \<Rightarrow>
                   (case walkFrontier J (c, s) of
                      (Inl e, c, s) \<Rightarrow> (Inl e, c, s)
                    | (Inr _, c, s) \<Rightarrow> (Inr (), finish J seedPage c, s)))"

definition crawlRun :: "'s CrawlJob \<Rightarrow> crawler \<times> 's \<Rightarrow> (goerror + unit) \<times> crawler \<times> 's" where
  "crawlRun J = (\<lambda>(c, s).
     let c = report PhaseDiscover 0 0 c;
         (seedPage, c, s) = fetchSeed J (c, s)
     in case Discover (cjEnv J) (cjReader J) (cjFetcher J) (cjSeed J) seedPage (coRevalidate (cjOpts J)) s of
          (Inl e, s) \<Rightarrow> (Inl e, c, s)
        | (Inr cov, s) \<Rightarrow> runCovered J seedPage cov (c, s))"

definition noCoverage :: Coverage where
  "noCoverage = \<lparr>cvTitles = Map.empty, cvURLs = [], cvFromSitemap = [], cvFromIndex = [], cvFromLLMsTxt = [], cvNotes = []\<rparr>"

definition noHierarchy :: Hierarchy where
  "noHierarchy = \<lparr>hiPlacements = [], hiPlacedByPath = [], hiNotes = [], hiSource = SourceURLPath, hiInferred = False\<rparr>"

definition newCrawler :: "gostring \<Rightarrow> crawler" where
  "newCrawler seed = \<lparr>cwResult = \<lparr>crCoverage = noCoverage, crHierarchy = noHierarchy, crPages = [], crSeed = seed, crOrder = [],
     crUnreachable = [], crMerges = [], crNotes = []\<rparr>, cwSignature = None, cwKnown = [], cwQueue = [], cwFollowed = False, cwReports = []\<rparr>"

definition crawlSite :: "'s CrawlJob \<Rightarrow> 's \<Rightarrow> (goerror + Result) \<times> 's" where
  "crawlSite J s =
     (case Normalize (weUnicode (cjEnv J)) (weParse (cjEnv J)) (cjSeed J) of
        Inl e \<Rightarrow> (Inl e, s)
      | Inr seed \<Rightarrow>
          let opts = cjOpts J;
              opts = (if coMaxPages opts = 0 then opts\<lparr>coMaxPages := DefaultMaxPages\<rparr> else opts);
              opts = (if coLinkDepth opts = 0 then opts\<lparr>coLinkDepth := DefaultLinkDepth\<rparr> else opts)
          in case crawlRun (J\<lparr>cjSeed := seed, cjOpts := opts\<rparr>) (newCrawler seed, s) of
               (Inl e, _, s) \<Rightarrow> (Inl e, s)
             | (Inr _, c, s) \<Rightarrow> (Inr (cwResult c), s))"

end
