(* ===== verification/Urlguard_Props.thy ===== *)
theory Urlguard_Props
  imports Urlguard
begin

text \<open>
  What the guard lets through: the addresses as plain ranges, and the targets of a checked URL.
\<close>

subsection \<open>Prefixes as ranges\<close>

lemma uint_drop: "uint (drop_bit k (a :: 'a::len word)) = uint a div 2 ^ k"
proof -
  have "uint (drop_bit k a) = drop_bit k (take_bit LENGTH('a) (uint a))" by (rule unsigned_drop_bit_eq)
  also have "\<dots> = uint a div 2 ^ k" by (simp only: take_bit_int_eq_self[OF uint_ge_0 uint_bounded] drop_bit_eq_div)
  finally show ?thesis .
qed

lemma uint_octet: "uint (octet a i) = uint a div 2 ^ (24 - 8 * i) mod 256"
proof -
  have "octet a i = take_bit 8 (drop_bit (24 - 8 * i) a)"
    by (simp add: octet_def take_bit_eq_mask mask_numeral)
  then show ?thesis by (simp only: unsigned_take_bit_eq uint_drop) (simp add: take_bit_eq_mod)
qed

lemma octet_eq: "octet a i = numeral n \<longleftrightarrow> uint a div 2 ^ (24 - 8 * i) mod 256 = numeral n mod 4294967296"
  by (simp add: word_uint_eq_iff uint_octet take_bit_eq_mod)

lemma octet_0: "octet a i = 0 \<longleftrightarrow> uint a div 2 ^ (24 - 8 * i) mod 256 = 0"
  by (simp add: word_uint_eq_iff uint_octet)

lemma uint32: "0 \<le> uint (a :: 32 word)" "uint (a :: 32 word) < 4294967296"
  using uint_ge_0[of a] uint_bounded[of a] by simp_all

lemma xor_zero: "(a :: 'a::len word) XOR b = 0 \<longleftrightarrow> a = b"
  by (metis xor.assoc xor.left_neutral xor_self_eq xor.right_neutral)

lemma uint_v4addr:
  assumes "0 \<le> a" "a < 256" "0 \<le> b" "b < 256" "0 \<le> c" "c < 256" "0 \<le> d" "d < 256"
  shows "uint (v4addr a b c d) = ((a * 256 + b) * 256 + c) * 256 + d"
  unfolding v4addr_def uint_word_of_int_eq using assms by (intro take_bit_int_eq_self) auto

lemma prefix4_iff: "Contains (Prefix4 p n) (Addr4 a) \<longleftrightarrow> uint a div 2 ^ (32 - n) = uint p div 2 ^ (32 - n)"
  by (simp add: drop_bit_xor xor_zero uint_drop[symmetric] word_uint_eq_iff[symmetric])

lemma nibble: "octet a i AND 0xF0 = 16 \<longleftrightarrow> uint (octet a i) div 16 = 1"
  "octet a i AND 0xF0 = 0xE0 \<longleftrightarrow> uint (octet a i) div 16 = 14"
proof -
  have all: "list_all (\<lambda>n. ((word_of_int n :: 32 word) AND 0xF0 = 16 \<longleftrightarrow> n div 16 = 1) \<and>
     ((word_of_int n :: 32 word) AND 0xF0 = 0xE0 \<longleftrightarrow> n div 16 = 14)) [0..255]" by code_simp
  have "uint (octet a i) \<in> set [0..255]" by (simp add: uint_octet)
  with all show "octet a i AND 0xF0 = 16 \<longleftrightarrow> uint (octet a i) div 16 = 1"
    "octet a i AND 0xF0 = 0xE0 \<longleftrightarrow> uint (octet a i) div 16 = 14"
    unfolding list_all_iff by (metis word_of_int_uint)+
qed

text \<open>The IPv4 addresses that are refused, as ranges.\<close>

definition refused4 :: "(32 word \<times> 32 word) list" where
  "refused4 =
    [(v4addr 0 0 0 0, v4addr 0 255 255 255), (v4addr 10 0 0 0, v4addr 10 255 255 255),
     (v4addr 100 64 0 0, v4addr 100 127 255 255), (v4addr 127 0 0 0, v4addr 127 255 255 255),
     (v4addr 169 254 0 0, v4addr 169 254 255 255), (v4addr 172 16 0 0, v4addr 172 31 255 255),
     (v4addr 192 0 0 0, v4addr 192 0 0 255), (v4addr 192 0 2 0, v4addr 192 0 2 255),
     (v4addr 192 88 99 0, v4addr 192 88 99 255), (v4addr 192 168 0 0, v4addr 192 168 255 255),
     (v4addr 198 18 0 0, v4addr 198 19 255 255), (v4addr 198 51 100 0, v4addr 198 51 100 255),
     (v4addr 203 0 113 0, v4addr 203 0 113 255), (v4addr 224 0 0 0, v4addr 255 255 255 255)]"

definition between :: "32 word \<Rightarrow> 32 word \<times> 32 word \<Rightarrow> bool" where
  "between a r = (fst r \<le> a \<and> a \<le> snd r)"

lemma range_div:
  assumes "0 < d"
  shows "(n :: int) div d = q \<longleftrightarrow> q * d \<le> n \<and> n < (q + 1) * d"
proof
  assume "n div d = q"
  then have "n = d * q + n mod d" by (metis mult_div_mod_eq)
  moreover have "0 \<le> n mod d" "n mod d < d" using assms by simp_all
  ultimately show "q * d \<le> n \<and> n < (q + 1) * d" by (simp add: algebra_simps)
next
  assume "q * d \<le> n \<and> n < (q + 1) * d"
  then show "n div d = q" using assms by (intro int_div_pos_eq[of n d q "n - d * q"]) (auto simp: algebra_simps)
qed

lemma octets2:
  assumes "0 \<le> n" "n < 4294967296"
  shows "(n :: int) div 16777216 mod 256 = n div 16777216" "n div 16777216 = n div 65536 div 256"
    "0 \<le> n div 65536" "n div 65536 < 65536"
  using assms by (simp_all add: zdiv_zmult2_eq[symmetric])

lemma two_octets:
  "0 \<le> y \<Longrightarrow> y < 256 \<Longrightarrow> m div 256 = x \<and> m mod 256 = y \<longleftrightarrow> (m :: int) = x * 256 + y"
  "0 \<le> y \<Longrightarrow> y < 16 \<Longrightarrow> m div 256 = x \<and> m mod 256 div 16 = y \<longleftrightarrow> m div 16 = x * 16 + y"
proof -
  show "m div 256 = x \<and> m mod 256 = y \<longleftrightarrow> m = x * 256 + y" if "0 \<le> y" "y < 256"
    using that div_mult_mod_eq[of m 256] by auto
  have "m div 256 = m div 16 div 16" using zdiv_zmult2_eq[of 16 m 16] by simp
  moreover have "m mod 256 = 16 * (m div 16 mod 16) + m mod 16" using zmod_zmult2_eq[of 16 m 16] by simp
  then have "m mod 256 div 16 = m div 16 mod 16" by simp
  ultimately show "m div 256 = x \<and> m mod 256 div 16 = y \<longleftrightarrow> m div 16 = x * 16 + y" if "0 \<le> y" "y < 16"
    using that div_mult_mod_eq[of "m div 16" 16] by auto
qed

lemma between_uint:
  "between a (v4addr x1 x2 x3 x4, v4addr y1 y2 y3 y4) \<longleftrightarrow>
     uint (v4addr x1 x2 x3 x4) \<le> uint a \<and> uint a < uint (v4addr y1 y2 y3 y4) + 1"
  by (simp add: between_def word_le_def)

lemma classes4:
  "loopback4 a \<longleftrightarrow> between a (v4addr 127 0 0 0, v4addr 127 255 255 255)"
  "linkLocal4 a \<longleftrightarrow> between a (v4addr 169 254 0 0, v4addr 169 254 255 255)"
  "multicast4 a \<longleftrightarrow> between a (v4addr 224 0 0 0, v4addr 239 255 255 255)"
  "private4 a \<longleftrightarrow> between a (v4addr 10 0 0 0, v4addr 10 255 255 255) \<or> between a (v4addr 172 16 0 0, v4addr 172 31 255 255)
     \<or> between a (v4addr 192 168 0 0, v4addr 192 168 255 255)"
  "linkLocalMulticast4 a \<Longrightarrow> multicast4 a"
proof -
  let ?n = "uint a" and ?m = "uint a div 65536"
  note n = octets2[OF uint32[of a]]
  have two: "?n div 16777216 mod 256 = x \<and> ?m mod 256 = y \<longleftrightarrow> ?m = x * 256 + y" if "0 \<le> y" "y < 256" for x y
    unfolding n(1) unfolding n(2) using that by (rule two_octets(1))
  have nib: "?n div 16777216 mod 256 = x \<and> ?m mod 256 div 16 = y \<longleftrightarrow> ?n div 1048576 = x * 16 + y"
    if "0 \<le> y" "y < 16" for x y
  proof -
    have "?n div 1048576 = ?m div 16" by (simp add: zdiv_zmult2_eq[symmetric])
    then show ?thesis unfolding n(1) unfolding n(2) using two_octets(2)[OF that] by simp
  qed
  show "loopback4 a \<longleftrightarrow> between a (v4addr 127 0 0 0, v4addr 127 255 255 255)"
    unfolding loopback4_def octet_eq between_uint using n(1) by (simp add: uint_v4addr range_div)
  show "linkLocal4 a \<longleftrightarrow> between a (v4addr 169 254 0 0, v4addr 169 254 255 255)"
    unfolding linkLocal4_def octet_eq between_uint using two[of 254 169] by (simp add: uint_v4addr range_div)
  show "multicast4 a \<longleftrightarrow> between a (v4addr 224 0 0 0, v4addr 239 255 255 255)"
  proof -
    have "?n div 16777216 div 16 = ?n div 268435456" by (simp add: zdiv_zmult2_eq[symmetric])
    moreover have "multicast4 a \<longleftrightarrow> ?n div 16777216 div 16 = 14" unfolding multicast4_def nibble uint_octet using n(1) by simp
    ultimately show ?thesis unfolding between_uint by (simp add: uint_v4addr range_div[of 268435456])
  qed
  show "private4 a \<longleftrightarrow> between a (v4addr 10 0 0 0, v4addr 10 255 255 255) \<or> between a (v4addr 172 16 0 0, v4addr 172 31 255 255)
     \<or> between a (v4addr 192 168 0 0, v4addr 192 168 255 255)"
    unfolding private4_def octet_eq nibble uint_octet between_uint
    using n(1) nib[of 1 172] two[of 168 192] by (simp add: uint_v4addr range_div)
  show "linkLocalMulticast4 a \<Longrightarrow> multicast4 a"
    unfolding linkLocalMulticast4_def multicast4_def octet_eq nibble uint_octet by simp
qed

lemma prefix4_between:
  assumes "uint p div 2 ^ (32 - n) * 2 ^ (32 - n) = uint (v4addr x1 x2 x3 x4)"
    "(uint p div 2 ^ (32 - n) + 1) * 2 ^ (32 - n) = uint (v4addr y1 y2 y3 y4) + 1"
  shows "Contains (Prefix4 p n) (Addr4 a) \<longleftrightarrow> between a (v4addr x1 x2 x3 x4, v4addr y1 y2 y3 y4)"
  unfolding prefix4_iff between_uint assms[symmetric] by (intro range_div) simp

lemma blocked4:
  "list_ex (\<lambda>p. Contains p (Addr4 a)) blockedPrefixes \<longleftrightarrow> list_ex (between a)
    [(v4addr 0 0 0 0, v4addr 0 255 255 255), (v4addr 100 64 0 0, v4addr 100 127 255 255),
     (v4addr 192 0 0 0, v4addr 192 0 0 255), (v4addr 192 0 2 0, v4addr 192 0 2 255),
     (v4addr 192 88 99 0, v4addr 192 88 99 255), (v4addr 198 18 0 0, v4addr 198 19 255 255),
     (v4addr 198 51 100 0, v4addr 198 51 100 255), (v4addr 203 0 113 0, v4addr 203 0 113 255),
     (v4addr 240 0 0 0, v4addr 255 255 255 255)]"
proof -
  have "Contains (Prefix4 (v4addr 0 0 0 0) 8) (Addr4 a) \<longleftrightarrow> between a (v4addr 0 0 0 0, v4addr 0 255 255 255)"
    "Contains (Prefix4 (v4addr 100 64 0 0) 10) (Addr4 a) \<longleftrightarrow> between a (v4addr 100 64 0 0, v4addr 100 127 255 255)"
    "Contains (Prefix4 (v4addr 192 0 0 0) 24) (Addr4 a) \<longleftrightarrow> between a (v4addr 192 0 0 0, v4addr 192 0 0 255)"
    "Contains (Prefix4 (v4addr 192 0 2 0) 24) (Addr4 a) \<longleftrightarrow> between a (v4addr 192 0 2 0, v4addr 192 0 2 255)"
    "Contains (Prefix4 (v4addr 192 88 99 0) 24) (Addr4 a) \<longleftrightarrow> between a (v4addr 192 88 99 0, v4addr 192 88 99 255)"
    "Contains (Prefix4 (v4addr 198 18 0 0) 15) (Addr4 a) \<longleftrightarrow> between a (v4addr 198 18 0 0, v4addr 198 19 255 255)"
    "Contains (Prefix4 (v4addr 198 51 100 0) 24) (Addr4 a) \<longleftrightarrow> between a (v4addr 198 51 100 0, v4addr 198 51 100 255)"
    "Contains (Prefix4 (v4addr 203 0 113 0) 24) (Addr4 a) \<longleftrightarrow> between a (v4addr 203 0 113 0, v4addr 203 0 113 255)"
    "Contains (Prefix4 (v4addr 240 0 0 0) 4) (Addr4 a) \<longleftrightarrow> between a (v4addr 240 0 0 0, v4addr 255 255 255 255)"
    by (rule prefix4_between; simp add: uint_v4addr)+
  then show ?thesis unfolding blockedPrefixes_def by (simp del: Contains.simps(1))
qed

lemma Unmap_idem [simp]: "Unmap (Unmap a) = Unmap a"
  by (cases a) auto

lemma AddrAllowed_Unmap: "AddrAllowed (Unmap a) = AddrAllowed a"
  by (cases a) (simp_all add: AddrAllowed_def)

lemma AddrAllowed4:
  "AddrAllowed (Addr4 a) \<longleftrightarrow> \<not> list_ex (between a) refused4"
proof -
  have z: "a = 0 \<Longrightarrow> between a (v4addr 0 0 0 0, v4addr 0 255 255 255)" by (simp add: between_uint uint_v4addr)
  have m: "between a (v4addr 224 0 0 0, v4addr 255 255 255 255) \<longleftrightarrow>
      between a (v4addr 224 0 0 0, v4addr 239 255 255 255) \<or> between a (v4addr 240 0 0 0, v4addr 255 255 255 255)"
    by (simp add: between_uint uint_v4addr) linarith
  have r: "\<not> list_ex (\<lambda>p. Contains p (Addr4 a)) routableWithin" by (simp add: routableWithin_def)
  show ?thesis
    using z classes4(5)[of a]
    by (auto simp: AddrAllowed_def IsLoopback_def IsPrivate_def IsLinkLocalUnicast_def IsLinkLocalMulticast_def
      IsInterfaceLocalMulticast_def IsMulticast_def judged_def classes4(1-4) refused4_def m r blocked4)
qed

lemma drop_bit_above_mask:
  assumes "(x :: 'a::len word) AND NOT (mask n) = 0"
  shows "drop_bit n x = 0"
proof (rule bit_eqI)
  fix k
  have "\<not> bit (x AND NOT (mask n)) (n + k)" using assms by simp
  then show "bit (drop_bit n x) k \<longleftrightarrow> bit 0 k"
    by (auto simp: bit_drop_bit_eq bit_and_iff bit_not_iff bit_mask_iff dest: bit_imp_le_length)
qed



subsection \<open>Checked targets\<close>

lemma checkAddrs_eq: "checkAddrs addrs out = (if list_all AddrAllowed addrs then Some (out @ map Unmap addrs) else None)"
  by (induction addrs arbitrary: out) auto

lemma Unmap_not_mapped: "\<not> Is4In6 (Unmap a)"
  by (cases a) auto

lemma Check_passes:
  assumes "Check U parse lookup raw = Inr t"
  shows "tgAddrs t \<noteq> [] \<and> list_all (\<lambda>a. AddrAllowed a \<and> \<not> Is4In6 a) (tgAddrs t) \<and> parse raw = Some (tgURL t) \<and>
    \<not> uHasUser (tgURL t) \<and> HostAllowed U (uHostname (tgURL t)) \<and>
    map (uToLower U) (uScheme (tgURL t)) \<in> {lit ''http'', lit ''https''} \<and>
    (case ParseAddr (uHostname (tgURL t)) of
       Some a \<Rightarrow> tgAddrs t = [Unmap a]
     | None \<Rightarrow> \<exists>addrs. lookup (uHostname (tgURL t)) = Some addrs \<and> list_all AddrAllowed addrs \<and> tgAddrs t = map Unmap addrs)"
proof -
  obtain u where u: "parse raw = Some u" using assms by (auto simp: Check_def split: option.splits)
  have c: "map (uToLower U) (uScheme u) \<in> {lit ''http'', lit ''https''}" "\<not> uHasUser u" "HostAllowed U (uHostname u)"
    using assms u by (auto simp: Check_def Let_def split: if_splits)
  show ?thesis
  proof (cases "ParseAddr (uHostname u)")
    case (Some a)
    with assms u c have "AddrAllowed a" "t = \<lparr>tgURL = u, tgAddrs = [Unmap a]\<rparr>"
      by (auto simp: Check_def Let_def split: if_splits)
    with Some u c show ?thesis by (simp add: AddrAllowed_Unmap Unmap_not_mapped del: Is4In6.simps)
  next
    case None
    with assms u c obtain addrs where "lookup (uHostname u) = Some addrs" "addrs \<noteq> []" "list_all AddrAllowed addrs"
        "t = \<lparr>tgURL = u, tgAddrs = map Unmap addrs\<rparr>"
      by (auto simp: Check_def Let_def checkAddrs_eq split: if_splits option.splits)
    with None u c show ?thesis by (simp add: list_all_iff AddrAllowed_Unmap Unmap_not_mapped del: Is4In6.simps)
  qed
qed

lemma Check_addrs:
  "Check U parse lookup raw = Inr t \<Longrightarrow> tgAddrs t \<noteq> [] \<and> list_all AddrAllowed (tgAddrs t)"
  using Check_passes by (fastforce simp: list_all_iff)

text \<open>A URL that passes is http or https, names no user, and comes with the addresses to dial, at least
  one and each of them allowed and none of them an IPv4 address in disguise.  A name passes only when
  every address it resolves to is allowed.\<close>

theorem Check_targets_allowed:
  assumes "Check U parse lookup raw = Inr t"
  shows "tgAddrs t \<noteq> [] \<and> list_all (\<lambda>a. AddrAllowed a \<and> \<not> Is4In6 a) (tgAddrs t) \<and> parse raw = Some (tgURL t) \<and>
    \<not> uHasUser (tgURL t) \<and> HostAllowed U (uHostname (tgURL t)) \<and>
    map (uToLower U) (uScheme (tgURL t)) \<in> {lit ''http'', lit ''https''} \<and>
    (case ParseAddr (uHostname (tgURL t)) of
       Some a \<Rightarrow> tgAddrs t = [Unmap a]
     | None \<Rightarrow> \<exists>addrs. lookup (uHostname (tgURL t)) = Some addrs \<and> list_all AddrAllowed addrs \<and> tgAddrs t = map Unmap addrs)"
  using assms by (rule Check_passes)

definition ex_url :: "gostring \<Rightarrow> URL" where
  "ex_url host = \<lparr>uScheme = lit ''https'', uHasUser = False, uHostname = host, uPort = [], uHost = host, uPath = lit ''/'',
     uEscapedPath = lit ''/'', uRawQuery = []\<rparr>"

theorem Check_targets_allowed_witness:
  "Check ascii_unicode (\<lambda>s. Some (ex_url s)) (\<lambda>_. Some [Addr4 (v4addr 8 8 8 8)]) (lit ''docs.example.org'') =
     Inr \<lparr>tgURL = ex_url (lit ''docs.example.org''), tgAddrs = [Addr4 (v4addr 8 8 8 8)]\<rparr> \<and>
   AddrAllowed (Addr4 (v4addr 8 8 8 8))"
proof -
  have r: "Check ascii_unicode (\<lambda>s. Some (ex_url s)) (\<lambda>_. Some [Addr4 (v4addr 8 8 8 8)]) (lit ''docs.example.org'') =
     Inr \<lparr>tgURL = ex_url (lit ''docs.example.org''), tgAddrs = [Addr4 (v4addr 8 8 8 8)]\<rparr>" by code_simp
  from Check_targets_allowed[OF r] r show ?thesis by simp
qed

text \<open>Every refusal reads the same, whether the URL does not parse, its host is internal, does not
  resolve, or resolves to an address that is not allowed; only a name that did not resolve is told
  apart, for a retry.\<close>

theorem Check_refusals_alike:
  assumes "Check U parse lookup raw = Inl e"
  shows "errorText e = lit ''url is not permitted'' \<and> errors_Is e ErrBlocked \<and>
    (errors_Is e ErrUnresolved \<longrightarrow> (\<exists>u. parse raw = Some u \<and> HostAllowed U (uHostname u) \<and>
       ParseAddr (uHostname u) = None \<and> lookup (uHostname u) \<in> {None, Some []}))"
proof -
  from assms have "e = Sentinel ErrBlocked \<or> e = Sentinel ErrUnresolved"
    by (auto simp: Check_def Let_def split: if_splits option.splits)
  moreover have "\<exists>u. parse raw = Some u \<and> HostAllowed U (uHostname u) \<and>
       ParseAddr (uHostname u) = None \<and> lookup (uHostname u) \<in> {None, Some []}" if "e = Sentinel ErrUnresolved"
    using assms that by (auto simp: Check_def Let_def split: if_splits option.splits)
  ultimately show ?thesis by (auto simp: sentinelText_def)
qed

theorem Check_refusals_alike_witness:
  "Check ascii_unicode (\<lambda>s. Some (ex_url s)) (\<lambda>_. Some [Addr4 (v4addr 8 8 8 8), Addr4 (v4addr 10 0 0 1)]) (lit ''a.example'') =
     Inl (Sentinel ErrBlocked) \<and> errorText (Sentinel ErrBlocked) = lit ''url is not permitted''"
proof -
  have r: "Check ascii_unicode (\<lambda>s. Some (ex_url s)) (\<lambda>_. Some [Addr4 (v4addr 8 8 8 8), Addr4 (v4addr 10 0 0 1)]) (lit ''a.example'') =
     Inl (Sentinel ErrBlocked)" by code_simp
  from Check_refusals_alike[OF r] r show ?thesis by simp
qed

text \<open>The case fold comes before the test for ASCII, so a host with a letter that folds to ASCII passes: the
  Kelvin sign for k.\<close>

lemma HostAllowed_kelvin:
  assumes "uToLower U 0x212A = 107" "uToLower U 46 = 46" "uToLower U 111 = 111"
  shows "\<not> isASCII [0x212A, 46, 111] \<and> HostAllowed U [0x212A, 46, 111]"
  using assms by (simp add: isASCII_def HostAllowed_def lit_def blockedSuffixes_def has_suffix_def)

end
