(* ===== verification/Webfetch_Props.thy ===== *)
theory Webfetch_Props
  imports Webfetch Urlguard_Props
begin

text \<open>
  What the fetcher sends: only what the guard approved, spaced out for each host, and no page a host's
  robots.txt disallows.
\<close>

subsection \<open>Normalised paths\<close>

definition dotted :: "gostring \<Rightarrow> bool" where
  "dotted seg \<longleftrightarrow> seg = lit ''.'' \<or> seg = lit ''..''"

definition clean :: "gostring list \<Rightarrow> bool" where
  "clean segs \<longleftrightarrow> (\<forall>s\<in>set segs. \<not> dotted s \<and> 47 \<notin> set s)"

lemma applySegment_clean: "clean out \<Longrightarrow> 47 \<notin> set seg \<Longrightarrow> clean (applySegment out seg)"
  unfolding clean_def by (auto simp: dotted_def dest: in_set_butlastD)

lemma applySegments_clean:
  "clean out \<Longrightarrow> \<forall>s\<in>set segs. 47 \<notin> set s \<Longrightarrow> clean (foldl applySegment out segs)"
  by (induction segs arbitrary: out) (simp_all add: applySegment_clean del: applySegment.simps)

lemma applySegments_id:
  "clean segs \<Longrightarrow> foldl applySegment out segs = out @ segs"
  by (induction segs arbitrary: out) (simp_all add: dotted_def clean_def)

lemma endsInDots_last: "endsInDots p \<Longrightarrow> dotted (last (split [47] p))"
proof -
  assume "endsInDots p"
  then obtain t where "p = t @ 47 # lit ''.'' \<or> p = t @ 47 # lit ''..''" by (auto simp: endsInDots_def has_suffix_iff lit_def)
  moreover have "47 \<notin> set (lit ''.'')" "47 \<notin> set (lit ''..'')" by (simp_all add: lit_def)
  ultimately have "last (split [47] p) = lit ''.'' \<or> last (split [47] p) = lit ''..''" by (auto simp: split_last)
  then show ?thesis by (simp add: dotted_def)
qed

lemma removeDotSegments_segments:
  obtains segs where "segs \<noteq> []" "removeDotSegments p = join [47] segs" "clean segs"
proof -
  define out where "out = foldl applySegment [] (split [47] p)"
  have clean: "clean out"
    unfolding out_def by (rule applySegments_clean) (auto simp: clean_def split_no_sep)
  let ?slash = "endsInDots p \<and> \<not> has_suffix (join [47] out) [47]"
  have r: "removeDotSegments p = (if ?slash then join [47] out @ [47] else join [47] out)"
    by (simp add: removeDotSegments_def out_def Let_def)
  have e: "\<not> dotted []" by (simp add: dotted_def lit_def)
  show thesis
  proof (cases "out = []")
    case True
    then show thesis using that[of "if ?slash then [[], []] else [[]]"] r e by (auto simp: clean_def split: if_splits)
  next
    case False
    then show thesis using that[of "if ?slash then out @ [[]] else out"] r e clean by (auto simp: clean_def join_append)
  qed
qed

text \<open>A normalised path has one spelling: no dot segment is left in it, and normalising it again changes
  nothing.\<close>

theorem removeDotSegments_normal:
  "list_all (\<lambda>s. s \<noteq> lit ''.'' \<and> s \<noteq> lit ''..'') (split [47] (removeDotSegments p)) \<and>
   removeDotSegments (removeDotSegments p) = removeDotSegments p"
proof -
  obtain segs where s: "segs \<noteq> []" "removeDotSegments p = join [47] segs" "clean segs"
    by (rule removeDotSegments_segments)
  then have sp: "split [47] (removeDotSegments p) = segs" using split_join[of segs 47] by (simp add: clean_def)
  have "\<not> endsInDots (removeDotSegments p)" using endsInDots_last[of "removeDotSegments p"] s(1,3) by (auto simp: sp clean_def)
  moreover have "foldl applySegment [] segs = segs" using applySegments_id[of segs "[]"] s(3) by simp
  ultimately have "removeDotSegments (removeDotSegments p) = removeDotSegments p"
    unfolding removeDotSegments_def[of "removeDotSegments p"] sp by (simp add: s(2))
  then show ?thesis using s(3) by (auto simp: sp dotted_def clean_def list_all_iff)
qed

subsection \<open>Invariants of the requests\<close>

text \<open>Whatever a request keeps, a fetch keeps: nothing else sends, waits or asks the guard.\<close>

locale kept_by_requests =
  fixes E :: WebEnv and I :: "fstate \<Rightarrow> bool"
  assumes request_keeps: "I fw \<Longrightarrow> I (snd (request E raw headers fw))"
    and tables_keep: "I (f, w) \<Longrightarrow> I (f\<lparr>feRobots := r\<rparr>, w\<lparr>wbResponses := a, wbRobots := b, wbFaults := c\<rparr>)"
    and reserve_keeps: "I (f, w) \<Longrightarrow> I (f\<lparr>feMaxFetches := m\<rparr>, w)"
begin

lemma cacheFault_keeps: "I (f, w) \<Longrightarrow> I (f, snd (cacheFault what w))"
  using tables_keep[where r = "feRobots f" and a = "wbResponses w" and b = "wbRobots w" and f = f and w = w] by (simp add: cacheFault_def split: list.split)

lemma tables_keep_w:
  "I (f, w) \<Longrightarrow> I (f, w\<lparr>wbResponses := a\<rparr>)" "I (f, w) \<Longrightarrow> I (f, w\<lparr>wbRobots := b\<rparr>)"
  using tables_keep[where r = "feRobots f" and b = "wbRobots w" and c = "wbFaults w" and f = f and w = w]
    tables_keep[where r = "feRobots f" and a = "wbResponses w" and c = "wbFaults w" and f = f and w = w] by simp_all

lemma cache_keeps:
  assumes "I fw"
  shows "I (snd (cacheGet url fw))" "I (snd (cachePut r fw))" "I (snd (cacheTouch url fw))"
    "I (snd (cacheRobots host fw))" "I (snd (cachePutRobots host rf fw))"
  using assms cacheFault_keeps
  by (auto simp: cacheGet_def cachePut_def cacheTouch_def cacheRobots_def cachePutRobots_def intro!: tables_keep_w
      split: prod.splits option.splits) (metis snd_conv)+

lemma hold_keeps: "I fw \<Longrightarrow> I (holdRobots host body fw)"
  using tables_keep[where a = "wbResponses (snd fw)" and b = "wbRobots (snd fw)" and c = "wbFaults (snd fw)" and f = "fst fw" and w = "snd fw"]
  by (cases fw) (simp add: holdRobots_def)

lemma Reserve_keeps: "I fw \<Longrightarrow> I (Reserve n fw)"
  by (cases fw) (simp add: Reserve_def reserve_keeps)

lemma hop_keeps: "I fw \<Longrightarrow> I (snd (hop E raw headers fw))"
  by (cases fw) (auto simp: hop_def request_keeps)

lemma fetchRobots_keeps: "I fw \<Longrightarrow> I (snd (fetchRobots E raw fw))"
proof -
  have "I fw \<Longrightarrow> I (snd (fetchRobotsFrom n E current fw))" for n current fw
  proof (induction n arbitrary: current fw)
    case (Suc n)
    obtain r f w where req: "request E current [] fw = (r, f, w)" by (metis prod.exhaust)
    then have k: "I (f, w)" using request_keeps[OF Suc.prems, of current "[]"] by simp
    show ?case using Suc.IH[OF k] k by (simp add: req split: sum.splits)
  qed simp
  then show "I fw \<Longrightarrow> I (snd (fetchRobots E raw fw))" by (cases fw) (simp add: fetchRobots_def)
qed

lemma readRobots_keeps: "I fw \<Longrightarrow> I (snd (readRobots E u stored fw))"
proof -
  assume i: "I fw"
  let ?raw = "uScheme u @ lit ''://'' @ uHost u @ lit ''/robots.txt''"
  obtain r f w where req: "fetchRobots E ?raw fw = (r, f, w)" by (metis prod.exhaust)
  then have k: "I (f, w)" using fetchRobots_keeps[OF i, of ?raw] by simp
  show ?thesis
    using k cache_keeps(5)[OF k] by (auto simp: readRobots_def req split: sum.splits option.splits prod.splits) (metis snd_conv)+
qed

lemma robotsFor_keeps: "I fw \<Longrightarrow> I (snd (robotsFor E u fw))"
proof -
  assume i: "I fw"
  obtain f w where fw: "fw = (f, w)" by force
  obtain r f1 w1 where get: "cacheRobots (uHostname u) (f, w) = (r, f1, w1)" by (metis prod.exhaust)
  then have k: "I (f1, w1)" using cache_keeps(4)[OF i, of "uHostname u"] fw by simp
  have rd: "readRobots E u st (f1, w1) = (x, fw2) \<Longrightarrow> I fw2" for st x fw2
    using readRobots_keeps[OF k, of u st] by simp
  show ?thesis
    using i k rd hold_keeps
    by (auto simp: fw robotsFor_def get Let_def split: sum.splits option.splits prod.splits)
qed

lemma allowedByRobots_keeps: "I fw \<Longrightarrow> I (snd (allowedByRobots E raw fw))"
  using robotsFor_keeps[of fw]
  by (cases fw) (auto simp: allowedByRobots_def split: sum.splits option.splits prod.splits; metis snd_conv)

lemma Robots_keeps: "I fw \<Longrightarrow> I (snd (Robots E raw fw))"
  by (auto simp: Robots_def robotsFor_keeps split: option.splits)

lemma settle_keeps: "I fw \<Longrightarrow> I (snd (settle E target final res cached fw))"
proof -
  assume i: "I fw"
  have s: "I (snd (storeResponse E target final res fw))"
  proof -
    obtain f w where fw: "fw = (f, w)" by force
    show ?thesis using cache_keeps(2)[OF i] unfolding fw storeResponse_def
      by (auto split: sum.splits prod.splits) (metis snd_conv)+
  qed
  moreover have "cacheTouch target fw = (r, fw2) \<Longrightarrow> I fw2" for r fw2 using cache_keeps(3)[OF i, of target] by simp
  ultimately show ?thesis by (auto simp: settle_def split: sum.splits option.splits prod.splits)
qed

lemma follow_keeps: "I fw \<Longrightarrow> I (snd (follow E target cached fw))"
proof -
  have "I fw \<Longrightarrow> I (snd (followFrom n E target cached current fw))" for n current fw
  proof (induction n arbitrary: current fw)
    case (Suc n)
    obtain r fw2 where h: "hop E current (conditional cached) fw = (r, fw2)" by (metis prod.exhaust)
    then have k: "I fw2" using hop_keeps[OF Suc.prems, of current "conditional cached"] by simp
    show ?case using Suc.IH[OF k] settle_keeps[OF k] k by (simp add: h split: sum.splits)
  qed (metis followFrom.simps(1) prod.exhaust snd_conv)
  then show "I fw \<Longrightarrow> I (snd (follow E target cached fw))" by (cases fw) (simp add: follow_def)
qed

lemma Fetch_keeps: "I fw \<Longrightarrow> I (snd (Fetch E raw revalidate fw))"
proof -
  assume i: "I fw"
  have get: "cacheGet target fw = (r, fw2) \<Longrightarrow> I fw2" for target r fw2 using cache_keeps(1)[OF i, of target] by simp
  have allow: "I fw2 \<Longrightarrow> allowedByRobots E target fw2 = (r, fw3) \<Longrightarrow> I fw3" for target r fw2 fw3
    using allowedByRobots_keeps[of fw2 target] by simp
  show ?thesis
    using i get allow follow_keeps
    by (auto simp: Fetch_def split: sum.splits prod.splits) blast+
qed

end

subsection \<open>Approved and spaced requests\<close>

definition approved :: "WebEnv \<Rightarrow> Sent \<Rightarrow> bool" where
  "approved E s \<longleftrightarrow> (\<exists>n t. weGuard E n (seURL s) = Inr t \<and> seAddrs s = tgAddrs t \<and> seHost s = uHostname (tgURL t))"

definition all_approved :: "WebEnv \<Rightarrow> fstate \<Rightarrow> bool" where
  "all_approved E fw \<longleftrightarrow> list_all (approved E) (wbSent (snd fw))"

text \<open>What a request does: nothing is sent, or one request is, approved, after the wait.\<close>

lemma doRequest_eq:
  "snd (doRequest E raw host addrs headers (f, w)) =
     (f, w\<lparr>wbSent := wbSent w @ [\<lparr>seURL = raw, seHost = host, seAddrs = addrs, seAt = wbClock w\<rparr>],
           wbClock := wbClock w + int (weTook E (wbTick w))\<rparr>)"
  by (simp add: doRequest_def Let_def split: sum.splits)

lemma wait_fw:
  assumes "wait host (f, w) = (fa, wa)"
  shows "fa = f\<lparr>feLast := (feLast f)(host \<mapsto> wbClock wa)\<rparr>" "wa = w\<lparr>wbClock := wbClock wa\<rparr>" "wbClock w \<le> wbClock wa"
    "feLast f host = Some t \<Longrightarrow> t + feInterval f \<le> wbClock wa"
  using assms by (auto simp: wait_def Let_def split: option.splits if_splits)

lemma request_cases:
  obtains (none) f' w' where "snd (request E raw headers (f, w)) = (f', w')" "wbSent w' = wbSent w"
      "wbClock w \<le> wbClock w'" "feInterval f' = feInterval f"
      "feLast f' = feLast f \<or> (\<exists>host. feLast f' = (feLast f)(host \<mapsto> wbClock w') \<and> (\<forall>t. feLast f host = Some t \<longrightarrow> t + feInterval f \<le> wbClock w'))"
  | (sent) f' w' host addrs at' where "snd (request E raw headers (f, w)) = (f', w')"
      "wbSent w' = wbSent w @ [\<lparr>seURL = raw, seHost = host, seAddrs = addrs, seAt = at'\<rparr>]"
      "approved E \<lparr>seURL = raw, seHost = host, seAddrs = addrs, seAt = at'\<rparr>" "wbClock w \<le> at'" "at' \<le> wbClock w'"
      "feLast f' = (feLast f)(host \<mapsto> at')" "\<And>t. feLast f host = Some t \<Longrightarrow> t + feInterval f \<le> at'" "feInterval f' = feInterval f"
proof (cases "weGuard E (wbTick w + 1) raw")
  case (Inl e)
  then show thesis by (intro none[of f "w\<lparr>wbTick := wbTick w + 1\<rparr>"]) (auto simp: request_def)
next
  case (Inr checked)
  let ?host = "uHostname (tgURL checked)" and ?w = "w\<lparr>wbTick := wbTick w + 1\<rparr>"
  obtain fa wa where wt: "wait ?host (f, ?w) = (fa, wa)" by force
  define c where "c = wbClock wa"
  let ?f1 = "f\<lparr>feLast := (feLast f)(?host \<mapsto> c), feFetches := feFetches f + 1\<rparr>" and ?w1 = "?w\<lparr>wbClock := c\<rparr>"
  have fa: "fa = f\<lparr>feLast := (feLast f)(?host \<mapsto> c)\<rparr>" "wa = ?w1" unfolding c_def by (rule wait_fw[OF wt])+
  have c: "wbClock w \<le> c" "\<And>t. feLast f ?host = Some t \<Longrightarrow> t + feInterval f \<le> c"
    using wait_fw(3,4)[OF wt] by (simp_all add: c_def)
  have r: "request E raw headers (f, w) = (if weParse E raw = None then (Inl (fetchErrorOf raw (ErrorNew (lit ''parse''))), ?f1, ?w1)
      else doRequest E raw ?host (tgAddrs checked) headers (?f1, ?w1))"
    using Inr wt by (auto simp: request_def fa Let_def)
  show thesis
  proof (cases "weParse E raw")
    case None
    show thesis by (rule none[of ?f1 ?w1]) (use c None r in auto)
  next
    case (Some u)
    have a: "approved E \<lparr>seURL = raw, seHost = ?host, seAddrs = tgAddrs checked, seAt = c\<rparr>"
      using Inr by (auto simp: approved_def)
    show thesis
    proof (rule sent[of ?f1 "snd (snd (request E raw headers (f, w)))", OF _ _ a])
      show "snd (request E raw headers (f, w)) = (?f1, snd (snd (request E raw headers (f, w))))"
        using Some r doRequest_eq by (metis fst_conv option.distinct(1) prod.collapse)
    qed (use c Some r doRequest_eq[of E raw ?host "tgAddrs checked" headers ?f1 ?w1] in auto)
  qed
qed

interpretation ap: kept_by_requests E "all_approved E" for E
proof
  fix fw :: fstate and raw headers
  obtain f w where fw: "fw = (f, w)" by force
  show "all_approved E fw \<Longrightarrow> all_approved E (snd (request E raw headers fw))"
    unfolding fw by (cases rule: request_cases[of E raw headers f w]) (auto simp: all_approved_def)
qed (auto simp: all_approved_def)

lemma approved_allowed:
  assumes "all_approved E fw" "\<And>n raw. weGuard E n raw = Check (weUnicode E) (weParse E) (lookup n) raw"
  shows "list_all (\<lambda>s. seAddrs s \<noteq> [] \<and> list_all AddrAllowed (seAddrs s)) (wbSent (snd fw))"
proof -
  have "seAddrs s \<noteq> [] \<and> list_all AddrAllowed (seAddrs s)" if s: "approved E s" for s
  proof -
    obtain n t where t: "Check (weUnicode E) (weParse E) (lookup n) (seURL s) = Inr t" "seAddrs s = tgAddrs t"
      using s by (auto simp: approved_def assms(2))
    from Check_addrs[OF t(1)] show ?thesis by (simp add: t(2) list_all_iff)
  qed
  with assms(1) show ?thesis unfolding all_approved_def list_all_iff by blast
qed

text \<open>Everything a fetch sends, redirects and robots.txt included, goes to a URL the guard has passed and
  carries only the addresses it passed for it.  With the program's guard, whatever the resolver answers
  from one lookup to the next, each of those addresses is one that may be fetched.\<close>

theorem Fetch_sends_approved:
  assumes "all_approved E fw" "\<And>n raw. weGuard E n raw = Check (weUnicode E) (weParse E) (lookup n) raw"
  shows "list_all (\<lambda>s. seAddrs s \<noteq> [] \<and> list_all AddrAllowed (seAddrs s)) (wbSent (snd (snd (Fetch E raw revalidate fw))))"
  using approved_allowed[OF ap.Fetch_keeps[OF assms(1)] assms(2)] .

text \<open>Requests to one host are at least the interval apart, and the fetcher's own record of the last one
  is right.\<close>

definition spaced :: "int \<Rightarrow> Sent list \<Rightarrow> bool" where
  "spaced d = sorted_wrt (\<lambda>s t. seHost s = seHost t \<longrightarrow> seAt s + d \<le> seAt t)"

definition well_spaced :: "fstate \<Rightarrow> bool" where
  "well_spaced fw \<longleftrightarrow> spaced (feInterval (fst fw)) (wbSent (snd fw)) \<and>
     (\<forall>s\<in>set (wbSent (snd fw)). \<exists>t. feLast (fst fw) (seHost s) = Some t \<and> seAt s \<le> t) \<and>
     0 \<le> feInterval (fst fw)"

interpretation sp: kept_by_requests E well_spaced for E
proof
  fix fw :: fstate and raw headers
  obtain f w where fw: "fw = (f, w)" by force
  assume "well_spaced fw"
  then have w: "spaced (feInterval f) (wbSent w)" "0 \<le> feInterval f"
    "\<And>s. s \<in> set (wbSent w) \<Longrightarrow> \<exists>t. feLast f (seHost s) = Some t \<and> seAt s \<le> t" by (auto simp: fw well_spaced_def)
  show "well_spaced (snd (request E raw headers fw))" unfolding fw
  proof (cases rule: request_cases[of E raw headers f w])
    case (none f' w')
    have "\<exists>t. feLast f' (seHost s) = Some t \<and> seAt s \<le> t" if s: "s \<in> set (wbSent w)" for s
      using w(3)[OF s] none(5) w(2) by fastforce
    with none w show "well_spaced (snd (request E raw headers (f, w)))" by (simp add: well_spaced_def)
  next
    case (sent f' w' host addrs at')
    have "seAt s + feInterval f \<le> at'" if s: "s \<in> set (wbSent w)" "seHost s = host" for s
      using w(3)[OF s(1)] sent(7) s(2) by fastforce
    moreover have "\<exists>t. feLast f' (seHost s) = Some t \<and> seAt s \<le> t" if s: "s \<in> set (wbSent w')" for s
      using s w(3) sent(2,6) sent(7) w(2) by fastforce
    ultimately show "well_spaced (snd (request E raw headers (f, w)))"
      using sent(1,2,8) w by (simp add: well_spaced_def spaced_def sorted_wrt_append)
  qed
qed (auto simp: well_spaced_def)

text \<open>A host is asked at most once an interval: whatever a fetch does, requests sent to one host are
  at least the configured interval apart.\<close>

theorem Fetch_spaced:
  assumes "well_spaced fw"
  shows "well_spaced (snd (Fetch E raw revalidate fw))"
  using assms by (rule sp.Fetch_keeps)

subsection \<open>robots.txt\<close>

text \<open>Following a page's redirects changes no robots.txt the fetcher holds.\<close>

definition settings :: "Fetcher \<Rightarrow> (gostring \<Rightarrow> byte list option) \<times> gostring \<times> bool \<times> int" where
  "settings f = (feRobots f, feUserAgent f, feIgnoreRobots f, feMaxRedirects f)"

lemma wait_settings: "settings (fst (wait host fw)) = settings (fst fw)"
  by (cases fw) (simp add: wait_def Let_def settings_def split: option.splits)

lemma request_settings: "settings (fst (snd (request E raw headers fw))) = settings (fst fw)"
proof -
  obtain f w where fw: "fw = (f, w)" by force
  show ?thesis
  proof (cases "weGuard E (wbTick w + 1) raw")
    case (Inr checked)
    obtain fa wa where wt: "wait (uHostname (tgURL checked)) (f, w\<lparr>wbTick := wbTick w + 1\<rparr>) = (fa, wa)" by force
    have "settings fa = settings f" using wait_settings[of _ "(f, w\<lparr>wbTick := wbTick w + 1\<rparr>)"] wt by (metis fst_conv)
    with Inr wt show ?thesis by (auto simp: fw request_def Let_def doRequest_eq settings_def)
  qed (simp add: fw request_def)
qed

lemma cache_settings:
  "fst (snd (cacheGet url fw)) = fst fw" "fst (snd (cachePut r fw)) = fst fw" "fst (snd (cacheTouch url fw)) = fst fw"
  "fst (snd (cacheRobots host fw)) = fst fw" "fst (snd (cachePutRobots host rf fw)) = fst fw"
  by (cases fw; simp add: cacheGet_def cachePut_def cacheTouch_def cacheRobots_def cachePutRobots_def split: prod.split option.split)+

lemma settle_settings: "fst (snd (settle E target final res cached fw)) = fst fw"
proof -
  obtain f w where fw: "fw = (f, w)" by force
  have p: "cachePut r (f, w) = (x, f', w') \<Longrightarrow> f' = f" "cacheTouch url (f, w) = (x, f', w') \<Longrightarrow> f' = f" for r url x f' w'
    using cache_settings(2)[of r "(f, w)"] cache_settings(3)[of url "(f, w)"] by auto
  show ?thesis by (auto simp: fw settle_def storeResponse_def split: sum.splits option.splits prod.splits dest: p)
qed

lemma followFrom_settings: "settings (fst (snd (followFrom n E target cached current fw))) = settings (fst fw)"
proof (induction n arbitrary: current fw)
  case 0
  then show ?case by (cases fw) simp
next
  case (Suc n)
  obtain r fw2 where h: "hop E current (conditional cached) fw = (r, fw2)" by (metis prod.exhaust)
  have "settings (fst fw2) = settings (fst fw)"
    using h request_settings[of E current "conditional cached" fw] by (cases fw) (auto simp: hop_def split: if_splits)
  then show ?case using Suc.IH settle_settings by (simp add: h split: sum.splits)
qed

lemma readRobots_settings:
  assumes "readRobots E u stored fw = (r, fw')"
  shows "settings (fst fw') = settings (fst fw)"
proof -
  have from': "settings (fst (snd (fetchRobotsFrom n E current fw))) = settings (fst fw)" for n current fw
  proof (induction n arbitrary: current fw)
    case (Suc n)
    obtain r f w where q: "request E current [] fw = (r, f, w)" by (metis prod.exhaust)
    then have "settings f = settings (fst fw)" using request_settings[of E current "[]" fw] by simp
    then show ?case using Suc.IH by (simp add: q split: sum.splits)
  qed simp
  obtain r1 f w where q: "fetchRobots E (uScheme u @ lit ''://'' @ uHost u @ lit ''/robots.txt'') fw = (r1, f, w)" by (metis prod.exhaust)
  moreover have "fetchRobots E raw fw = fetchRobotsFrom (nat (feMaxRedirects (fst fw) + 1)) E raw fw" for raw
    by (cases fw) (simp add: fetchRobots_def)
  ultimately have s: "settings f = settings (fst fw)" using from' by (metis fst_conv snd_conv)
  have p: "cachePutRobots h rf (f, w) = (x, fw2) \<Longrightarrow> fst fw2 = f" for h rf x fw2 using cache_settings(5)[of h rf "(f, w)"] by simp
  from assms s show ?thesis by (auto simp: readRobots_def q split: sum.splits prod.splits option.splits if_splits dest: p)
qed

text \<open>What is known of a host's robots.txt once it was asked for.\<close>

lemma robotsFor_known:
  assumes "robotsFor E u (f, w) = (Inr body, f', w')"
  shows "feRobots f' (uHostname u) = Some body \<and> feUserAgent f' = feUserAgent f \<and> feIgnoreRobots f' = feIgnoreRobots f"
proof (cases "feRobots f (uHostname u)")
  case (Some b)
  with assms show ?thesis by (simp add: robotsFor_def)
next
  case None
  obtain r f1 w1 where get: "cacheRobots (uHostname u) (f, w) = (r, f1, w1)" by (metis prod.exhaust)
  then have f1: "f1 = f" using cache_settings(4)[of "uHostname u" "(f, w)"] by simp
  have rd: "feUserAgent f2 = feUserAgent f \<and> feIgnoreRobots f2 = feIgnoreRobots f" if "readRobots E u st (f, w1) = (x, f2, w2)" for st x f2 w2
    using readRobots_settings[OF that] by (simp add: settings_def)
  from assms None show ?thesis
    by (auto simp: robotsFor_def get f1 holdRobots_def Let_def split: sum.splits option.splits prod.splits if_splits dest!: rd)
qed


subsection \<open>A fetch, run\<close>

text \<open>A host that serves a page and no robots.txt, reached through a redirect.\<close>

definition ex_web :: Web where
  "ex_web = \<lparr>wbResponses = Map.empty, wbRobots = Map.empty, wbFaults = [], wbClock = 0, wbTick = 0, wbSent = []\<rparr>"

definition ex_parse :: "gostring \<Rightarrow> URL option" where
  "ex_parse s = Some \<lparr>uScheme = lit ''https'', uHasUser = False, uHostname = lit ''d.org'', uPort = [], uHost = lit ''d.org'',
     uPath = drop 13 s, uEscapedPath = drop 13 s, uRawQuery = []\<rparr>"

definition ex_serve :: "gostring \<Rightarrow> goerror + Answer" where
  "ex_serve raw =
     (if raw = lit ''https://d.org/a'' then Inr \<lparr>anStatus = 301, anContentType = [], anETag = [], anLastModified = [],
        anLocation = lit ''https://d.org/b'', anBytes = [], anBroken = False\<rparr>
      else if raw = lit ''https://d.org/b'' then Inr \<lparr>anStatus = 200, anContentType = lit ''text/html'', anETag = [], anLastModified = [],
        anLocation = [], anBytes = [104, 105], anBroken = False\<rparr>
      else Inr \<lparr>anStatus = 404, anContentType = [], anETag = [], anLastModified = [], anLocation = [], anBytes = [], anBroken = False\<rparr>)"

definition ex_env :: WebEnv where
  "ex_env = \<lparr>weUnicode = ascii_unicode, weParse = ex_parse, weResolve = (\<lambda>_ l. Some l), weEqualFold = (=),
     weGuard = (\<lambda>_. Check ascii_unicode ex_parse (\<lambda>_. Some [Addr4 (v4addr 8 8 8 8)])), weServe = (\<lambda>_ raw _. ex_serve raw),
     weTook = (\<lambda>_. 30), weCancelled = (\<lambda>_. False), weAgentAllowed = (\<lambda>body _ _. body = []), weSHA256 = (\<lambda>_. [])\<rparr>"

definition ex_options :: FetchOptions where
  "ex_options = \<lparr>foUserAgent = [], foInterval = 0, foMaxRedirects = 0, foMaxFetches = 0, foMaxBodyBytes = 0, foIgnoreRobots = False\<rparr>"

definition ex_run :: "(goerror + Fetched) \<times> fstate" where
  "ex_run = Fetch ex_env (lit ''https://d.org/a'') True (newFetcher ex_options, ex_web)"

lemma ex_run_eq:
  "map (\<lambda>s. (seURL s, seAt s)) (wbSent (snd (snd ex_run))) =
     [(lit ''https://d.org/robots.txt'', 0), (lit ''https://d.org/a'', 500), (lit ''https://d.org/b'', 1000)]"
  "fst ex_run = Inr \<lparr>ftURL = lit ''https://d.org/a'', ftFinalURL = lit ''https://d.org/b'', ftContentType = lit ''text/html'',
     ftBody = [104, 105], ftStatus = 200, ftFromCache = False\<rparr>"
  by code_simp+

theorem Fetch_sends_approved_witness:
  "length (wbSent (snd (snd ex_run))) = 3 \<and>
   list_all (\<lambda>s. seAddrs s \<noteq> [] \<and> list_all AddrAllowed (seAddrs s)) (wbSent (snd (snd ex_run)))"
proof -
  have h: "all_approved ex_env (newFetcher ex_options, ex_web)"
    "\<And>n raw. weGuard ex_env n raw = Check (weUnicode ex_env) (weParse ex_env) ((\<lambda>_ _. Some [Addr4 (v4addr 8 8 8 8)]) n) raw"
    by (simp_all add: all_approved_def ex_web_def ex_env_def)
  have "length (map (\<lambda>s. (seURL s, seAt s)) (wbSent (snd (snd ex_run)))) = 3" unfolding ex_run_eq by simp
  with Fetch_sends_approved[OF h] show ?thesis by (simp add: ex_run_def)
qed

theorem Fetch_spaced_witness: "well_spaced (snd ex_run)"
  unfolding ex_run_def by (rule Fetch_spaced) (simp add: well_spaced_def spaced_def ex_web_def newFetcher_def ex_options_def orInt_def DefaultInterval_def)


end
