(* ===== verification/Nav_Props.thy ===== *)
theory Nav_Props
  imports Nav Webfetch_Props
begin

text \<open>
  Every page of a crawl is placed once, the sections of one tree differ, and where the placements of two
  trees meet they may not.
\<close>

subsection \<open>Pages and their placements\<close>

fun nodeURLs :: "node \<Rightarrow> gostring list" where
  "nodeURLs (Node t u cs) = (if u = [] then [] else [u]) @ concat (map nodeURLs cs)"

fun pathURLs :: "pathTree \<Rightarrow> gostring list" where
  "pathURLs (PathPage t u) = [u]"
| "pathURLs (PathGroup g kids) = concat (map pathURLs kids)"

lemma addPlacement_urls:
  "set (map plURL (addPlacement E (Node t u cs) sec anc out)) = set (map plURL out) \<union> (if u = [] then {} else {u})"
  "distinct (map plURL out) \<Longrightarrow> distinct (map plURL (addPlacement E (Node t u cs) sec anc out))"
  by (auto simp: addPlacement_def)

lemma walkNodes_urls:
  "set (map plURL (walkNodes E i ns path anc out)) = set (map plURL out) \<union> set (concat (map nodeURLs ns))"
  "distinct (map plURL out) \<Longrightarrow> distinct (map plURL (walkNodes E i ns path anc out))"
proof (induction E i ns path anc out rule: walkNodes.induct)
  case (2 E i title url children items path anc out)
  {
    case 1
    show ?case using "2.IH"(1,3) addPlacement_urls(1)[of E title url children] by (auto simp: Let_def)
  next
    case 2
    then show ?case using "2.IH"(2,4) addPlacement_urls(2)[of out E title url children] by (simp add: Let_def)
  }
qed simp_all

lemma addPath_urls:
  "segs \<noteq> [] \<Longrightarrow> set (concat (map pathURLs (addPath E segs raw trees))) = insert raw (set (concat (map pathURLs trees)))"
  by (induction E segs raw trees rule: addPath.induct) auto

lemma nodeOf_urls: "nodeURLs (nodeOf E t) = filter (\<lambda>u. u \<noteq> []) (pathURLs t)"
  by (induction t) (auto simp: filter_concat comp_def intro!: arg_cong[of _ _ concat])

lemma addURL_urls: "set (concat (map pathURLs (addURL E d trees raw))) = insert raw (set (concat (map pathURLs trees)))"
  using addPath_urls[of "drop d (segmentsOf E raw)"] by (auto simp: addURL_def Let_def)

lemma urlPathTree_urls: "set (concat (map nodeURLs (urlPathTree E urls seed))) = set urls - {[]}"
proof -
  have "set (concat (map pathURLs (foldl (addURL E d) trees urls))) = set (concat (map pathURLs trees)) \<union> set urls" for d trees
  proof (induction urls arbitrary: trees)
    case (Cons u us)
    then show ?case using addURL_urls[of E d trees u] by simp
  qed simp
  from this[of _ "[]"] show ?thesis by (auto simp: urlPathTree_def nodeOf_urls)
qed

lemma flatten_urls:
  "set (map plURL (flatten E ns path)) = set (concat (map nodeURLs ns))" "distinct (map plURL (flatten E ns path))"
  using walkNodes_urls(1)[of E 0 ns path "[]" "[]"] walkNodes_urls(2)[of "[]" E 0 ns path "[]"] by (simp_all add: flatten_def)

lemma place_urls:
  assumes "distinct (map plURL (caPlacements best))" "[] \<notin> set coverage"
  shows "distinct (map plURL (hiPlacements (place E best coverage seed notes))) \<and>
    set (map plURL (hiPlacements (place E best coverage seed notes))) = set coverage"
proof -
  let ?kept = "filter (\<lambda>p. plURL p \<in> set coverage) (caPlacements best)"
  let ?missing = "filter (\<lambda>u. u \<notin> set (map plURL ?kept)) coverage"
  let ?rest = "flatten E (urlPathTree E ?missing seed) (show_nat (length ?kept + 1))"
  have k: "distinct (map plURL ?kept)" using assms(1) by (simp add: distinct_map inj_on_def)
  have r: "set (map plURL ?rest) = set ?missing" "distinct (map plURL ?rest)"
    using flatten_urls[of E "urlPathTree E ?missing seed"] urlPathTree_urls[of E ?missing seed] assms(2) by auto
  have u: "set (map plURL ?kept) \<union> set ?missing = set coverage" by auto
  have d: "set (map plURL ?kept) \<inter> set ?missing = {}" by auto
  show ?thesis
  proof (cases "?missing = []")
    case True
    then have "hiPlacements (place E best coverage seed notes) = ?kept" by (simp add: place_def Let_def)
    moreover have "set (map plURL ?kept) = set coverage" using u unfolding True by simp
    ultimately show ?thesis using k by simp
  next
    case False
    then have "hiPlacements (place E best coverage seed notes) = ?kept @ ?rest" by (auto simp: place_def Let_def)
    with k r u d show ?thesis by (simp only: map_append distinct_append set_append)
  qed
qed

lemma bestCandidate_distinct: "distinct (map plURL (caPlacements (fst (bestCandidate E page seed coverage))))"
proof -
  have "distinct (map plURL (caPlacements (fst b))) \<Longrightarrow> distinct (map plURL (caPlacements (fst (tryTree E coverage b t))))" for b t
    using flatten_urls(2)[of E "fst t" "[]"] by (auto simp: tryTree_def Let_def split: prod.splits)
  then show ?thesis by (simp add: bestCandidate_def Let_def split: option.splits)
qed

lemma Derive_places:
  assumes "[] \<notin> set coverage"
  shows "distinct (map plURL (hiPlacements (Derive E coverage seed page))) \<and>
    set (map plURL (hiPlacements (Derive E coverage seed page))) = set coverage"
proof (cases "coverage = []")
  case False
  obtain best ns where b: "bestCandidate E page seed coverage = (best, ns)" by force
  then have d: "distinct (map plURL (caPlacements best))" using bestCandidate_distinct[of E page seed coverage] by simp
  show ?thesis
  proof (cases "caShare best < minCoverage")
    case True
    then show ?thesis
      using flatten_urls[of E "urlPathTree E coverage seed" "[]"] urlPathTree_urls[of E coverage seed] assms False
      by (simp add: Derive_def b Let_def)
  next
    case share: False
    then have "Derive E coverage seed page = place E best coverage seed ns" using False by (simp add: Derive_def b Let_def)
    then show ?thesis using place_urls[OF d assms] by simp
  qed
qed (simp add: Derive_def)

text \<open>Every page of the crawl is placed, and once: whichever source the tree came from, the placements
  name exactly the pages they were asked for, those no navigation mentions included.\<close>

theorem Derive_places_all:
  assumes "[] \<notin> set coverage"
  shows "distinct (map plURL (hiPlacements (Derive E coverage seed page))) \<and>
    set (map plURL (hiPlacements (Derive E coverage seed page))) = set coverage"
  using assms by (rule Derive_places)

theorem Derive_places_all_witness:
  "set (map plURL (hiPlacements (Derive ex_env [lit ''https://d.org/b'', lit ''https://d.org/a''] (lit ''https://d.org/'') None))) =
     {lit ''https://d.org/b'', lit ''https://d.org/a''}"
proof -
  have "[] \<notin> set [lit ''https://d.org/b'', lit ''https://d.org/a'']" by (simp add: lit_def)
  from Derive_places_all[OF this] show ?thesis by simp
qed

subsection \<open>Section numbers\<close>

text \<open>A section lies under another when it is that section or a subsection of it.\<close>

definition beneath :: "gostring \<Rightarrow> gostring \<Rightarrow> bool" where
  "beneath p s \<longleftrightarrow> s = p \<or> (\<exists>t. s = p @ 46 # t)"

lemma show_nat_no_dot: "r \<in> set (show_nat n) \<Longrightarrow> r \<noteq> 46"
proof (induction n rule: show_nat.induct)
  case (1 n)
  then show ?case by (cases "n < 10") (auto simp: show_nat_small show_nat_ge simp del: show_nat.simps)
qed

lemma sectionAt_ne: "sectionAt path k \<noteq> []"
  by (cases "k < 10") (simp_all add: sectionAt_def show_nat_small show_nat_ge del: show_nat.simps)

lemma under_sectionAt: "path \<noteq> [] \<Longrightarrow> beneath (sectionAt path k) s \<Longrightarrow> beneath path s \<and> s \<noteq> path"
  by (auto simp: beneath_def sectionAt_def lit_def)

lemma digits_stop:
  fixes a b x y :: "int list"
  assumes "a @ x = b @ y" "46 \<notin> set a" "46 \<notin> set b" "x = [] \<or> hd x = 46" "y = [] \<or> hd y = 46"
  shows "a = b"
proof -
  have tw: "takeWhile (\<lambda>r. r \<noteq> 46) (c @ z) = c" if "46 \<notin> set c" "z = [] \<or> hd z = 46" for c z :: "int list"
    using that by (cases z) (auto simp: takeWhile_append2 takeWhile_append)
  show ?thesis using tw[OF assms(2,4)] tw[OF assms(3,5)] assms(1) by simp
qed

lemma under_unique:
  assumes "beneath (sectionAt path j) s" "beneath (sectionAt path k) s"
  shows "j = k"
proof -
  obtain x y where x: "s = sectionAt path j @ x" "x = [] \<or> hd x = 46" and y: "s = sectionAt path k @ y" "y = [] \<or> hd y = 46"
    using assms by (fastforce simp: beneath_def)
  have e: "show_nat j @ x = show_nat k @ y"
    using x(1) y(1) by (cases "path = []") (simp_all add: sectionAt_def del: show_nat.simps)
  have "show_nat j = show_nat k" by (rule digits_stop[OF e]) (use x(2) y(2) show_nat_no_dot in \<open>blast+\<close>)
  then show ?thesis by (rule show_nat_inj)
qed

lemma walkNodes_sections:
  "\<exists>new. walkNodes E i ns path anc out = out @ new \<and> distinct (map plSection new) \<and>
     (\<forall>p\<in>set new. \<exists>k>i. beneath (sectionAt path k) (plSection p))"
proof (induction E i ns path anc out rule: walkNodes.induct)
  case (2 E i title url children items path anc out)
  let ?sec = "sectionAt path (i + 1)"
  define out1 where "out1 = addPlacement E (Node title url children) ?sec anc out"
  let ?next = "if title \<noteq> [] then anc @ [title] else anc"
  obtain own where own: "out1 = out @ own" "own = [] \<or> (\<exists>p. own = [p] \<and> plSection p = ?sec)"
    unfolding out1_def addPlacement_def by (cases "url = [] \<or> url \<in> set (map plURL out)") (auto simp del: show_nat.simps)
  obtain kids where kids: "walkNodes E 0 children ?sec ?next out1 = out1 @ kids" "distinct (map plSection kids)"
    "\<forall>p\<in>set kids. \<exists>k>0. beneath (sectionAt ?sec k) (plSection p)"
    using "2.IH"(1)[OF refl out1_def refl] by auto
  obtain rest where rest: "walkNodes E (i + 1) items path anc (out1 @ kids) = (out1 @ kids) @ rest" "distinct (map plSection rest)"
    "\<forall>p\<in>set rest. \<exists>k>i + 1. beneath (sectionAt path k) (plSection p)"
    using "2.IH"(2)[OF refl out1_def refl kids(1)[symmetric]] by auto
  have k: "beneath ?sec (plSection p) \<and> plSection p \<noteq> ?sec" if "p \<in> set kids" for p
    using kids(3) that under_sectionAt[OF sectionAt_ne] by blast
  have o: "plSection p = ?sec" if "p \<in> set own" for p using own(2) that by auto
  have under_sec: "beneath ?sec (plSection p)" if "p \<in> set (own @ kids)" for p using that k o by (auto simp: beneath_def)
  have "?sec \<notin> plSection ` set kids" using k by force
  then have "distinct (map plSection (own @ kids))" using own(2) kids(2) by auto
  moreover have "plSection p \<noteq> plSection q" if "p \<in> set (own @ kids)" "q \<in> set rest" for p q
    using under_sec[OF that(1)] rest(3) that(2) under_unique by fastforce
  ultimately have "distinct (map plSection (own @ kids @ rest))" using rest(2) by (auto simp: image_iff)
  moreover have "walkNodes E i (Node title url children # items) path anc out = out @ own @ kids @ rest"
    unfolding walkNodes.simps Let_def out1_def[symmetric] kids(1) rest(1) by (simp add: own(1))
  moreover have "\<forall>p\<in>set (own @ kids @ rest). \<exists>k>i. beneath (sectionAt path k) (plSection p)"
  proof
    fix p assume "p \<in> set (own @ kids @ rest)"
    then consider "p \<in> set (own @ kids)" | "p \<in> set rest" by auto
    then show "\<exists>k>i. beneath (sectionAt path k) (plSection p)"
    proof cases
      case 1
      show ?thesis by (rule exI[of _ "i + 1"]) (simp add: under_sec[OF 1, simplified])
    next
      case 2
      then obtain k where "k > i + 1" "beneath (sectionAt path k) (plSection p)" using rest(3) by blast
      then show ?thesis by (intro exI[of _ k]) simp
    qed
  qed
  ultimately show ?case by blast
qed simp

text \<open>The numbering of one tree gives every page it places a section of its own.\<close>

theorem flatten_sections_distinct: "distinct (map plSection (flatten E nodes path))"
  using walkNodes_sections[of E 0 nodes path "[]" "[]"] by (auto simp: flatten_def)

definition ex_sidebar :: SeedPage where
  "ex_sidebar = \<lparr>sdContainers = [\<lparr>ncLinks = [(lit ''https://d.org/old'', lit ''Old''), (lit ''https://d.org/p'', lit ''P'')],
     ncItems = [NavItem (Some (lit ''https://d.org/old'', lit ''Old'')) [] [],
                NavItem None (lit ''Guide'') [NavItem (Some (lit ''https://d.org/p'', lit ''P'')) [] []]]\<rparr>], sdElements = []\<rparr>"


text \<open>A title read from a slug that begins beyond ASCII is garbled: each byte of the letter is replaced.\<close>

lemma titleWord_garbled: "128 \<le> r \<Longrightarrow> titleWord U (r # w) = replicate (runeLen r) 0xFFFD @ map (uToLower U) w"
  by (simp add: titleWord_def)

end
