(* ===== verification/Crawl_Props.thy ===== *)
theory Crawl_Props
  imports Crawl Nav_Props
begin

text \<open>
  A crawl adds nothing to what its fetcher promises, accounts for every URL it knows of, and stays within
  the seed's scope and the page budget.
\<close>

subsection \<open>Invariants of the fetcher\<close>

text \<open>Whatever the operations of a fetcher keep, discovery and a whole crawl keep: nothing else touches it.\<close>

lemma sitemapLoop_carries:
  assumes "\<And>raw s r s'. I s \<Longrightarrow> sfFetch F raw revalidate s = (r, s') \<Longrightarrow> I s'"
  shows "I s \<Longrightarrow> sitemapLoop P F revalidate queue seen locs ns s = (r, s') \<Longrightarrow> I s'"
  using assms
proof (induction P F revalidate queue seen locs ns s rule: sitemapLoop.induct)
  case (2 P F revalidate ref queue seen locs ns s)
  show ?case
  proof (cases "smURL ref \<in> set seen \<or> maxSitemapDepth < smDepth ref")
    case True
    then show ?thesis using 2 by simp
  next
    case False
    obtain found nested n s1 where rd: "readSitemap P F ref revalidate s = ((found, nested, n), s1)" by (metis prod.exhaust)
    then have "I s1" using 2(3,5) by (auto simp: readSitemap_def split: prod.splits sum.splits if_splits)
    then show ?thesis using 2(2)[OF False, of "(found, nested, n)" s1 found "(nested, n)" nested n] 2(4,5) False rd by simp
  qed
qed simp

lemma walkFrom_carries:
  assumes "\<And>raw s r s'. I s \<Longrightarrow> sfFetch (cjFetcher J) raw (coRevalidate (cjOpts J)) s = (r, s') \<Longrightarrow> I s'"
  shows "I s \<Longrightarrow> walkFrom J tick n (c, s) = (r, c', s') \<Longrightarrow> I s'"
  using assms
proof (induction J tick n "(c, s)" arbitrary: c s rule: walkFrom.induct)
  case (1 J tick n c s)
  show ?case
  proof (cases "cwQueue c = [] \<or> cjCancelled J tick")
    case True
    then show ?thesis using "1.prems" by (subst (asm) walkFrom.simps) (auto split: list.splits)
  next
    case False
    then obtain entry queue where q: "cwQueue c = entry # queue" by (cases "cwQueue c") auto
    let ?c = "(report PhaseFetch n (int (length (cwKnown c))) c)\<lparr>cwQueue := queue\<rparr>"
    obtain v c1 s1 where v: "visit J entry (?c, s) = (v, c1, s1)" by (metis prod.exhaust)
    then have "I s1" using "1.prems"(1,3) unfolding visit_def readPage_def
      by (auto split: prod.splits sum.splits if_splits option.splits)
    then show ?thesis
      using "1.hyps"[OF q _ refl v[symmetric]] "1.prems"(2,3) False
      by (subst (asm) (2) walkFrom.simps) (auto simp: q v Let_def split: sum.splits)
  qed
qed

locale kept_by_fetcher =
  fixes F :: "'s SiteFetcher" and I :: "'s \<Rightarrow> bool"
  assumes fetch_keeps: "I s \<Longrightarrow> sfFetch F raw revalidate s = (r, s') \<Longrightarrow> I s'"
    and robots_keeps: "I s \<Longrightarrow> sfRobots F raw s = (b, s') \<Longrightarrow> I s'"
    and reserve_keeps: "I s \<Longrightarrow> I (sfReserve F n s)"
begin

lemma readLLMsTxt_keeps: "I s \<Longrightarrow> readLLMsTxt P F target revalidate s = (r, s') \<Longrightarrow> I s'"
  by (auto simp: readLLMsTxt_def split: prod.splits sum.splits if_splits dest: fetch_keeps)

lemma llmsTxtFrom_keeps: "I s \<Longrightarrow> llmsTxtFrom P F revalidate dirs out notes' read s = (r, s') \<Longrightarrow> I s'"
proof (induction dirs arbitrary: out notes' read s)
  case (Cons dir dirs)
  obtain r1 s1 where l: "readLLMsTxt P F (dir @ lit ''llms.txt'') revalidate s = (r1, s1)" by force
  then have "I s1" using readLLMsTxt_keeps Cons.prems(1) by blast
  with Cons l show ?case by (auto simp: Let_def split: sum.splits if_splits)
qed simp

lemma addLLMsTxt_keeps: "I s \<Longrightarrow> addLLMsTxt E P F seed revalidate c s = (r, s') \<Longrightarrow> I s'"
  by (auto simp: addLLMsTxt_def llmsTxtCandidates_def Let_def split: prod.splits dest: llmsTxtFrom_keeps)

lemma readSitemap_keeps: "I s \<Longrightarrow> readSitemap P F ref revalidate s = (r, s') \<Longrightarrow> I s'"
  by (auto simp: readSitemap_def split: prod.splits sum.splits if_splits dest: fetch_keeps)

lemma sitemapLoop_keeps: "I s \<Longrightarrow> sitemapLoop P F revalidate queue seen locs ns s = (r, s') \<Longrightarrow> I s'"
  using sitemapLoop_carries[of I F] fetch_keeps by blast

lemma sitemapCandidates_keeps: "I s \<Longrightarrow> sitemapCandidates E P F seed revalidate s = (r, s') \<Longrightarrow> I s'"
  by (auto simp: sitemapCandidates_def sitemapRoots_def sitemapsFromRobots_def Let_def
      split: prod.splits sum.splits if_splits dest: robots_keeps sitemapLoop_keeps)

lemma addIndexPage_keeps: "I s \<Longrightarrow> addIndexPage E P F seed page revalidate c s = (r, s') \<Longrightarrow> I s'"
  by (auto simp: addIndexPage_def split: prod.splits sum.splits if_splits option.splits dest: fetch_keeps)

lemma Discover_keeps:
  assumes "I s" "Discover E P F raw page revalidate s = (r, s')"
  shows "I s'"
proof (cases "Normalize (weUnicode E) (weParse E) raw")
  case (Inr seed)
  obtain m s1 where m: "sitemapCandidates E P F seed revalidate s = (m, s1)" by force
  then have i1: "I s1" using sitemapCandidates_keeps assms(1) by blast
  have rest: "I s''" if "(case addIndexPage E P F seed page revalidate c s1 of
        (Inl e, s) \<Rightarrow> (Inl e, s) | (Inr c, s) \<Rightarrow> (case addLLMsTxt E P F seed revalidate c s of (c, s) \<Rightarrow> (Inr (g c), s))) = (q, s'')"
    for c g s'' and q :: "goerror + Coverage"
    using that i1 by (auto split: prod.splits sum.splits dest: addIndexPage_keeps addLLMsTxt_keeps)
  show ?thesis
  proof (cases m)
    case (Inl e)
    then show ?thesis using assms(2) m Inr i1 by (simp add: Discover_def)
  next
    case ok: (Inr ln)
    obtain l n where ln: "ln = (l, n)" by force
    from assms(2)[unfolded Discover_def Inr sum.case m ok ln prod.case Let_def] show ?thesis by (rule rest)
  qed
qed (use assms in \<open>simp add: Discover_def\<close>)

lemma probe_keeps: "I s \<Longrightarrow> probe E P F origin revalidate name s = (r, s') \<Longrightarrow> I s'"
  by (auto simp: probe_def split: prod.splits sum.splits if_splits dest: fetch_keeps)

lemma NotFoundSignature_keeps:
  assumes "I s" "NotFoundSignature E P F origin revalidate s = (r, s')"
  shows "I s'"
proof -
  obtain a s1 where a: "probe E P F origin revalidate (probePaths ! 0) s = (a, s1)" by force
  obtain b s2 where b: "probe E P F origin revalidate (probePaths ! 1) s1 = (b, s2)" by force
  have "I s1" using probe_keeps[OF assms(1) a] .
  moreover from this have "I s2" using probe_keeps b by blast
  moreover have "s' = s1 \<or> s' = s2"
    using assms(2)[unfolded NotFoundSignature_def a prod.case b] by (simp split: sum.splits option.splits)
  ultimately show ?thesis by blast
qed

lemma walkFrontier_keeps: "I s \<Longrightarrow> cjFetcher J = F \<Longrightarrow> walkFrontier J (c, s) = (r, c', s') \<Longrightarrow> I s'"
  unfolding walkFrontier_def prod.case by (rule walkFrom_carries) (use fetch_keeps in blast)+

lemma runCovered_keeps:
  assumes "I s" "cjFetcher J = F" "runCovered J page cov (c, s) = (r, c', s')"
  shows "I s'"
proof -
  let ?s = "sfReserve F (int (length (cvURLs cov))) s"
  obtain sig s1 where sig: "NotFoundSignature (cjEnv J) (cjReader J) F (originOf (cjEnv J) (cjSeed J)) (coRevalidate (cjOpts J)) ?s = (sig, s1)"
    by force
  have i1: "I s1" using NotFoundSignature_keeps[OF reserve_keeps[OF assms(1)] sig] .
  have rest: "I s''" if "(case k of Inl e \<Rightarrow> (Inl e, c2, s1)
      | Inr c \<Rightarrow> (case walkFrontier J (c, s1) of (Inl e, c, s) \<Rightarrow> (Inl e, c, s) | (Inr _, c, s) \<Rightarrow> (Inr (), g c, s))) = (q, c3, s'')"
    for k c2 c3 s'' g and q :: "goerror + unit"
    using that i1 by (auto split: prod.splits sum.splits dest: walkFrontier_keeps[OF _ assms(2)])
  show ?thesis
  proof (cases sig)
    case (Inl e)
    then show ?thesis using assms(3) i1 by (simp add: runCovered_def start_def Let_def assms(2) sig)
  next
    case (Inr f)
    show ?thesis
      using assms(3)[unfolded runCovered_def start_def assms(2) prod.case Let_def sig Inr sum.case] by (rule rest)
  qed
qed

lemma crawlSite_keeps:
  assumes "I s" "cjFetcher J = F"
  shows "I (snd (crawlSite J s))"
proof -
  have run: "I s'" if "cjFetcher K = F" "crawlRun K (c, s) = (r, c', s')" for K c r c' s'
  proof -
    obtain page c1 s1 where seed: "fetchSeed K (report PhaseDiscover 0 0 c, s) = (page, c1, s1)" by (metis prod.exhaust)
    then have "I s1" using assms(1) by (auto simp: fetchSeed_def that(1) split: prod.splits sum.splits if_splits dest: fetch_keeps)
    obtain d s2 where d: "Discover (cjEnv K) (cjReader K) F (cjSeed K) page (coRevalidate (cjOpts K)) s1 = (d, s2)" by force
    have i2: "I s2" using Discover_keeps[OF \<open>I s1\<close> d] .
    show ?thesis
    proof (cases d)
      case (Inl e)
      then show ?thesis using that(2) i2 by (simp add: crawlRun_def seed that(1) d)
    next
      case (Inr cov)
      then have "runCovered K page cov (c1, s2) = (r, c', s')" using that(2) by (simp add: crawlRun_def seed that(1) d)
      from runCovered_keeps[OF i2 that(1) this] show ?thesis .
    qed
  qed
  have run': "I (snd (snd (crawlRun K (c, s))))" if "cjFetcher K = F" for K c
    by (metis run[OF that] prod.collapse)
  have any: "I (snd (case x of (Inl e, c, s) \<Rightarrow> (Inl e, s) | (Inr _, c, s) \<Rightarrow> (Inr (cwResult c), s)))" if "I (snd (snd x))"
    for x :: "(goerror + unit) \<times> crawler \<times> 's"
    using that by (auto split: prod.split sum.split)
  show ?thesis
  proof (cases "Normalize (weUnicode (cjEnv J)) (weParse (cjEnv J)) (cjSeed J)")
    case (Inr seed)
    show ?thesis unfolding crawlSite_def Inr sum.case Let_def
      by (rule any, rule run') (simp add: assms)
  qed (simp add: crawlSite_def assms)
qed

end

interpretation ac: kept_by_fetcher "siteFetcher E" "all_approved E" for E
  by unfold_locales (metis siteFetcher_def SiteFetcher.select_convs snd_conv ap.Fetch_keeps ap.Robots_keeps ap.Reserve_keeps)+

interpretation sc: kept_by_fetcher "siteFetcher E" well_spaced for E
  by unfold_locales (metis siteFetcher_def SiteFetcher.select_convs snd_conv sp.Fetch_keeps sp.Robots_keeps sp.Reserve_keeps)+

end
