(* ===== verification/Frontier.thy ===== *)
theory Frontier
  imports Crawl_Props
begin

text \<open>
  The frontier of a crawl: every URL it knows of ends as a page, a merge or an unreachable entry, pages lie
  in scope, and links are added within the budget.
\<close>

subsection \<open>The invariant of the walk\<close>

text \<open>What the invariant speaks of.\<close>

definition pageURLs :: "crawler \<Rightarrow> gostring list" where "pageURLs c = map fst (crPages (cwResult c))"
definition queuedURLs :: "crawler \<Rightarrow> gostring list" where "queuedURLs c = map enURL (cwQueue c)"
definition lostURLs :: "crawler \<Rightarrow> gostring list" where "lostURLs c = map fst (crUnreachable (cwResult c))"
definition mergedURLs :: "crawler \<Rightarrow> gostring list" where "mergedURLs c = map fst (crMerges (cwResult c))"
definition visitOrder :: "crawler \<Rightarrow> gostring list" where "visitOrder c = crOrder (cwResult c)"

definition pagesOwn :: "crawler \<Rightarrow> bool" where "pagesOwn c = (\<forall>kp\<in>set (crPages (cwResult c)). pgURL (snd kp) = fst kp)"

lemmas view_defs = pageURLs_def queuedURLs_def lostURLs_def mergedURLs_def visitOrder_def pagesOwn_def
lemmas crawler_ops = onResult_def crawlNote_def unreachable_def report_def know_def mergeInto_def putPage_def

lemma hasPage_iff: "hasPage c u \<longleftrightarrow> u \<in> set (pageURLs c)"
  by (simp add: hasPage_def view_defs)

lemma note_views [simp]:
  "crCoverage (cwResult (crawlNote n c)) = crCoverage (cwResult c)" "pagesOwn (crawlNote n c) = pagesOwn c"
  "pageURLs (crawlNote n c) = pageURLs c" "queuedURLs (crawlNote n c) = queuedURLs c" "lostURLs (crawlNote n c) = lostURLs c"
  "mergedURLs (crawlNote n c) = mergedURLs c" "visitOrder (crawlNote n c) = visitOrder c" "cwKnown (crawlNote n c) = cwKnown c"
  by (simp_all add: view_defs crawler_ops)

lemma report_views [simp]:
  "crCoverage (cwResult (report p n m c)) = crCoverage (cwResult c)" "pagesOwn (report p n m c) = pagesOwn c"
  "pageURLs (report p n m c) = pageURLs c" "queuedURLs (report p n m c) = queuedURLs c" "lostURLs (report p n m c) = lostURLs c"
  "mergedURLs (report p n m c) = mergedURLs c" "visitOrder (report p n m c) = visitOrder c" "cwKnown (report p n m c) = cwKnown c"
  "cwQueue (report p n m c) = cwQueue c"
  by (simp_all add: view_defs crawler_ops)

lemma unreachable_views [simp]:
  "crCoverage (cwResult (unreachable u r c)) = crCoverage (cwResult c)" "pagesOwn (unreachable u r c) = pagesOwn c"
  "pageURLs (unreachable u r c) = pageURLs c" "queuedURLs (unreachable u r c) = queuedURLs c"
  "lostURLs (unreachable u r c) = lostURLs c @ [u]" "mergedURLs (unreachable u r c) = mergedURLs c"
  "visitOrder (unreachable u r c) = visitOrder c" "cwKnown (unreachable u r c) = cwKnown c"
  by (simp_all add: view_defs crawler_ops)

lemma merge_views [simp]:
  "crCoverage (cwResult (mergeInto u v c)) = crCoverage (cwResult c)" "pagesOwn (mergeInto u v c) = pagesOwn c"
  "pageURLs (mergeInto u v c) = pageURLs c" "queuedURLs (mergeInto u v c) = queuedURLs c"
  "lostURLs (mergeInto u v c) = lostURLs c" "mergedURLs (mergeInto u v c) = mergedURLs c @ [u]"
  "visitOrder (mergeInto u v c) = visitOrder c" "cwKnown (mergeInto u v c) = cwKnown c"
  by (simp_all add: view_defs crawler_ops)

lemma know_views [simp]:
  "crCoverage (cwResult (know u c)) = crCoverage (cwResult c)" "pagesOwn (know u c) = pagesOwn c"
  "pageURLs (know u c) = pageURLs c" "queuedURLs (know u c) = queuedURLs c" "lostURLs (know u c) = lostURLs c"
  "mergedURLs (know u c) = mergedURLs c" "visitOrder (know u c) = visitOrder c"
  by (simp_all add: view_defs crawler_ops)

lemma put_views [simp]:
  "crCoverage (cwResult (onResult (putPage u p) c)) = crCoverage (cwResult c)"
  "pageURLs (onResult (putPage u p) c) = filter (\<lambda>k. k \<noteq> u) (pageURLs c) @ [u]"
  "queuedURLs (onResult (putPage u p) c) = queuedURLs c" "lostURLs (onResult (putPage u p) c) = lostURLs c"
  "mergedURLs (onResult (putPage u p) c) = mergedURLs c" "visitOrder (onResult (putPage u p) c) = visitOrder c @ [u]"
  "cwKnown (onResult (putPage u p) c) = cwKnown c"
  by (simp_all add: view_defs crawler_ops filter_map comp_def)

lemma put_own: "pgURL p = u \<Longrightarrow> pagesOwn c \<Longrightarrow> pagesOwn (onResult (putPage u p) c)"
  by (auto simp: view_defs crawler_ops)

lemma own_empty: "pageURLs c = [] \<Longrightarrow> pagesOwn c"
  by (simp add: view_defs)

lemma queue_views [simp]:
  "pagesOwn (c\<lparr>cwQueue := q\<rparr>) = pagesOwn c" "pagesOwn (c\<lparr>cwKnown := k\<rparr>) = pagesOwn c"
  "pageURLs (c\<lparr>cwQueue := q\<rparr>) = pageURLs c" "queuedURLs (c\<lparr>cwQueue := q\<rparr>) = map enURL q" "lostURLs (c\<lparr>cwQueue := q\<rparr>) = lostURLs c"
  "mergedURLs (c\<lparr>cwQueue := q\<rparr>) = mergedURLs c" "visitOrder (c\<lparr>cwQueue := q\<rparr>) = visitOrder c"
  "pageURLs (c\<lparr>cwKnown := k\<rparr>) = pageURLs c" "queuedURLs (c\<lparr>cwKnown := k\<rparr>) = queuedURLs c" "lostURLs (c\<lparr>cwKnown := k\<rparr>) = lostURLs c"
  "mergedURLs (c\<lparr>cwKnown := k\<rparr>) = mergedURLs c" "visitOrder (c\<lparr>cwKnown := k\<rparr>) = visitOrder c"
  by (simp_all add: view_defs)

lemma signature_views [simp]:
  "pagesOwn (c\<lparr>cwSignature := g\<rparr>) = pagesOwn c"
  "pageURLs (c\<lparr>cwSignature := g\<rparr>) = pageURLs c" "queuedURLs (c\<lparr>cwSignature := g\<rparr>) = queuedURLs c" "lostURLs (c\<lparr>cwSignature := g\<rparr>) = lostURLs c"
  "mergedURLs (c\<lparr>cwSignature := g\<rparr>) = mergedURLs c" "visitOrder (c\<lparr>cwSignature := g\<rparr>) = visitOrder c"
  by (simp_all add: view_defs)

text \<open>A known URL is settled when it waits in the queue, has a page, was merged or could not be read.\<close>

definition settled :: "crawler \<Rightarrow> gostring \<Rightarrow> bool" where
  "settled c u \<longleftrightarrow> u \<in> set (queuedURLs c) \<or> u \<in> set (pageURLs c) \<or> u \<in> set (lostURLs c) \<or> u \<in> set (mergedURLs c)"

text \<open>\<open>D\<close> is the coverage, \<open>now\<close> the URL being visited, if any.\<close>

definition crawl_ok :: "'s CrawlJob \<Rightarrow> Coverage \<Rightarrow> gostring option \<Rightarrow> crawler \<Rightarrow> bool" where
  "crawl_ok J D now c \<longleftrightarrow>
     crCoverage (cwResult c) = D \<and> distinct (cwKnown c) \<and> set (cvURLs D) \<subseteq> set (cwKnown c) \<and> distinct (visitOrder c) \<and> pageURLs c = visitOrder c \<and> pagesOwn c \<and>
     set (visitOrder c) \<subseteq> set (cwKnown c) \<and> set (queuedURLs c) \<subseteq> set (cwKnown c) \<and>
     (\<forall>u\<in>set (cwKnown c). now \<noteq> Some u \<longrightarrow> settled c u) \<and>
     (\<forall>u\<in>set (cwKnown c). u \<in> set (cvURLs D) \<or> u = cjSeed J \<or> u \<noteq> [] \<and> InPrefixScope (cjEnv J) u (cjSeed J)) \<and>
     int (length (cwKnown c)) \<le> max (coMaxPages (cjOpts J)) (int (length (cvURLs D)) + 1) + int (length (mergedURLs c))"

lemma crawlNote_ok [simp]: "crawl_ok J D now (crawlNote n c) = crawl_ok J D now c"
  by (simp add: crawl_ok_def settled_def)

lemma report_ok [simp]: "crawl_ok J D now (report p n m c) = crawl_ok J D now c"
  by (simp add: crawl_ok_def settled_def)

lemma unreachable_ok: "crawl_ok J D (Some u) c \<Longrightarrow> crawl_ok J D None (unreachable u reason c)"
  by (auto simp: crawl_ok_def settled_def)

lemma take_ok:
  assumes "crawl_ok J D None c" "cwQueue c = entry # queue"
  shows "crawl_ok J D (Some (enURL entry)) (c\<lparr>cwQueue := queue\<rparr>)"
proof -
  have "queuedURLs c = enURL entry # map enURL queue" by (simp add: queuedURLs_def assms(2))
  then show ?thesis using assms(1) by (auto simp: crawl_ok_def settled_def)
qed

lemma settled_ok: "crawl_ok J D (Some u) c \<Longrightarrow> settled c u \<Longrightarrow> crawl_ok J D None c"
  by (auto simp: crawl_ok_def)

lemma merge_ok: "crawl_ok J D (Some u) c \<Longrightarrow> crawl_ok J D None (mergeInto u v c)"
  by (auto simp: crawl_ok_def settled_def)

text \<open>A merge pays for the canonical URL it makes known.\<close>

lemma know_merged_ok:
  assumes "crawl_ok J D (Some u) c" "v \<noteq> []" "InPrefixScope (cjEnv J) v (cjSeed J)"
  shows "crawl_ok J D (Some v) (know v (mergeInto u v c))"
  using assms by (auto simp: crawl_ok_def settled_def know_def)

lemma putPage_ok:
  assumes "crawl_ok J D (Some u) c" "u \<in> set (cwKnown c)" "\<not> hasPage c u" "pgURL page = u"
  shows "crawl_ok J D None (onResult (putPage u page) c)"
proof -
  have "filter (\<lambda>k. k \<noteq> u) (pageURLs c) = pageURLs c" using assms(3) by (auto simp: hasPage_iff intro!: filter_True)
  moreover have "pagesOwn c \<Longrightarrow> pagesOwn (onResult (putPage u page) c)" using assms(4) by (rule put_own)
  ultimately show ?thesis using assms(1-3) by (auto simp: crawl_ok_def settled_def hasPage_iff)
qed

lemma queueEach_ok:
  assumes "crawl_ok J D None c" "[] \<notin> set links"
  shows "crawl_ok J D None (queueEach J entry links c)"
  using assms
proof (induction J entry links c rule: queueEach.induct)
  case (2 J entry link links c)
  let ?c = "c\<lparr>cwKnown := cwKnown c @ [link], cwQueue := cwQueue c @ [\<lparr>enURL = link, enDepth = enDepth entry + 1\<rparr>]\<rparr>"
  show ?case
  proof (cases "coMaxPages (cjOpts J) \<le> int (length (cwKnown c)) \<or> link \<in> set (cwKnown c) \<or> \<not> InPrefixScope (cjEnv J) link (cjSeed J)")
    case True
    then show ?thesis using 2 by auto
  next
    case False
    have "map enURL (cwQueue c) = queuedURLs c" by (simp add: queuedURLs_def)
    then have "crawl_ok J D None ?c" using 2(3,4) False by (auto simp: crawl_ok_def settled_def)
    then show ?thesis using 2(2,4) False by simp
  qed
qed simp

subsection \<open>A visit, and the walk\<close>

lemma Normalize_ne: "Normalize U parse raw = Inr u \<Longrightarrow> u \<noteq> []"
  by (auto simp: Normalize_def Let_def lit_def split: option.splits if_splits)

lemma addLinks_ne: "(\<And>h. f h \<noteq> Some []) \<Longrightarrow> [] \<notin> set out \<Longrightarrow> [] \<notin> set (addLinks f hrefs out)"
proof (induction f hrefs out rule: addLinks.induct)
  case (2 f href hrefs out)
  show ?case
  proof (cases "f href")
    case (Some u)
    then have "u \<noteq> []" using 2(3) by blast
    then show ?thesis using 2(2)[OF Some 2(3)] 2(4) Some by auto
  qed (use 2 in simp)
qed simp

lemma IndexPageCandidates_ne: "IndexPageCandidates E P body base = Inr links \<Longrightarrow> [] \<notin> set links"
proof -
  have "linkOf E base h \<noteq> Some []" for h
    using Normalize_ne by (auto simp: linkOf_def split: option.splits sum.splits)
  then show "IndexPageCandidates E P body base = Inr links \<Longrightarrow> [] \<notin> set links"
    using addLinks_ne[of "\<lambda>href. linkOf E base (TrimSpace href)" "[]"]
    by (auto simp: IndexPageCandidates_def split: sum.splits option.splits)
qed

lemma keepUnder_ok:
  assumes "crawl_ok J D (Some key) c" "key \<in> set (cwKnown c)" "\<not> hasPage c key" "keepUnder J entry res key c = Inr c'"
  shows "crawl_ok J D None c'"
proof -
  define c1 where "c1 = onResult (putPage key \<lparr>pgURL = key, pgFinalURL = ftFinalURL res,
      pgDeclaredTitle = (case cvTitles (crCoverage (cwResult c)) (enURL entry) of None \<Rightarrow> [] | Some t \<Rightarrow> t), pgBody = ftBody res\<rparr>) c"
  have ok: "crawl_ok J D None c1" unfolding c1_def using assms(1-3) by (rule putPage_ok) simp
  have "c' = c1 \<or> queueLinks J (ftBody res) entry c1 = Inr c'"
    using assms(4) by (auto simp: keepUnder_def c1_def Let_def split: if_splits)
  then show ?thesis
  proof
    assume "queueLinks J (ftBody res) entry c1 = Inr c'"
    then show ?thesis by (auto simp: queueLinks_def split: sum.splits intro!: queueEach_ok[OF ok] dest: IndexPageCandidates_ne)
  qed (simp add: ok)
qed

lemma keep_ok:
  assumes "crawl_ok J D (Some (enURL entry)) c" "enURL entry \<in> set (cwKnown c)" "\<not> hasPage c (enURL entry)" "keep J entry res c = Inr c'"
  shows "crawl_ok J D None c'"
  using assms(4)
proof (cases rule: keep_cases)
  case (merged v)
  then show ?thesis using merge_ok[OF assms(1)] by simp
next
  case (canonical v)
  from know_merged_ok[OF assms(1) canonical(1,2)] show ?thesis
    by (rule keepUnder_ok[OF _ _ _ canonical(4)]) (use canonical(3) in \<open>simp_all add: hasPage_iff\<close>, simp add: know_def)
next
  case own
  from keepUnder_ok[OF assms(1-3) own] show ?thesis .
qed

lemma visit_ok:
  assumes "crawl_ok J D (Some (enURL entry)) c" "enURL entry \<in> set (cwKnown c)" "visit J entry (c, s) = (Inr u, c', s')"
  shows "crawl_ok J D None c'"
proof (cases "hasPage c (enURL entry)")
  case True
  then show ?thesis using assms settled_ok[OF assms(1)] by (simp add: visit_def settled_def hasPage_iff)
next
  case False
  obtain p c1 s1 where rd: "readPage J (enURL entry) (c, s) = (p, c1, s1)" by (metis prod.exhaust)
  then consider e where "p = Inl e" | reason where "p = Inr None" "c1 = unreachable (enURL entry) reason c" | res where "p = Inr (Some res)" "c1 = c"
    by (auto simp: readPage_def split: prod.splits sum.splits if_splits)
  then show ?thesis
  proof cases
    case 2
    then have "c' = c1" using assms(3) False by (simp add: visit_def rd)
    then show ?thesis using unreachable_ok[OF assms(1)] 2 by simp
  next
    case 3
    then have "keep J entry res c = Inr c'" using assms(3) False by (auto simp: visit_def rd split: sum.splits)
    from keep_ok[OF assms(1,2) False this] show ?thesis .
  qed (use assms(3) False in \<open>simp add: visit_def rd\<close>)
qed

lemma walkFrom_ok:
  assumes "crawl_ok J D None c" "walkFrom J tick n (c, s) = (Inr u, c', s')"
  shows "crawl_ok J D None c' \<and> queuedURLs c' = []"
  using assms
proof (induction J tick n "(c, s)" arbitrary: c s rule: walkFrom.induct)
  case (1 J tick n c s)
  show ?case
  proof (cases "cwQueue c")
    case Nil
    then have "c' = report PhaseFetch n (int (length (cwKnown c))) c"
      using "1.prems"(2) by (subst (asm) walkFrom.simps) simp
    then show ?thesis using "1.prems"(1) Nil by (simp add: queuedURLs_def)
  next
    case (Cons entry queue)
    let ?c = "(report PhaseFetch n (int (length (cwKnown c))) c)\<lparr>cwQueue := queue\<rparr>"
    have nc: "\<not> cjCancelled J tick" using "1.prems"(2) by (subst (asm) walkFrom.simps) (auto simp: Cons split: if_splits)
    obtain v c1 s1 where v: "visit J entry (?c, s) = (v, c1, s1)" by (metis prod.exhaust)
    obtain r where r: "v = Inr r" "walkFrom J (tick + 1) (n + 1) (c1, s1) = (Inr u, c', s')"
      using "1.prems"(2) by (subst (asm) walkFrom.simps) (auto simp: Cons nc v Let_def split: sum.splits)
    have "enURL entry \<in> set (cwKnown c)" using "1.prems"(1) Cons by (auto simp: crawl_ok_def queuedURLs_def)
    moreover have "crawl_ok J D (Some (enURL entry)) ?c" by (rule take_ok) (use "1.prems"(1) Cons in simp_all)
    ultimately have "crawl_ok J D None c1" using visit_ok[of J D entry ?c s r c1 s1] v r(1) by simp
    from "1.hyps"[OF Cons nc refl v[symmetric] r(1) refl this r(2)] show ?thesis .
  qed
qed

subsection \<open>A whole crawl\<close>

lemma start_ok:
  assumes "queuedURLs c = []" "visitOrder c = []" "pageURLs c = []" "crCoverage (cwResult c) = D" "urls = cvURLs D" "start J urls (c, s) = (c', s')"
  shows "crawl_ok J D None c' \<and> visitOrder c' = [] \<and> pageURLs c' = [] \<and> mergedURLs c' = mergedURLs c \<and> length (cwKnown c') \<le> length urls"
proof -
  have c': "c' = c\<lparr>cwKnown := remdups (rev urls), cwQueue := cwQueue c @ map (\<lambda>u. \<lparr>enURL = u, enDepth = 0\<rparr>) urls\<rparr>"
    using assms(6) by (simp add: start_def Let_def)
  have l: "length (remdups (rev urls)) \<le> length urls" using length_remdups_leq[of "rev urls"] by simp
  have q: "queuedURLs c' = urls" using assms(1) by (simp add: c' queuedURLs_def comp_def)
  have v: "visitOrder c' = []" "pageURLs c' = []" "mergedURLs c' = mergedURLs c" "cwKnown c' = remdups (rev urls)" "crCoverage (cwResult c') = D"
    using assms(2-4) by (simp_all add: c' view_defs)
  have n: "int (length (remdups (rev urls))) \<le> max (coMaxPages (cjOpts J)) (int (length urls) + 1) + int (length (mergedURLs c))"
    using l by linarith
  show ?thesis using l q v n own_empty[OF v(2)] by (auto simp: crawl_ok_def settled_def assms(5))
qed

lemma keepSeed_ok:
  assumes "crawl_ok J D None c" "visitOrder c = []" "pageURLs c = []" "urls = cvURLs D" "length (cwKnown c) \<le> length urls" "keepSeed J page urls c = Inr c'"
  shows "crawl_ok J D None c'"
proof -
  consider (same) "c' = c" | (refused) n where "c' = crawlNote n c"
    | (kept) p where "cjSeed J \<notin> set urls" "keep J \<lparr>enURL = cjSeed J, enDepth = 0\<rparr> p (know (cjSeed J) c) = Inr c'"
  proof (cases page)
    case (Some p)
    show thesis
    proof (cases "c' = c \<or> (\<exists>n. c' = crawlNote n c)")
      case False
      then show thesis using assms(6) Some by (intro kept[of p]) (auto simp: keepSeed_def split: if_splits sum.splits)
    qed (use same refused in blast)
  qed (use assms(6) same in \<open>simp add: keepSeed_def\<close>)
  then show ?thesis
  proof cases
    case (kept p)
    have k: "crawl_ok J D (Some (cjSeed J)) (know (cjSeed J) c)" "cjSeed J \<in> set (cwKnown (know (cjSeed J) c))"
      using assms(1,4,5) by (auto simp: crawl_ok_def settled_def know_def)
    show ?thesis
      by (rule keep_ok[OF _ _ _ kept(2)]) (use k assms(3) in \<open>simp_all add: hasPage_iff\<close>)
  qed (simp_all add: assms(1))
qed

text \<open>\<^verbatim>\<open>run\<close> ends its walk in such a state with nothing queued.\<close>

lemma runCovered_ok:
  assumes "queuedURLs c = []" "visitOrder c = []" "pageURLs c = []" "runCovered J page cov (c, s) = (Inr u, c', s')"
  obtains c2 where "crawl_ok J cov None c2" "queuedURLs c2 = []" "c' = finish J page c2"
proof -
  define c1 where "c1 = (onResult (\<lambda>r. r\<lparr>crCoverage := cov, crNotes := crNotes r @ cvNotes cov\<rparr>) c)
    \<lparr>cwFollowed := length (cvFromSitemap cov) = 0 \<and> length (cvFromLLMsTxt cov) = 0\<rparr>"
  define c2 where "c2 = (if length (cvFromSitemap cov) = 0 \<and> length (cvFromLLMsTxt cov) = 0
    then crawlNote (lit ''no sitemap or llms.txt; following links from fetched pages to depth '' @ show_int (coLinkDepth (cjOpts J))) c1 else c1)"
  have v: "queuedURLs c2 = []" "visitOrder c2 = []" "pageURLs c2 = []" "crCoverage (cwResult c2) = cov"
    using assms(1-3) by (simp_all add: c2_def c1_def view_defs crawler_ops)
  obtain c3 s3 where st: "start J (cvURLs cov) (c2, s) = (c3, s3)" by force
  from start_ok[OF v refl st] have ok3: "crawl_ok J cov None c3" "visitOrder c3 = []" "pageURLs c3 = []" "length (cwKnown c3) \<le> length (cvURLs cov)"
    by simp_all
  obtain sig s4 where sig: "NotFoundSignature (cjEnv J) (cjReader J) (cjFetcher J) (originOf (cjEnv J) (cjSeed J)) (coRevalidate (cjOpts J)) s3 = (sig, s4)"
    by force
  have run: "(case sig of Inl e \<Rightarrow> (Inl e, c3, s4)
      | Inr sig \<Rightarrow> let c = c3\<lparr>cwSignature := sig\<rparr>;
          c = (if Found sig then crawlNote (lit ''this site answers 200 for pages that do not exist; responses matching its not-found template are treated as unreachable'') c else c)
        in case keepSeed J page (cvURLs cov) c of Inl e \<Rightarrow> (Inl e, c, s4)
           | Inr c \<Rightarrow> (case walkFrontier J (c, s4) of (Inl e, c, s) \<Rightarrow> (Inl e, c, s) | (Inr _, c, s) \<Rightarrow> (Inr (), finish J page c, s)))
      = (Inr u, c', s')"
    using assms(4) unfolding runCovered_def prod.case Let_def c1_def[symmetric] c2_def[symmetric] st sig .
  then obtain f where f: "sig = Inr f" by (cases sig) simp_all
  define c4 where "c4 = (if Found f then crawlNote (lit ''this site answers 200 for pages that do not exist; responses matching its not-found template are treated as unreachable'')
    (c3\<lparr>cwSignature := f\<rparr>) else c3\<lparr>cwSignature := f\<rparr>)"
  have sg: "crawl_ok J cov None (c3\<lparr>cwSignature := f\<rparr>)" using ok3(1) by (auto simp: crawl_ok_def settled_def)
  have ok4: "crawl_ok J cov None c4" "visitOrder c4 = []" "pageURLs c4 = []" "length (cwKnown c4) \<le> length (cvURLs cov)"
    using ok3 sg by (simp_all add: c4_def)
  note run4 = run[unfolded f sum.case Let_def, folded c4_def]
  then obtain c5 where c5: "keepSeed J page (cvURLs cov) c4 = Inr c5" by (cases "keepSeed J page (cvURLs cov) c4") simp_all
  from keepSeed_ok[OF ok4(1-3) refl ok4(4) c5] have ok5: "crawl_ok J cov None c5" .
  obtain w c6 s6 where w: "walkFrontier J (c5, s4) = (w, c6, s6)" by (metis prod.exhaust)
  from run4[unfolded c5 sum.case w prod.case] obtain z where z: "w = Inr z" "c' = finish J page c6" by (cases w) simp_all
  from w z(1) have "crawl_ok J cov None c6 \<and> queuedURLs c6 = []"
    unfolding walkFrontier_def prod.case by (intro walkFrom_ok[OF ok5]) simp
  with z(2) that show thesis by blast
qed

text \<open>The declared URLs are URLs.\<close>

definition sourceURLs :: "Coverage \<Rightarrow> gostring set" where
  "sourceURLs c = set (cvFromIndex c) \<union> set (cvFromSitemap c) \<union> set (cvFromLLMsTxt c)"

lemma addNew_set: "set (addNew out us) = set out \<union> set us" "distinct out \<Longrightarrow> distinct (addNew out us)"
  by (induction out us rule: addNew.induct) auto

lemma addNote_sources [simp]: "sourceURLs (addNote n c) = sourceURLs c" "cvURLs (addNote n c) = cvURLs c"
  by (simp_all add: sourceURLs_def addNote_def)

lemma scoped_ne: "[] \<notin> set out \<Longrightarrow> [] \<notin> set (scopedFrom E seed urls out)"
proof (induction E seed urls out rule: scopedFrom.induct)
  case (2 E seed raw urls out)
  show ?case
  proof (cases "Normalize (weUnicode E) (weParse E) raw")
    case (Inr u)
    from 2(2)[OF this] Normalize_ne[OF this] 2(3) show ?thesis by (simp add: Inr)
  qed (use 2 in simp)
qed simp

lemma pageOfTwin_ne: "u = a # b # c # d # e \<Longrightarrow> pageOfTwin u \<noteq> Some []"
proof -
  have suffix: "trim_suffix s t = [] \<Longrightarrow> has_suffix s t \<Longrightarrow> s = t" for s t :: gostring
    by (auto simp: trim_suffix_def has_suffix_iff)
  show ?thesis if "u = a # b # c # d # e"
  proof (cases "63 \<in> set u")
    case True
    then show ?thesis by (auto simp: pageOfTwin_def cutQuery_def Let_def split: if_splits)
  next
    case False
    then have "takeWhile (\<lambda>r. r \<noteq> 63) u = u" by (auto simp: takeWhile_eq_all_conv)
    then show ?thesis
      by (auto simp: pageOfTwin_def cutQuery_def Let_def that split: if_splits dest!: suffix) (auto simp: trim_suffix_def has_suffix_iff lit_def)
  qed
qed

lemma addLLMsEntry_ne: "[] \<notin> sourceURLs c \<Longrightarrow> [] \<notin> sourceURLs (fst (addLLMsEntry E seed p c))"
proof -
  assume c: "[] \<notin> sourceURLs c"
  obtain title raw where p: "p = (title, raw)" by force
  have "pageOfTwin u \<noteq> Some []" if n: "Normalize (weUnicode E) (weParse E) raw = Inr u" for u
  proof -
    have "\<exists>a b c d e. u = a # b # c # d # e"
    proof -
      have "4 \<le> length u" using n by (auto simp: Normalize_def Let_def lit_def Suc_le_eq split: option.splits if_splits)
      then show ?thesis by (metis Suc_le_length_iff numeral_eq_Suc pred_numeral_simps(2) pred_numeral_simps(3) semiring_norm(26) semiring_norm(27) numeral_One)
    qed
    then show ?thesis using pageOfTwin_ne by blast
  qed
  then show ?thesis using c Normalize_ne[of "weUnicode E" "weParse E" raw]
    by (auto simp: p addLLMsEntry_def sourceURLs_def Let_def split: sum.splits option.splits)
qed

lemma addLLMsEntries_ne: "[] \<notin> sourceURLs c \<Longrightarrow> [] \<notin> sourceURLs (fst (addLLMsEntries E seed ps (c, n)))"
proof (induction ps arbitrary: c n)
  case (Cons p ps)
  obtain c1 t where e: "addLLMsEntry E seed p c = (c1, t)" by force
  then show ?case using addLLMsEntry_ne[OF Cons.prems, of E seed p] Cons.IH by (simp add: Let_def)
qed simp

lemma addLLMsTxt_ne:
  assumes "[] \<notin> sourceURLs c" "addLLMsTxt E P F seed revalidate c s = (c', s')"
  shows "[] \<notin> sourceURLs c'"
proof -
  obtain pairs ns s1 where l: "llmsTxtCandidates E P F seed revalidate s = ((pairs, ns), s1)" by (metis prod.exhaust)
  let ?c = "c\<lparr>cvNotes := cvNotes c @ ns\<rparr>"
  obtain c1 n where e: "addLLMsEntries E seed pairs (?c, 0) = (c1, n)" by force
  have "[] \<notin> sourceURLs c1" using addLLMsEntries_ne[of ?c E seed pairs 0] assms(1) by (simp add: e sourceURLs_def)
  then show ?thesis using assms(2) by (auto simp: addLLMsTxt_def l e Let_def split: if_splits)
qed

lemma addIndexPage_ne:
  "[] \<notin> sourceURLs c \<Longrightarrow> addIndexPage E P F seed page revalidate c s = (Inr c', s') \<Longrightarrow> [] \<notin> sourceURLs c'"
  by (auto simp: addIndexPage_def sourceURLs_def addNote_def dest: IndexPageCandidates_ne split: prod.splits sum.splits if_splits option.splits)

text \<open>\<^verbatim>\<open>Discover\<close> declares each URL once, and only URLs.\<close>

lemma Discover_urls:
  assumes "Discover E P F raw page revalidate s = (Inr cov, s')"
  shows "distinct (cvURLs cov) \<and> [] \<notin> set (cvURLs cov)"
proof -
  obtain seed where seed: "Normalize (weUnicode E) (weParse E) raw = Inr seed" using assms by (auto simp: Discover_def split: sum.splits)
  obtain l n s1 where l: "sitemapCandidates E P F seed revalidate s = (Inr (l, n), s1)"
    using assms by (auto simp: Discover_def seed split: sum.splits prod.splits)
  define c where "c = \<lparr>cvTitles = Map.empty, cvURLs = [], cvFromSitemap = scopedAndSorted E l seed, cvFromIndex = [], cvFromLLMsTxt = [], cvNotes = n\<rparr>"
  have c: "[] \<notin> sourceURLs c" using scoped_ne[of "[]" E seed l] by (simp add: c_def sourceURLs_def scopedAndSorted_def)
  define c1 where "c1 = (if 0 < length l then addNote (lit ''sitemap declares '' @ show_nat (length l) @ lit '' URL(s), '' @
      show_nat (length (scopedAndSorted E l seed)) @ lit '' under the seed'') c else c)"
  have c1: "[] \<notin> sourceURLs c1" using c by (simp add: c1_def)
  note run = assms[unfolded Discover_def seed l sum.case prod.case Let_def, folded c_def, folded c1_def]
  obtain a s2 where a: "addIndexPage E P F seed page revalidate c1 s1 = (a, s2)" by force
  from run[unfolded a prod.case] obtain c2 where c2: "a = Inr c2" by (cases a) simp_all
  obtain c3 s3 where c3: "addLLMsTxt E P F seed revalidate c2 s2 = (c3, s3)" by force
  have "[] \<notin> sourceURLs c3" using addLLMsTxt_ne[OF addIndexPage_ne[OF c1 a[unfolded c2]] c3] .
  then have k: "[] \<notin> sourceURLs (dropIndexNonPages (scopeIndex E seed c3))"
    by (auto simp: dropIndexNonPages_def scopeIndex_def sourceURLs_def addNote_def Let_def)
  have cov: "cvURLs cov = cvURLs (unionSources (dropIndexNonPages (scopeIndex E seed c3)))"
    using run[unfolded a prod.case c2 sum.case c3] by (auto simp: compareSources_def Let_def)
  show ?thesis using k unfolding cov by (simp add: unionSources_def addNew_set sourceURLs_def)
qed

text \<open>What a crawl that returns has ended with.\<close>

definition jobOf :: "'s CrawlJob \<Rightarrow> gostring \<Rightarrow> 's CrawlJob" where
  "jobOf J seed =
     (let opts = cjOpts J;
          opts = (if coMaxPages opts = 0 then opts\<lparr>coMaxPages := DefaultMaxPages\<rparr> else opts);
          opts = (if coLinkDepth opts = 0 then opts\<lparr>coLinkDepth := DefaultLinkDepth\<rparr> else opts)
      in J\<lparr>cjSeed := seed, cjOpts := opts\<rparr>)"

lemma crawlSite_ok:
  assumes "crawlSite J s = (Inr r, s')"
  obtains seed page cov c where "Normalize (weUnicode (cjEnv J)) (weParse (cjEnv J)) (cjSeed J) = Inr seed"
    "distinct (cvURLs cov)" "[] \<notin> set (cvURLs cov)" "crawl_ok (jobOf J seed) cov None c" "queuedURLs c = []"
    "r = cwResult (finish (jobOf J seed) page c)"
proof -
  obtain seed where seed: "Normalize (weUnicode (cjEnv J)) (weParse (cjEnv J)) (cjSeed J) = Inr seed"
    using assms by (auto simp: crawlSite_def split: sum.splits)
  obtain x c1 s1 where run: "crawlRun (jobOf J seed) (newCrawler seed, s) = (x, c1, s1)" by (metis prod.exhaust)
  note r = assms[unfolded crawlSite_def seed sum.case Let_def, folded jobOf_def[unfolded Let_def], unfolded run prod.case]
  then obtain u where x: "x = Inr u" by (cases x) simp_all
  then have r': "r = cwResult c1" using r by simp
  obtain page c2 s2 where fs: "fetchSeed (jobOf J seed) (report PhaseDiscover 0 0 (newCrawler seed), s) = (page, c2, s2)" by (metis prod.exhaust)
  have c2: "queuedURLs c2 = []" "visitOrder c2 = []" "pageURLs c2 = []"
    using fs by (auto simp: fetchSeed_def newCrawler_def view_defs crawler_ops split: prod.splits sum.splits if_splits)
  obtain d s3 where d: "Discover (cjEnv (jobOf J seed)) (cjReader (jobOf J seed)) (cjFetcher (jobOf J seed)) (cjSeed (jobOf J seed)) page
      (coRevalidate (cjOpts (jobOf J seed))) s2 = (d, s3)" by force
  note run2 = run[unfolded crawlRun_def prod.case Let_def fs d x]
  then obtain cov where cov: "d = Inr cov" by (cases d) simp_all
  from run2[unfolded cov sum.case] obtain c where "crawl_ok (jobOf J seed) cov None c" "queuedURLs c = []" "c1 = finish (jobOf J seed) page c"
    by (rule runCovered_ok[OF c2])
  with that[OF seed] Discover_urls[OF d[unfolded cov]] r' show thesis by blast
qed

lemma summarize_views [simp]:
  "crCoverage (cwResult (summarize c)) = crCoverage (cwResult c)" "pageURLs (summarize c) = pageURLs c" "lostURLs (summarize c) = lostURLs c"
  "mergedURLs (summarize c) = mergedURLs c" "visitOrder (summarize c) = visitOrder c"
  by (simp_all add: summarize_def Let_def)

lemma finish_result:
  "crCoverage (cwResult (finish J page c)) = crCoverage (cwResult c)" "map fst (crPages (cwResult (finish J page c))) = pageURLs c"
  "map fst (crUnreachable (cwResult (finish J page c))) = lostURLs c" "map fst (crMerges (cwResult (finish J page c))) = mergedURLs c"
  "crOrder (cwResult (finish J page c)) = visitOrder c"
  "crHierarchy (cwResult (finish J page c)) =
     Derive (cjEnv J) (visitOrder c) (cjSeed J) (map_option (\<lambda>p. prSeed (cjReader J) (ftBody p)) page)"
proof -
  note v = summarize_views[of c, unfolded view_defs]
  show "crCoverage (cwResult (finish J page c)) = crCoverage (cwResult c)" "map fst (crPages (cwResult (finish J page c))) = pageURLs c"
    "map fst (crUnreachable (cwResult (finish J page c))) = lostURLs c" "map fst (crMerges (cwResult (finish J page c))) = mergedURLs c"
    "crOrder (cwResult (finish J page c)) = visitOrder c"
    "crHierarchy (cwResult (finish J page c)) =
       Derive (cjEnv J) (visitOrder c) (cjSeed J) (map_option (\<lambda>p. prSeed (cjReader J) (ftBody p)) page)"
    by (simp_all add: finish_def onResult_def view_defs v Let_def)
qed

text \<open>C16: A crawl that returns accounts for every URL the coverage declared: it is a page, or it was merged
  into the URL it names as canonical, or it is listed as unreachable; and the pages are kept once each, in
  the order they were visited.\<close>

theorem crawlSite_accounts:
  assumes "crawlSite J s = (Inr r, s')"
  shows "distinct (crOrder r) \<and> map fst (crPages r) = crOrder r \<and>
    set (cvURLs (crCoverage r)) \<subseteq> set (crOrder r) \<union> fst ` set (crUnreachable r) \<union> fst ` set (crMerges r)"
proof -
  obtain seed page cov c where c: "crawl_ok (jobOf J seed) cov None c" "queuedURLs c = []" "r = cwResult (finish (jobOf J seed) page c)"
    using assms by (rule crawlSite_ok)
  have "fst ` set (crUnreachable r) = set (lostURLs c)" "fst ` set (crMerges r) = set (mergedURLs c)"
    unfolding c(3) finish_result(3)[symmetric, of c "jobOf J seed" page] finish_result(4)[symmetric, of c "jobOf J seed" page] by simp_all
  with c(1,2) show ?thesis unfolding c(3) finish_result by (auto simp: crawl_ok_def settled_def)
qed

text \<open>What a crawl hands on: pages in the order of their visits, under their own URLs, each with one place.\<close>

definition wellPlaced :: "Result \<Rightarrow> bool" where
  "wellPlaced r =
     (distinct (crOrder r) \<and> map fst (crPages r) = crOrder r \<and> (\<forall>kp\<in>set (crPages r). pgURL (snd kp) = fst kp)
      \<and> distinct (map plURL (hiPlacements (crHierarchy r))) \<and> set (map plURL (hiPlacements (crHierarchy r))) = set (crOrder r))"

lemma crawlSite_wellPlaced:
  assumes "crawlSite J s = (Inr r, s')"
  shows "wellPlaced r"
proof -
  obtain seed page cov c where seed: "Normalize (weUnicode (cjEnv J)) (weParse (cjEnv J)) (cjSeed J) = Inr seed" and
    c: "[] \<notin> set (cvURLs cov)" "crawl_ok (jobOf J seed) cov None c" "r = cwResult (finish (jobOf J seed) page c)"
    using assms by (rule crawlSite_ok)
  have "cjSeed (jobOf J seed) = seed" by (simp add: jobOf_def Let_def)
  then have "[] \<notin> set (visitOrder c)" using c(1,2) Normalize_ne[OF seed] by (auto simp: crawl_ok_def)
  note places = Derive_places[OF this]
  have "crPages r = crPages (cwResult c)" unfolding c(3) by (simp add: finish_def summarize_def Let_def crawler_ops)
  then show ?thesis
    using c(2) places unfolding wellPlaced_def c(3) finish_result by (auto simp: crawl_ok_def pagesOwn_def finish_result(2))
qed

text \<open>C17: Every page a crawl keeps has its place: the hierarchy places exactly the pages of the result, each
  once.\<close>

theorem crawlSite_places:
  assumes "crawlSite J s = (Inr r, s')"
  shows "distinct (map plURL (hiPlacements (crHierarchy r))) \<and> set (map plURL (hiPlacements (crHierarchy r))) = set (crOrder r)"
proof -
  obtain seed page cov c where seed: "Normalize (weUnicode (cjEnv J)) (weParse (cjEnv J)) (cjSeed J) = Inr seed" and
    c: "[] \<notin> set (cvURLs cov)" "crawl_ok (jobOf J seed) cov None c" "r = cwResult (finish (jobOf J seed) page c)"
    using assms by (rule crawlSite_ok)
  have "cjSeed (jobOf J seed) = seed" by (simp add: jobOf_def Let_def)
  then have "[] \<notin> set (visitOrder c)" using c(1,2) Normalize_ne[OF seed] by (auto simp: crawl_ok_def)
  from Derive_places[OF this] show ?thesis unfolding c(3) finish_result .
qed


text \<open>C11: Everything a crawl sends, robots.txt, sitemaps, probes and redirects included, goes to addresses that
  may be fetched.\<close>

theorem crawlSite_sends_approved:
  assumes "cjFetcher J = siteFetcher E" "all_approved E fw" "\<And>n raw. weGuard E n raw = Check (weUnicode E) (weParse E) (lookup n) raw"
  shows "list_all (\<lambda>s. seAddrs s \<noteq> [] \<and> list_all AddrAllowed (seAddrs s)) (wbSent (snd (snd (crawlSite J fw))))"
  using approved_allowed[OF ac.crawlSite_keeps[OF assms(2,1)] assms(3)] .

text \<open>C31: A crawl asks a host at most once an interval, whatever it reads from it.\<close>

theorem crawlSite_spaced:
  assumes "cjFetcher J = siteFetcher E" "well_spaced fw"
  shows "well_spaced (snd (crawlSite J fw))"
  using assms(2,1) by (rule sc.crawlSite_keeps)

subsection \<open>A crawl, run\<close>

text \<open>The host of the example before, whose page \<open>/a\<close> redirects to \<open>/b\<close> and links to it.\<close>

definition ex_reader :: PageReader where
  "ex_reader = \<lparr>prHrefs = (\<lambda>_. Inr [lit ''https://d.org/b'']), prLinks = (\<lambda>_. Inr []), prText = (\<lambda>_. Inr []), prTokens = (\<lambda>_. []),
     prLLMs = (\<lambda>_. []), prSeed = (\<lambda>_. \<lparr>sdContainers = [], sdElements = []\<rparr>)\<rparr>"

definition ex_job :: "fstate CrawlJob" where
  "ex_job = \<lparr>cjEnv = ex_env, cjReader = ex_reader, cjFetcher = siteFetcher ex_env, cjSeed = lit ''https://d.org/a'',
     cjOpts = \<lparr>coMaxPages = 0, coLinkDepth = 0, coRevalidate = True\<rparr>, cjCancelled = (\<lambda>_. False)\<rparr>"

definition ex_page :: Fetched where
  "ex_page = \<lparr>ftURL = lit ''https://d.org/b'', ftFinalURL = lit ''https://d.org/b'', ftContentType = [], ftBody = [104, 105], ftStatus = 200, ftFromCache = False\<rparr>"

text \<open>A fetcher that knows one page, and a crawl with it.\<close>

definition ex_fetcher :: "unit SiteFetcher" where
  "ex_fetcher = \<lparr>sfFetch = (\<lambda>raw _ s. (if raw = lit ''https://d.org/b'' then Inr ex_page else Inr (ex_page\<lparr>ftStatus := 404\<rparr>), s)),
     sfRobots = (\<lambda>_ s. (Inr [], s)), sfReserve = (\<lambda>_ s. s)\<rparr>"

definition ex_small :: "unit CrawlJob" where
  "ex_small = \<lparr>cjEnv = ex_env, cjReader = ex_reader, cjFetcher = ex_fetcher, cjSeed = lit ''https://d.org/b'',
     cjOpts = \<lparr>coMaxPages = 0, coLinkDepth = 0, coRevalidate = True\<rparr>, cjCancelled = (\<lambda>_. False)\<rparr>"

lemma ex_small_run:
  obtains r s' where "crawlSite ex_small () = (Inr r, s')" "crOrder r = [lit ''https://d.org/b'']" "cvURLs (crCoverage r) = [lit ''https://d.org/b'']"
    "crMerges r = []" "crUnreachable r = []"
proof -
  have "map_sum id (\<lambda>r. (crOrder r, cvURLs (crCoverage r), crMerges r, crUnreachable r)) (fst (crawlSite ex_small ())) =
      Inr ([lit ''https://d.org/b''], [lit ''https://d.org/b''], [], [])"
    by code_simp
  then show thesis using that by (cases "crawlSite ex_small ()") (auto simp: map_sum_def split: sum.splits)
qed

theorem crawlSite_accounts_witness:
  "\<exists>r. fst (crawlSite ex_small ()) = Inr r \<and> map fst (crPages r) = [lit ''https://d.org/b'']"
proof -
  obtain r s' where r: "crawlSite ex_small () = (Inr r, s')" "crOrder r = [lit ''https://d.org/b'']" by (rule ex_small_run)
  from crawlSite_accounts[OF r(1)] r show ?thesis by simp
qed

theorem crawlSite_places_witness:
  "\<exists>r. fst (crawlSite ex_small ()) = Inr r \<and> plURL ` set (hiPlacements (crHierarchy r)) = {lit ''https://d.org/b''}"
proof -
  obtain r s' where r: "crawlSite ex_small () = (Inr r, s')" "crOrder r = [lit ''https://d.org/b'']" by (rule ex_small_run)
  from crawlSite_places[OF r(1)] r show ?thesis by simp
qed


theorem crawlSite_sends_approved_witness:
  "list_all (\<lambda>s. seAddrs s \<noteq> [] \<and> list_all AddrAllowed (seAddrs s))
     (wbSent (snd (snd (crawlSite ex_job (newFetcher ex_options, ex_web)))))"
proof -
  have h: "cjFetcher ex_job = siteFetcher ex_env" "all_approved ex_env (newFetcher ex_options, ex_web)"
    "\<And>n raw. weGuard ex_env n raw = Check (weUnicode ex_env) (weParse ex_env) ((\<lambda>_ _. Some [Addr4 (v4addr 8 8 8 8)]) n) raw"
    by (simp_all add: ex_job_def all_approved_def ex_web_def ex_env_def)
  from crawlSite_sends_approved[OF h] show ?thesis .
qed

theorem crawlSite_spaced_witness: "well_spaced (snd (crawlSite ex_job (newFetcher ex_options, ex_web)))"
  by (rule crawlSite_spaced)
    (simp_all add: ex_job_def well_spaced_def spaced_def ex_web_def newFetcher_def ex_options_def orInt_def DefaultInterval_def)

end
