(* ===== verification/Accounts.thy ===== *)
theory Accounts
  imports GoErrors Tokens
begin

text \<open>
  \<^verbatim>\<open>internal/password\<close> and \<^verbatim>\<open>internal/account\<close> with their stores \<^verbatim>\<open>pgpassword\<close> and \<^verbatim>\<open>pgaccount\<close>: who may sign
  in, and as whom.  The tables are records of rows.  A statement fails when the next entry of \<open>adFaults\<close> says so, and
  sees what other sessions committed before it, the next entry of \<open>adOthers\<close>.  Random text, the argon2id library and the handover of shared libraries a removal needs are the
  record \<open>AuthEnv\<close>.  Times are milliseconds.
\<close>

subsection \<open>Tables\<close>

record userRow =
  urID :: gostring
  urIssuer :: "gostring option"
  urSubject :: "gostring option"
  urUsername :: "gostring option"
  urAdmin :: bool

record PasswordRow =
  paUsername :: gostring
  paUserID :: gostring
  paHash :: gostring
  paFailures :: int
  paLockedUntil :: "int option"

record AuthClient =
  clID :: gostring
  clName :: gostring
  clRedirectURIs :: "gostring list"
  clCreatedAt :: int
  clSignedInAt :: "int option"

record AuthRequest =
  rqCreatedAt :: int
  rqAuthTime :: int
  rqID :: gostring
  rqClientID :: gostring
  rqRedirectURI :: gostring
  rqState :: gostring
  rqNonce :: gostring
  rqResponseType :: gostring
  rqResponseMode :: gostring
  rqCodeChallenge :: gostring
  rqCodeChallengeMethod :: gostring
  rqUserID :: gostring
  rqScopes :: "gostring list"
  rqAudience :: "gostring list"

record AuthRequestRow =
  arRequest :: AuthRequest
  arUserID :: "gostring option"
  arAuthTime :: "int option"
  arCodeHash :: "gostring option"

record Refresh =
  rfAuthTime :: int
  rfExpiresAt :: int
  rfTokenHash :: gostring
  rfClientID :: gostring
  rfUserID :: gostring
  rfScopes :: "gostring list"
  rfAudience :: "gostring list"

record KeyRow =
  kyCreatedAt :: int
  kyID :: gostring
  kyPrivateKey :: gostring

record AuthTables =
  tbUsers :: "userRow list"
  tbPasswords :: "PasswordRow list"
  tbClients :: "AuthClient list"
  tbRequests :: "AuthRequestRow list"
  tbRefresh :: "Refresh list"
  tbKeys :: "KeyRow list"

record AuthDB =
  adTables :: AuthTables
  adFaults :: "bool list"
  adOthers :: "(AuthTables \<Rightarrow> AuthTables) list"
  adClock :: int
  adTick :: nat
  adCompared :: nat  \<comment> \<open>passwords compared with a hash so far\<close>

type_synonym 'a auth = "AuthDB \<Rightarrow> (goerror + 'a) \<times> AuthDB"

record HashParams =
  hpMemory :: int
  hpIterations :: int
  hpParallelism :: int
  hpSaltLength :: int
  hpKeyLength :: int

record AuthEnv =
  aeUnicode :: unicode
  aeRand :: "nat \<Rightarrow> gostring"
  aeSHA :: "gostring \<Rightarrow> gostring"
  aeCreateHash :: "nat \<Rightarrow> gostring \<Rightarrow> goerror + gostring"
  aeCheckHash :: "gostring \<Rightarrow> gostring \<Rightarrow> goerror + bool \<times> HashParams"
  aeStranded :: "gostring \<Rightarrow> gostring \<Rightarrow> gostring option"  \<comment> \<open>user removed, heir named: what the trigger refuses with\<close>

definition auth_return :: "'a \<Rightarrow> 'a auth" where
  "auth_return a d = (Inr a, d)"

definition auth_fail :: "goerror \<Rightarrow> 'a auth" where
  "auth_fail e d = (Inl e, d)"

definition auth_bind :: "'a auth \<Rightarrow> ('a \<Rightarrow> 'b auth) \<Rightarrow> 'b auth" where
  "auth_bind m f d = (case m d of (Inl e, d) \<Rightarrow> (Inl e, d) | (Inr a, d) \<Rightarrow> f a d)"

definition auth_wrap :: "gostring \<Rightarrow> 'a auth \<Rightarrow> 'a auth" where
  "auth_wrap what m d = (case m d of (Inl e, d) \<Rightarrow> (Inl (Errorf what e), d) | (Inr a, d) \<Rightarrow> (Inr a, d))"

text \<open>One statement: other sessions come first, then it fails, or answers and changes the tables.\<close>

definition others :: "AuthDB \<Rightarrow> AuthTables" where
  "others d = (case adOthers d of [] \<Rightarrow> adTables d | f # _ \<Rightarrow> f (adTables d))"

definition statement :: "(AuthTables \<Rightarrow> (goerror + 'a) \<times> AuthTables) \<Rightarrow> 'a auth" where
  "statement f d =
     (let d' = d\<lparr>adTables := others d, adFaults := tl (adFaults d), adOthers := tl (adOthers d)\<rparr>
      in if adFaults d \<noteq> [] \<and> hd (adFaults d) then (Inl (Sentinel ErrFault), d')
         else case f (adTables d') of (Inl e, _) \<Rightarrow> (Inl e, d') | (Inr a, t) \<Rightarrow> (Inr a, d'\<lparr>adTables := t\<rparr>))"

definition randText :: "AuthEnv \<Rightarrow> gostring auth" where
  "randText E d = (Inr (aeRand E (adTick d)), d\<lparr>adTick := adTick d + 1\<rparr>)"

text \<open>A transaction, through to its commit: when any step fails the tables are as they were.  What it does is one
  step to other sessions, which come before it.  A rollback that fails as well is not modelled.\<close>

definition inTx :: "'a auth \<Rightarrow> 'a auth" where
  "inTx m d =
     (case auth_wrap (lit ''begin'') (statement (\<lambda>t. (Inr (), t))) d of
        (Inl e, d') \<Rightarrow> (Inl e, d')
      | (Inr _, d0) \<Rightarrow>
          (case m (d0\<lparr>adOthers := []\<rparr>) of
             (Inl e, d') \<Rightarrow> (Inl (Join [e]), d'\<lparr>adTables := adTables d0, adOthers := adOthers d0\<rparr>)
           | (Inr a, d') \<Rightarrow>
               (case auth_wrap (lit ''commit'') (statement (\<lambda>t. (Inr (), t))) d' of
                  (Inl e, d'') \<Rightarrow> (Inl e, d''\<lparr>adTables := adTables d0, adOthers := adOthers d0\<rparr>)
                | (Inr _, d'') \<Rightarrow> (Inr a, d''\<lparr>adOthers := adOthers d0\<rparr>))))"

subsection \<open>Statements of password.sql and the definer functions\<close>

text \<open>Who the session acts for: the user the transaction names, and whether it connects as the owner role.\<close>

record Caller =
  caUser :: gostring
  caOwnerRole :: bool

definition administersAccounts :: "Caller \<Rightarrow> AuthTables \<Rightarrow> bool" where
  "administersAccounts who t =
     (caOwnerRole who \<or> list_ex (\<lambda>u. urID u = caUser who \<and> caUser who \<noteq> [] \<and> urAdmin u) (tbUsers t))"

definition notAdministrator :: goerror where
  "notAdministrator = ErrorNew (lit ''only an administrator manages accounts'')"

definition rowExists :: goerror where
  "rowExists = ErrorNew (lit ''23505'')"

definition checkViolation :: goerror where
  "checkViolation = ErrorNew (lit ''23514'')"

text \<open>\<^verbatim>\<open>users_id_is_identifier_safe\<close>.\<close>

definition safeID :: "gostring \<Rightarrow> bool" where
  "safeID s = (list_all (\<lambda>r. (97 \<le> r \<and> r \<le> 122) \<or> (48 \<le> r \<and> r \<le> 57) \<or> r = 95 \<or> r = 45) s \<and> 1 \<le> length s \<and> length s \<le> 40)"

definition CreateUser :: "gostring \<Rightarrow> gostring \<Rightarrow> gostring \<Rightarrow> AuthTables \<Rightarrow> (goerror + unit) \<times> AuthTables" where
  "CreateUser userID issuer subject t =
     (if \<not> safeID userID then (Inl checkViolation, t)
      else if list_ex (\<lambda>u. urID u = userID \<or> (urIssuer u = Some issuer \<and> urSubject u = Some subject)) (tbUsers t)
      then (Inl rowExists, t)
      else (Inr (), t\<lparr>tbUsers := tbUsers t @ [\<lparr>urID = userID, urIssuer = Some issuer, urSubject = Some subject,
                                              urUsername = None, urAdmin = False\<rparr>]\<rparr>))"

definition claimRow :: "gostring \<Rightarrow> gostring \<Rightarrow> userRow \<Rightarrow> userRow" where
  "claimRow issuer subject u =
     (if urIssuer u = None then u\<lparr>urIssuer := Some issuer, urSubject := Some subject\<rparr> else u)"

text \<open>\<^verbatim>\<open>claim_builtin\<close> gives the one row with no identity the identity; an identity another row has is refused.\<close>

definition ClaimBuiltinRow :: "gostring \<Rightarrow> gostring \<Rightarrow> AuthTables \<Rightarrow> (goerror + gostring) \<times> AuthTables" where
  "ClaimBuiltinRow issuer subject t =
     (case find (\<lambda>u. urIssuer u = None) (tbUsers t) of
        None \<Rightarrow> (Inr [], t)
      | Some u \<Rightarrow>
          if list_ex (\<lambda>u. urIssuer u = Some issuer \<and> urSubject u = Some subject) (tbUsers t) then (Inl rowExists, t)
          else (Inr (urID u), t\<lparr>tbUsers := map (claimRow issuer subject) (tbUsers t)\<rparr>))"

definition namedRow :: "gostring \<Rightarrow> gostring option \<Rightarrow> userRow \<Rightarrow> userRow" where
  "namedRow userID name u = (if urID u = userID then u\<lparr>urUsername := name\<rparr> else u)"

text \<open>The trigger records the new account's username with its user; a name another user holds is refused.\<close>

definition AddPasswordAccount ::
  "Caller \<Rightarrow> gostring \<Rightarrow> gostring \<Rightarrow> gostring \<Rightarrow> AuthTables \<Rightarrow> (goerror + unit) \<times> AuthTables" where
  "AddPasswordAccount who username userID hash t =
     (if \<not> administersAccounts who t then (Inl notAdministrator, t)
      else if list_ex (\<lambda>a. paUsername a = username \<or> paUserID a = userID) (tbPasswords t) then (Inl rowExists, t)
      else if \<not> list_ex (\<lambda>u. urID u = userID) (tbUsers t) then (Inl (ErrorNew (lit ''23503'')), t)
      else if list_ex (\<lambda>u. urUsername u = Some username \<and> urID u \<noteq> userID) (tbUsers t) then (Inl rowExists, t)
      else (Inr (), t\<lparr>tbPasswords := tbPasswords t @ [\<lparr>paUsername = username, paUserID = userID, paHash = hash,
                                                      paFailures = 0, paLockedUntil = None\<rparr>],
                     tbUsers := map (namedRow userID (Some username)) (tbUsers t)\<rparr>))"

definition findAccount :: "gostring \<Rightarrow> AuthTables \<Rightarrow> PasswordRow option" where
  "findAccount username t = find (\<lambda>a. paUsername a = username) (tbPasswords t)"

definition updateAccount :: "gostring \<Rightarrow> (PasswordRow \<Rightarrow> PasswordRow) \<Rightarrow> AuthTables \<Rightarrow> AuthTables" where
  "updateAccount username f t = t\<lparr>tbPasswords := map (\<lambda>a. if paUsername a = username then f a else a) (tbPasswords t)\<rparr>"

record Attempt =
  atAt :: int
  atLockUntil :: int
  atThreshold :: int

text \<open>\<^verbatim>\<open>BeginSignIn\<close>: counts the attempt unless the account is locked.  After a lock has run out the count
  starts again at one.\<close>

definition attempted :: "Attempt \<Rightarrow> PasswordRow \<Rightarrow> PasswordRow" where
  "attempted p a =
     (let failed = (if paLockedUntil a = None then paFailures a + 1 else 1)
      in a\<lparr>paFailures := failed, paLockedUntil := (if atThreshold p \<le> failed then Some (atLockUntil p) else None)\<rparr>)"

definition openTo :: "Attempt \<Rightarrow> PasswordRow \<Rightarrow> bool" where
  "openTo p a = (case paLockedUntil a of None \<Rightarrow> True | Some u \<Rightarrow> u \<le> atAt p)"

definition BeginSignIn :: "gostring \<Rightarrow> Attempt \<Rightarrow> AuthTables \<Rightarrow> (goerror + int) \<times> AuthTables" where
  "BeginSignIn username p t =
     (case findAccount username t of
        None \<Rightarrow> (Inl (Sentinel ErrNoRows), t)
      | Some a \<Rightarrow>
          if \<not> openTo p a then (Inl (Sentinel ErrNoRows), t)
          else (Inr (paFailures (attempted p a)), updateAccount username (attempted p) t))"

definition cleared :: "PasswordRow \<Rightarrow> PasswordRow" where
  "cleared a = a\<lparr>paFailures := 0, paLockedUntil := None\<rparr>"

definition rehashed :: "gostring \<Rightarrow> PasswordRow \<Rightarrow> PasswordRow" where
  "rehashed hash a = cleared (a\<lparr>paHash := hash\<rparr>)"

definition SetPasswordHash :: "gostring \<Rightarrow> gostring \<Rightarrow> AuthTables \<Rightarrow> (goerror + int) \<times> AuthTables" where
  "SetPasswordHash username hash t =
     (Inr (int (length (filter (\<lambda>a. paUsername a = username) (tbPasswords t)))), updateAccount username (rehashed hash) t)"

definition ResetPassword :: "Caller \<Rightarrow> gostring \<Rightarrow> gostring \<Rightarrow> AuthTables \<Rightarrow> (goerror + bool) \<times> AuthTables" where
  "ResetPassword who username hash t =
     (if \<not> administersAccounts who t then (Inl notAdministrator, t)
      else case findAccount username t of
        None \<Rightarrow> (Inr False, t)
      | Some a \<Rightarrow>
          (Inr True, (updateAccount username (rehashed hash) t)
             \<lparr>tbRefresh := filter (\<lambda>r. rfUserID r \<noteq> paUserID a) (tbRefresh t)\<rparr>))"

definition retiredRow :: "gostring \<Rightarrow> userRow \<Rightarrow> userRow" where
  "retiredRow userID u = (if urID u = userID then u\<lparr>urUsername := None, urAdmin := False\<rparr> else u)"

definition RemovePasswordAccount ::
  "AuthEnv \<Rightarrow> Caller \<Rightarrow> gostring \<Rightarrow> gostring \<Rightarrow> AuthTables \<Rightarrow> (goerror + bool) \<times> AuthTables" where
  "RemovePasswordAccount E who heir username t =
     (if \<not> administersAccounts who t then (Inl notAdministrator, t)
      else case findAccount username t of
        None \<Rightarrow> (Inr False, t)
      | Some a \<Rightarrow>
          (case aeStranded E (paUserID a) heir of
             Some detail \<Rightarrow> (Inl (StrandedError detail), t)
           | None \<Rightarrow>
               (Inr True, t\<lparr>tbPasswords := filter (\<lambda>b. paUsername b \<noteq> username) (tbPasswords t),
                            tbUsers := map (retiredRow (paUserID a)) (tbUsers t),
                            tbRefresh := filter (\<lambda>r. rfUserID r \<noteq> paUserID a) (tbRefresh t)\<rparr>)))"

subsection \<open>pgpassword.go\<close>

text \<open>What a call carries: the user the middleware named (\<open>owner.From\<close>, empty when there is none), the role its
  connections have, and whether its context is cancelled.\<close>

record AuthCtx =
  cxOwner :: gostring
  cxOwnerRole :: bool
  cxCancelled :: bool

definition administer :: "AuthCtx \<Rightarrow> (Caller \<Rightarrow> 'a auth) \<Rightarrow> 'a auth" where
  "administer ctx work =
     (let who = \<lparr>caUser = cxOwner ctx, caOwnerRole = cxOwnerRole ctx\<rparr>
      in if cxOwner ctx \<noteq> []
         then inTx (auth_bind (auth_wrap (lit ''set the scope'') (statement (\<lambda>t. (Inr (), t)))) (\<lambda>_. work who))
         else inTx (work who))"

definition libraryFor :: "gostring \<Rightarrow> bool \<Rightarrow> unit auth" where
  "libraryFor userID builtin =
     (if \<not> builtin then auth_wrap (lit ''create library'') (statement (CreateUser userID (lit ''docsearch'') userID))
      else auth_bind (auth_wrap (lit ''claim the built-in library'') (statement (ClaimBuiltinRow (lit ''docsearch'') (lit ''default''))))
             (\<lambda>claimed. if claimed = [] then auth_fail (Sentinel ErrBuiltinTaken) else auth_return ()))"

definition addError :: "gostring \<Rightarrow> goerror \<Rightarrow> goerror" where
  "addError username e = (if e = rowExists then Sentinel ErrTaken else Errorf (lit ''add account '' @ username) e)"

definition storeAdd :: "AuthCtx \<Rightarrow> gostring \<Rightarrow> gostring \<Rightarrow> gostring \<Rightarrow> bool \<Rightarrow> unit auth" where
  "storeAdd ctx username userID hash builtin =
     administer ctx (\<lambda>who. auth_bind (libraryFor userID builtin) (\<lambda>_ d.
       case statement (AddPasswordAccount who username userID hash) d of
         (Inl e, d) \<Rightarrow> (Inl (addError username e), d) | (Inr _, d) \<Rightarrow> (Inr (), d)))"

definition storeFind :: "gostring \<Rightarrow> PasswordRow option auth" where
  "storeFind username = auth_wrap (lit ''find account'') (statement (\<lambda>t. (Inr (findAccount username t), t)))"

definition storeBegin :: "gostring \<Rightarrow> Attempt \<Rightarrow> bool auth" where
  "storeBegin username p d =
     (case statement (BeginSignIn username p) d of
        (Inl e, d) \<Rightarrow> if errors_Is e ErrNoRows then (Inr False, d) else (Inl (Errorf (lit ''count sign-in attempt'') e), d)
      | (Inr _, d) \<Rightarrow> (Inr True, d))"

definition storeSucceeded :: "gostring \<Rightarrow> unit auth" where
  "storeSucceeded username =
     auth_wrap (lit ''clear failed sign-ins'') (statement (\<lambda>t. (Inr (), updateAccount username cleared t)))"

definition storeSetHash :: "gostring \<Rightarrow> gostring \<Rightarrow> unit auth" where
  "storeSetHash username hash =
     auth_bind (auth_wrap (lit ''set password'') (statement (SetPasswordHash username hash)))
       (\<lambda>rows. if rows = 0 then auth_fail (Sentinel ErrNoSuchAccount) else auth_return ())"

definition storeReset :: "AuthCtx \<Rightarrow> gostring \<Rightarrow> gostring \<Rightarrow> unit auth" where
  "storeReset ctx username hash =
     administer ctx (\<lambda>who. auth_bind (auth_wrap (lit ''reset password'') (statement (ResetPassword who username hash)))
       (\<lambda>found. if \<not> found then auth_fail (Sentinel ErrNoSuchAccount) else auth_return ()))"

text \<open>\<^verbatim>\<open>removal\<close>: what the deletion's answer means.\<close>

definition removal :: "goerror + bool \<Rightarrow> goerror + unit" where
  "removal r =
     (case r of
        Inl (StrandedError detail) \<Rightarrow> Inl (StrandedError detail)
      | Inl e \<Rightarrow> Inl (Errorf (lit ''remove account'') e)
      | Inr found \<Rightarrow> if \<not> found then Inl (Sentinel ErrNoSuchAccount) else Inr ())"

definition storeRemove :: "AuthEnv \<Rightarrow> AuthCtx \<Rightarrow> gostring \<Rightarrow> gostring \<Rightarrow> unit auth" where
  "storeRemove E ctx username heir =
     administer ctx (\<lambda>who. auth_bind (auth_wrap (lit ''remove account'') (statement (\<lambda>t. (Inr (), t)))) (\<lambda>_ d.
       case statement (RemovePasswordAccount E who heir username) d of (r, d) \<Rightarrow> (removal r, d)))"

definition storeList :: "PasswordRow list auth" where
  "storeList = auth_wrap (lit ''list accounts'') (statement (\<lambda>t.
     (Inr (map (\<lambda>u. the (findAccount u t)) (sort_texts (map paUsername (tbPasswords t)))), t)))"

definition storeExists :: "gostring \<Rightarrow> bool auth" where
  "storeExists userID =
     auth_wrap (lit ''check account'') (statement (\<lambda>t. (Inr (list_ex (\<lambda>a. paUserID a = userID) (tbPasswords t)), t)))"

subsection \<open>password.go\<close>

definition LockThreshold :: int where "LockThreshold = 5"
definition LockDuration :: int where "LockDuration = 900000"
definition MinLength :: int where "MinLength = 12"
definition Builtin :: gostring where "Builtin = lit ''default''"

definition hashParams :: HashParams where
  "hashParams = \<lparr>hpMemory = 19456, hpIterations = 2, hpParallelism = 1, hpSaltLength = 16, hpKeyLength = 32\<rparr>"

definition usernameRune :: "rune \<Rightarrow> bool" where
  "usernameRune r = ((97 \<le> r \<and> r \<le> 122) \<or> (48 \<le> r \<and> r \<le> 57) \<or> r = 46 \<or> r = 95 \<or> r = 45)"

text \<open>\<^verbatim>\<open>%q\<close>: the text in double quotes, what cannot be printed escaped.\<close>

definition quoteRune :: "unicode \<Rightarrow> rune \<Rightarrow> gostring" where
  "quoteRune U r =
     (if r = 34 \<or> r = 92 then [92, r]
      else if 32 \<le> r \<and> r < 127 then [r]
      else if 7 \<le> r \<and> r \<le> 13 then [92, [97, 98, 116, 110, 118, 102, 114] ! nat (r - 7)]
      else if r < 32 \<or> r = 127 then [92, 120] @ hex 2 (nat r)
      else if uPrint U r then [r]
      else if r < 0x10000 then [92, 117] @ hex 4 (nat r)
      else [92, 85] @ hex 8 (nat r))"

definition Quote :: "unicode \<Rightarrow> gostring \<Rightarrow> gostring" where
  "Quote U s = [34] @ concat (map (quoteRune U) s) @ [34]"

definition checkUsername :: "unicode \<Rightarrow> gostring \<Rightarrow> goerror + unit" where
  "checkUsername U username =
     (if list_all usernameRune username \<and> 1 \<le> length username \<and> length username \<le> 64 then Inr ()
      else Inl (Errorf (lit ''username '' @ Quote U username) (Sentinel ErrUsername)))"

definition createHash :: "AuthEnv \<Rightarrow> gostring \<Rightarrow> gostring auth" where
  "createHash E secret d =
     (let d' = d\<lparr>adTick := adTick d + 1\<rparr>
      in case aeCreateHash E (adTick d) secret of
           Inl e \<Rightarrow> (Inl (Errorf (lit ''hash password'') e), d') | Inr h \<Rightarrow> (Inr h, d'))"

definition hashOf :: "AuthEnv \<Rightarrow> gostring \<Rightarrow> gostring auth" where
  "hashOf E secret =
     (if int (length secret) < MinLength
      then auth_fail (ErrorNew (lit ''a password needs at least '' @ show_int MinLength @ lit '' characters''))
      else createHash E secret)"

definition passwordAdd :: "AuthEnv \<Rightarrow> AuthCtx \<Rightarrow> gostring \<Rightarrow> gostring \<Rightarrow> bool \<Rightarrow> unit auth" where
  "passwordAdd E ctx username secret builtin =
     (case checkUsername (aeUnicode E) username of
        Inl e \<Rightarrow> auth_fail e
      | Inr _ \<Rightarrow>
          auth_bind (hashOf E secret) (\<lambda>hash.
            if builtin then storeAdd ctx username Builtin hash builtin
            else auth_bind (randText E) (\<lambda>r. storeAdd ctx username (map (uToLower (aeUnicode E)) r) hash builtin)))"

definition SetPassword :: "AuthEnv \<Rightarrow> AuthCtx \<Rightarrow> gostring \<Rightarrow> gostring \<Rightarrow> unit auth" where
  "SetPassword E ctx username secret = auth_bind (hashOf E secret) (\<lambda>hash. storeReset ctx username hash)"

text \<open>A comparison, counted; a refusal makes one with the decoy.\<close>

definition checkHash :: "AuthEnv \<Rightarrow> gostring \<Rightarrow> gostring \<Rightarrow> (bool \<times> HashParams) auth" where
  "checkHash E secret hash d =
     (let d' = d\<lparr>adCompared := adCompared d + 1\<rparr>
      in case aeCheckHash E secret hash of Inl e \<Rightarrow> (Inl (Errorf (lit ''check password'') e), d') | Inr r \<Rightarrow> (Inr r, d'))"

definition refuse :: "AuthEnv \<Rightarrow> gostring \<Rightarrow> gostring \<Rightarrow> 'a auth" where
  "refuse E decoy secret = auth_bind (checkHash E secret decoy) (\<lambda>_. auth_fail (Sentinel ErrSignInRefused))"

definition signedIn :: "AuthEnv \<Rightarrow> gostring \<Rightarrow> gostring \<Rightarrow> HashParams \<Rightarrow> unit auth" where
  "signedIn E username secret made =
     (if made = hashParams then storeSucceeded username
      else auth_bind (createHash E secret) (\<lambda>hash. storeSetHash username hash))"

definition checkPassword :: "AuthEnv \<Rightarrow> PasswordRow \<Rightarrow> gostring \<Rightarrow> gostring auth" where
  "checkPassword E record' secret =
     auth_bind (checkHash E secret (paHash record')) (\<lambda>(match, made).
       if \<not> match then auth_fail (Sentinel ErrSignInRefused)
       else auth_bind (signedIn E (paUsername record') secret made) (\<lambda>_. auth_return (paUserID record')))"

definition attemptNow :: "int \<Rightarrow> Attempt" where
  "attemptNow t = \<lparr>atAt = t, atLockUntil = t + LockDuration, atThreshold = LockThreshold\<rparr>"

definition Authenticate :: "AuthEnv \<Rightarrow> gostring \<Rightarrow> AuthCtx \<Rightarrow> gostring \<Rightarrow> gostring \<Rightarrow> gostring auth" where
  "Authenticate E decoy ctx username secret =
     (if cxCancelled ctx then auth_fail (Errorf (lit ''wait to check password'') (Sentinel ErrContext))
      else auth_bind (storeFind (map (uToLower (aeUnicode E)) username)) (\<lambda>found.
        case found of
          None \<Rightarrow> refuse E decoy secret
        | Some record' \<Rightarrow>
            (\<lambda>d. auth_bind (storeBegin (paUsername record') (attemptNow (adClock d))) (\<lambda>opened.
               if \<not> opened then refuse E decoy secret else checkPassword E record' secret) d)))"

end
