(* ===== verification/Identity.thy ===== *)
theory Identity
  imports Accounts Nav
begin

text \<open>
  \<^verbatim>\<open>internal/resource\<close>, \<^verbatim>\<open>internal/account\<close> and \<^verbatim>\<open>pgaccount\<close>: a bearer token, the identity it names and the account
  that identity acts as.  The readers of tokens and \<^verbatim>\<open>oauthex.MatchesResource\<close> are arguments.
\<close>

subsection \<open>resource.go\<close>

record Ident =
  idIssuer :: gostring
  idSubject :: gostring

text \<open>A claim as JSON decodes it; a number, an object or null is \<open>CvOther\<close>.\<close>

datatype claimValue = CvString gostring | CvBool bool | CvList "claimValue list" | CvOther

record Claims =
  cmExpiry :: int
  cmStated :: "(gostring \<times> claimValue) list"
  cmIssuer :: gostring
  cmSubject :: gostring
  cmAudience :: "gostring list"
  cmScopes :: "gostring list"

record TokenInfo =
  tiScopes :: "gostring list"
  tiExpiration :: int
  tiIdentity :: "Ident option"
  tiStated :: "(gostring \<times> claimValue) list option"

record ResourceServer =
  rsIssuer :: gostring
  rsAudience :: gostring
  rsSigned :: "gostring \<Rightarrow> goerror + Claims"
  rsOpaque :: "gostring \<Rightarrow> goerror + Claims"
  rsMatches :: "gostring list \<Rightarrow> gostring \<Rightarrow> bool"
  rsUnicode :: unicode

definition invalidToken :: "gostring \<Rightarrow> goerror" where
  "invalidToken m = ErrorfPrefix (Sentinel ErrInvalidToken) (lit '': '' @ m)"

definition checkClaims :: "ResourceServer \<Rightarrow> Claims \<Rightarrow> goerror + unit" where
  "checkClaims s claims =
     (if cmIssuer claims \<noteq> rsIssuer s then Inl (invalidToken (lit ''issued by '' @ Quote (rsUnicode s) (cmIssuer claims)))
      else if cmSubject claims = [] then Inl (invalidToken (lit ''names no subject''))
      else if \<not> rsMatches s (cmAudience claims) (rsAudience s) then Inl (invalidToken (lit ''issued for another resource''))
      else Inr ())"

definition Verify :: "ResourceServer \<Rightarrow> gostring \<Rightarrow> goerror + TokenInfo" where
  "Verify s token =
     (let reader = (if length (filter (\<lambda>r. r = 46) token) = 2 then rsSigned s else rsOpaque s)
      in case reader token of
           Inl e \<Rightarrow> if errors_Is e ErrInvalidToken then Inl e else Inl (Sentinel ErrUnchecked)
         | Inr claims \<Rightarrow>
             (case checkClaims s claims of
                Inl e \<Rightarrow> Inl e
              | Inr _ \<Rightarrow> Inr \<lparr>tiScopes = cmScopes claims, tiExpiration = cmExpiry claims,
                   tiIdentity = Some \<lparr>idIssuer = cmIssuer claims, idSubject = cmSubject claims\<rparr>,
                   tiStated = Some (cmStated claims)\<rparr>))"

text \<open>\<^verbatim>\<open>Unintrospected.Read\<close>.\<close>

definition Unintrospected :: "gostring \<Rightarrow> goerror + Claims" where
  "Unintrospected token = Inl (invalidToken (lit ''not a JWT, and no introspection is configured to read it''))"

definition IdentityOf :: "TokenInfo option \<Rightarrow> goerror + Ident" where
  "IdentityOf info =
     (case info of
        None \<Rightarrow> Inl (ErrorNew (lit ''no token info: the request did not pass Protect''))
      | Some i \<Rightarrow> (case tiIdentity i of None \<Rightarrow> Inl (ErrorNew (lit ''token info carries no identity'')) | Some d \<Rightarrow> Inr d))"

definition Stated :: "TokenInfo option \<Rightarrow> gostring \<Rightarrow> claimValue option" where
  "Stated info name =
     (case info of
        None \<Rightarrow> None
      | Some i \<Rightarrow> (case tiStated i of None \<Rightarrow> None | Some stated \<Rightarrow> map_of stated name))"

subsection \<open>pgaccount.go\<close>

definition hasIdentity :: "Ident \<Rightarrow> userRow \<Rightarrow> bool" where
  "hasIdentity i u = (urIssuer u = Some (idIssuer i) \<and> urSubject u = Some (idSubject i))"

definition AccountByIdentity :: "Ident \<Rightarrow> AuthTables \<Rightarrow> (goerror + gostring) \<times> AuthTables" where
  "AccountByIdentity i t =
     (case find (hasIdentity i) (tbUsers t) of None \<Rightarrow> (Inl (Sentinel ErrNoRows), t) | Some u \<Rightarrow> (Inr (urID u), t))"

definition accountFind :: "Ident \<Rightarrow> gostring option auth" where
  "accountFind i d =
     (case statement (AccountByIdentity i) d of
        (Inl e, d) \<Rightarrow> if errors_Is e ErrNoRows then (Inr None, d) else (Inl (Errorf (lit ''find account'') e), d)
      | (Inr u, d) \<Rightarrow> (Inr (Some u), d))"

definition accountClaim :: "Ident \<Rightarrow> gostring auth" where
  "accountClaim i = auth_wrap (lit ''claim the built-in library'') (statement (ClaimBuiltinRow (idIssuer i) (idSubject i)))"

definition accountCreate :: "gostring \<Rightarrow> Ident \<Rightarrow> unit auth" where
  "accountCreate userID i = auth_wrap (lit ''create account'') (statement (CreateUser userID (idIssuer i) (idSubject i)))"

text \<open>\<^verbatim>\<open>set_username\<close>: an account names only itself, and a name another account holds stays with it.\<close>

definition SetUsername :: "Caller \<Rightarrow> gostring \<Rightarrow> gostring \<Rightarrow> AuthTables \<Rightarrow> (goerror + bool) \<times> AuthTables" where
  "SetUsername who userID name t =
     (if \<not> caOwnerRole who \<and> userID \<noteq> caUser who then (Inl (ErrorNew (lit ''an account names only itself'')), t)
      else let t' = (if list_ex (\<lambda>u. urUsername u = Some name \<and> urID u \<noteq> userID) (tbUsers t) then t
                     else t\<lparr>tbUsers := map (namedRow userID (Some name)) (tbUsers t)\<rparr>)
           in (Inr (list_ex (\<lambda>u. urID u = userID \<and> urUsername u = Some name) (tbUsers t')), t'))"

definition noScope :: goerror where
  "noScope = ErrorNew (lit ''no scope: a statement without a user and a library would match no rows'')"

definition accountName :: "gostring \<Rightarrow> gostring \<Rightarrow> bool auth" where
  "accountName userID name =
     auth_wrap (lit ''record username'') (inTx
       (if userID = [] then auth_fail noScope
        else auth_bind (auth_wrap (lit ''set the scope'') (statement (\<lambda>t. (Inr (), t))))
               (\<lambda>_. statement (SetUsername \<lparr>caUser = userID, caOwnerRole = False\<rparr> userID name))))"

definition accountUsers :: "gostring list auth" where
  "accountUsers = auth_wrap (lit ''list accounts'') (statement (\<lambda>t. (Inr (sort_texts (map urID (tbUsers t))), t)))"

subsection \<open>account.go\<close>

record Policy =
  plDefaultOwner :: Ident
  plRequiredName :: gostring
  plRequiredValue :: gostring
  plUsernameClaim :: gostring
  plSignUp :: bool

definition newUserID :: "AuthEnv \<Rightarrow> gostring auth" where
  "newUserID E = auth_bind (randText E) (\<lambda>r. auth_return (map (uToLower (aeUnicode E)) r))"

definition createAccount :: "AuthEnv \<Rightarrow> Ident \<Rightarrow> gostring auth" where
  "createAccount E i = auth_bind (newUserID E) (\<lambda>user d.
     case accountCreate user i d of
       (Inr _, d) \<Rightarrow> (Inr user, d)
     | (Inl createErr, d) \<Rightarrow>
         (case accountFind i d of
            (Inl e, d) \<Rightarrow> (Inl (Join [createErr, e]), d)
          | (Inr None, d) \<Rightarrow> (Inl (Errorf (lit ''create account'') createErr), d)
          | (Inr (Some existing), d) \<Rightarrow> (Inr existing, d)))"

definition signUp :: "AuthEnv \<Rightarrow> Policy \<Rightarrow> Ident \<Rightarrow> gostring auth" where
  "signUp E P i = (if \<not> plSignUp P then auth_fail (Sentinel ErrNoAccount) else createAccount E i)"

definition resolveIdentity :: "AuthEnv \<Rightarrow> Policy \<Rightarrow> Ident \<Rightarrow> gostring auth" where
  "resolveIdentity E P i = auth_bind (accountFind i) (\<lambda>found.
     case found of
       Some user \<Rightarrow> auth_return user
     | None \<Rightarrow>
         if idSubject (plDefaultOwner P) \<noteq> [] \<and> i = plDefaultOwner P
         then auth_bind (accountClaim i) (\<lambda>user. if user \<noteq> [] then auth_return user else signUp E P i)
         else signUp E P i)"

definition usernameShapeRune :: "rune \<Rightarrow> bool" where
  "usernameShapeRune r = ((97 \<le> r \<and> r \<le> 122) \<or> (48 \<le> r \<and> r \<le> 57) \<or> r \<in> {46, 95, 64, 43, 45})"

definition usernameShape :: "gostring \<Rightarrow> bool" where
  "usernameShape s = (list_all usernameShapeRune s \<and> 1 \<le> length s \<and> length s \<le> 128)"

definition nameIn :: "unicode \<Rightarrow> TokenInfo option \<Rightarrow> gostring \<Rightarrow> gostring option" where
  "nameIn U info claim =
     (case Stated info claim of
        Some (CvString s) \<Rightarrow> let name = map (uToLower U) (TrimSpace s) in if usernameShape name then Some name else None
      | _ \<Rightarrow> None)"

text \<open>\<^verbatim>\<open>strings.EqualFold(value, "true")\<close>: none of these letters folds outside ASCII.\<close>

definition equalFoldTrue :: "gostring \<Rightarrow> bool" where
  "equalFoldTrue s = (map (\<lambda>r. if 65 \<le> r \<and> r \<le> 90 then r + 32 else r) s = lit ''true'')"

definition verified :: "TokenInfo option \<Rightarrow> bool" where
  "verified info =
     (case Stated info (lit ''email_verified'') of
        Some (CvBool b) \<Rightarrow> b
      | Some (CvString s) \<Rightarrow> equalFoldTrue s
      | _ \<Rightarrow> False)"

definition UsernameOf :: "unicode \<Rightarrow> TokenInfo option \<Rightarrow> gostring \<Rightarrow> gostring option" where
  "UsernameOf U info claim =
     (if claim \<noteq> [] then nameIn U info claim
      else case (if verified info then nameIn U info (lit ''email'') else None) of
             Some name \<Rightarrow> Some name
           | None \<Rightarrow> nameIn U info (lit ''preferred_username''))"

text \<open>\<^verbatim>\<open>a.named\<close>: the name each account was recorded under by this process.\<close>

type_synonym recordedNames = "gostring \<rightharpoonup> gostring"

definition remember :: "AuthEnv \<Rightarrow> Policy \<Rightarrow> gostring \<Rightarrow> TokenInfo option \<Rightarrow> recordedNames \<times> AuthDB \<Rightarrow> recordedNames \<times> AuthDB" where
  "remember E P user info = (\<lambda>(seen, d).
     case UsernameOf (aeUnicode E) info (plUsernameClaim P) of
       None \<Rightarrow> (seen, d)
     | Some name \<Rightarrow>
         if seen user = Some name then (seen, d)
         else (case accountName user name d of (Inl e, d) \<Rightarrow> (seen, d) | (Inr held, d) \<Rightarrow> (seen(user \<mapsto> name), d)))"

definition allowed :: "Policy \<Rightarrow> TokenInfo option \<Rightarrow> bool" where
  "allowed P info =
     (if plRequiredName P = [] then True
      else case Stated info (plRequiredName P) of
             Some (CvString s) \<Rightarrow> s = plRequiredValue P
           | Some (CvList vs) \<Rightarrow> CvString (plRequiredValue P) \<in> set vs
           | _ \<Rightarrow> False)"

text \<open>What the middleware does with a request: an answer of its own, or the next handler for a user.\<close>

datatype admitted = Refused int gostring | ServedFor gostring

definition Middleware :: "AuthEnv \<Rightarrow> Policy \<Rightarrow> TokenInfo option \<Rightarrow> recordedNames \<times> AuthDB \<Rightarrow> admitted \<times> recordedNames \<times> AuthDB" where
  "Middleware E P info = (\<lambda>(seen, d).
     if \<not> allowed P info then (Refused 403 (sentinelText ErrNotAllowed), seen, d)
     else case IdentityOf info of
       Inl e \<Rightarrow> (Refused 500 (lit ''no identity''), seen, d)
     | Inr i \<Rightarrow>
         (case resolveIdentity E P i d of
            (Inl e, d) \<Rightarrow>
              if errors_Is e ErrNoAccount then (Refused 403 (errorText e), seen, d)
              else (Refused 500 (lit ''account not resolved''), seen, d)
          | (Inr user, d) \<Rightarrow> (ServedFor user, remember E P user info (seen, d))))"

subsection \<open>owner: the user of a request, and how a deployment decides it\<close>

text \<open>\<^verbatim>\<open>owner.From\<close>: the name a context carries, which is empty without the middleware.\<close>

definition ownerFrom :: "AuthCtx \<Rightarrow> goerror + gostring" where
  "ownerFrom ctx = (if cxOwner ctx = [] then Inl (Sentinel ErrNoOwner) else Inr (cxOwner ctx))"

definition ownerWith :: "AuthCtx \<Rightarrow> gostring \<Rightarrow> AuthCtx" where
  "ownerWith ctx user = ctx\<lparr>cxOwner := user\<rparr>"

text \<open>A mode is a number: the zero value is none of them.\<close>

type_synonym Mode = int

definition ModeNone :: Mode where "ModeNone = 1"
definition ModeToken :: Mode where "ModeToken = 2"
definition ModePassword :: Mode where "ModePassword = 3"
definition ModeOIDC :: Mode where "ModeOIDC = 4"

definition modeNames :: "(Mode \<times> gostring) list" where
  "modeNames = [(ModeNone, lit ''none''), (ModeToken, lit ''token''), (ModePassword, lit ''password''), (ModeOIDC, lit ''oidc'')]"

definition ModeString :: "Mode \<Rightarrow> gostring" where
  "ModeString m = (case map_of modeNames m of Some name \<Rightarrow> name | None \<Rightarrow> lit ''Mode('' @ show_int m @ lit '')'')"

definition Spellings :: "gostring list" where
  "Spellings = map ModeString [ModeNone, ModeToken, ModePassword, ModeOIDC]"

definition ParseMode :: "unicode \<Rightarrow> gostring \<Rightarrow> goerror + Mode" where
  "ParseMode U spelling =
     (case find (\<lambda>(m, name). spelling = name) modeNames of
        Some (m, name) \<Rightarrow> Inr m
      | None \<Rightarrow> Inl (ErrorNew (lit ''unknown auth mode '' @ Quote U spelling @ lit '': one of ['' @ join [32] Spellings @ lit '']'')))"

end
