(* ===== verification/Sessions.thy ===== *)
theory Sessions
  imports Accounts
begin

text \<open>
  The interface of sessions that share the account tables: an order on tables that every statement follows is
  followed by every operation, whatever other sessions that follow it do in between.
\<close>

definition peers :: "(AuthTables \<Rightarrow> AuthTables \<Rightarrow> bool) \<Rightarrow> AuthDB \<Rightarrow> bool" where
  "peers P d = (\<forall>f\<in>set (adOthers d). \<forall>t. P t (f t))"

text \<open>An operation follows \<open>P\<close> when its peers do, and leaves a state in which the rest of them still do.\<close>

definition keeping :: "(AuthTables \<Rightarrow> AuthTables \<Rightarrow> bool) \<Rightarrow> 'a auth \<Rightarrow> bool" where
  "keeping P m = (\<forall>d. peers P d \<longrightarrow> P (adTables d) (adTables (snd (m d))) \<and> peers P (snd (m d)))"

lemma keepingD: "keeping P m \<Longrightarrow> peers P d \<Longrightarrow> m d = (r, d') \<Longrightarrow> P (adTables d) (adTables d') \<and> peers P d'"
  unfolding keeping_def by (metis snd_conv)

lemma peers_same [simp]: "peers P (d\<lparr>adTables := t\<rparr>) = peers P d" "peers P (d\<lparr>adOthers := []\<rparr>)"
  by (simp_all add: peers_def)

lemma find_SomeD: "find P xs = Some x \<Longrightarrow> x \<in> set xs \<and> P x"
  by (induction xs) (auto split: if_splits)

lemma statement_answer:
  assumes "statement f d = (Inr a, d')"
  shows "f (others d) = (Inr a, adTables d')"
  using assms by (auto simp: statement_def Let_def split: if_splits prod.splits sum.splits)

lemma statement_alone:
  "adFaults d = [] \<Longrightarrow> adOthers d = [] \<Longrightarrow>
     statement f d = (case f (adTables d) of (Inl e, _) \<Rightarrow> (Inl e, d) | (Inr a, t) \<Rightarrow> (Inr a, d\<lparr>adTables := t\<rparr>))"
  by (cases d) (auto simp: statement_def others_def Let_def split: prod.splits sum.splits)

lemma bind_Inr:
  assumes "auth_bind m f d = (Inr b, d')"
  obtains a d0 where "m d = (Inr a, d0)" "f a d0 = (Inr b, d')"
  using assms by (auto simp: auth_bind_def split: prod.splits sum.splits)

lemma wrap_Inr: "auth_wrap w m d = (Inr a, d') \<longleftrightarrow> m d = (Inr a, d')"
  by (auto simp: auth_wrap_def split: prod.splits sum.splits)

locale session_order =
  fixes P :: "AuthTables \<Rightarrow> AuthTables \<Rightarrow> bool"
  assumes P_refl: "P t t"
    and P_trans: "P a b \<Longrightarrow> P b c \<Longrightarrow> P a c"
begin

lemma statement:
  assumes "\<And>t. P t (snd (f t))"
  shows "keeping P (statement f)"
  unfolding keeping_def
proof (intro allI impI)
  fix d assume p: "peers P d"
  have o: "P (adTables d) (others d)"
    using p by (auto simp: peers_def others_def P_refl split: list.splits)
  then have "P (adTables d) (snd (f (others d)))" using assms by (rule P_trans)
  moreover have "\<forall>f\<in>set (tl (adOthers d)). \<forall>t. P t (f t)"
    using p by (cases "adOthers d") (auto simp: peers_def)
  ultimately show "P (adTables d) (adTables (snd (statement f d))) \<and> peers P (snd (statement f d))"
    using o by (auto simp: statement_def Let_def peers_def split: prod.splits sum.splits)
qed

lemma catch:
  assumes "keeping P m" "\<And>a. keeping P (f a)" "\<And>e. keeping P (g e)"
  shows "keeping P (\<lambda>d. case m d of (Inl e, d) \<Rightarrow> g e d | (Inr a, d) \<Rightarrow> f a d)"
  unfolding keeping_def
proof (intro allI impI)
  fix d assume p: "peers P d"
  obtain r d0 where m: "m d = (r, d0)" by (metis surj_pair)
  note k = keepingD[OF assms(1) p m]
  show "P (adTables d) (adTables (snd (case m d of (Inl e, d) \<Rightarrow> g e d | (Inr a, d) \<Rightarrow> f a d)))
        \<and> peers P (snd (case m d of (Inl e, d) \<Rightarrow> g e d | (Inr a, d) \<Rightarrow> f a d))"
  proof (cases r)
    case (Inl e)
    with m k keepingD[OF assms(3), of d0 e] show ?thesis by (cases "g e d0") (auto intro: P_trans)
  next
    case (Inr a)
    with m k keepingD[OF assms(2), of d0 a] show ?thesis by (cases "f a d0") (auto intro: P_trans)
  qed
qed

lemma pure: "keeping P (auth_return a)" "keeping P (auth_fail e)" "keeping P (randText E)"
  by (auto simp: keeping_def auth_return_def auth_fail_def randText_def peers_def P_refl)

lemma bind:
  assumes "keeping P m" "\<And>a. keeping P (f a)"
  shows "keeping P (auth_bind m f)"
proof -
  have "auth_bind m f = (\<lambda>d. case m d of (Inl e, d) \<Rightarrow> auth_fail e d | (Inr a, d) \<Rightarrow> f a d)"
    by (rule ext) (auto simp: auth_bind_def auth_fail_def split: prod.splits sum.splits)
  then show ?thesis by (simp only:) (intro catch assms pure)
qed

lemma wrap:
  assumes "keeping P m"
  shows "keeping P (auth_wrap w m)"
proof -
  have "auth_wrap w m = (\<lambda>d. case m d of (Inl e, d) \<Rightarrow> auth_fail (Errorf w e) d | (Inr a, d) \<Rightarrow> auth_return a d)"
    by (rule ext) (auto simp: auth_wrap_def auth_fail_def auth_return_def split: prod.splits sum.splits)
  then show ?thesis by (simp only:) (intro catch assms pure)
qed

text \<open>A transaction keeps the order when its body does.\<close>

lemma inTx:
  assumes m: "keeping P m"
  shows "keeping P (inTx m)"
  unfolding keeping_def
proof (intro allI impI)
  fix d assume p: "peers P d"
  have idle: "keeping P (auth_wrap w (Accounts.statement (\<lambda>t. (Inr (), t))))" for w
    by (intro wrap statement) (simp add: P_refl)
  obtain r d0 where b: "auth_wrap (lit ''begin'') (Accounts.statement (\<lambda>t. (Inr (), t))) d = (r, d0)" by (metis surj_pair)
  note k0 = keepingD[OF idle p b]
  show "P (adTables d) (adTables (snd (inTx m d))) \<and> peers P (snd (inTx m d))"
  proof (cases r)
    case (Inl e)
    with b k0 show ?thesis by (simp add: inTx_def)
  next
    case (Inr u)
    obtain r1 d1 where body: "m (d0\<lparr>adOthers := []\<rparr>) = (r1, d1)" by (metis surj_pair)
    note k1 = keepingD[OF m peers_same(2) body]
    obtain r2 d2 where c: "auth_wrap (lit ''commit'') (Accounts.statement (\<lambda>t. (Inr (), t))) d1 = (r2, d2)" by (metis surj_pair)
    note k2 = keepingD[OF idle _ c]
    from b Inr body c k0 k1 k2 show ?thesis
      by (auto simp: inTx_def peers_def intro: P_trans split: sum.splits)
  qed
qed

end

end
