(* ===== verification/Accounts_Props.thy ===== *)
theory Accounts_Props
  imports Sessions
begin

text \<open>
  Password sign-in: how many guesses an account takes, what a sign-in answers, and what interleaved sessions
  can do to it.
\<close>

subsection \<open>Steps\<close>

text \<open>What sessions do to the accounts, one committed statement at a time, in any order.\<close>

datatype signStep =
    Begins gostring int
  | Clears gostring
  | SetsHash gostring gostring
  | Resets Caller gostring gostring
  | Removes Caller gostring gostring
  | Adds Caller gostring gostring gostring

fun signRun :: "AuthEnv \<Rightarrow> signStep \<Rightarrow> AuthTables \<Rightarrow> AuthTables" where
  "signRun E (Begins u now) t = snd (BeginSignIn u (attemptNow now) t)"
| "signRun E (Clears u) t = updateAccount u cleared t"
| "signRun E (SetsHash u h) t = snd (SetPasswordHash u h t)"
| "signRun E (Resets who u h) t = snd (ResetPassword who u h t)"
| "signRun E (Removes who heir u) t = snd (RemovePasswordAccount E who heir u t)"
| "signRun E (Adds who u userID h) t = snd (AddPasswordAccount who u userID h t)"

text \<open>Whether a step lets a password for \<open>u\<close> be checked.\<close>

fun opens :: "gostring \<Rightarrow> signStep \<Rightarrow> AuthTables \<Rightarrow> bool" where
  "opens u (Begins v now) t = (v = u \<and> (case fst (BeginSignIn v (attemptNow now) t) of Inl _ \<Rightarrow> False | Inr _ \<Rightarrow> True))"
| "opens u _ t = False"

fun openings :: "AuthEnv \<Rightarrow> gostring \<Rightarrow> signStep list \<Rightarrow> AuthTables \<Rightarrow> nat" where
  "openings E u [] t = 0"
| "openings E u (s # ss) t = (if opens u s t then 1 else 0) + openings E u ss (signRun E s t)"

text \<open>A step that clears the count of \<open>u\<close>: a correct password, or an administrator.\<close>

fun lifts :: "gostring \<Rightarrow> signStep \<Rightarrow> bool" where
  "lifts u (Begins v now) = False"
| "lifts u (Clears v) = (v = u)"
| "lifts u (SetsHash v h) = (v = u)"
| "lifts u (Resets who v h) = (v = u)"
| "lifts u (Removes who heir v) = (v = u)"
| "lifts u (Adds who v userID h) = False"

fun inWindow :: "int \<Rightarrow> gostring \<Rightarrow> signStep \<Rightarrow> bool" where
  "inWindow opened u (Begins v now) = (v = u \<longrightarrow> opened \<le> now \<and> now < opened + LockDuration)"
| "inWindow opened u _ = True"

subsection \<open>What a step does to one account\<close>

lemma find_map_same:
  "(\<And>x. P (f x) = P x) \<Longrightarrow> find P (map f xs) = map_option f (find P xs)"
  by (induction xs) auto

lemma find_append: "find P (xs @ ys) = (case find P xs of None \<Rightarrow> find P ys | Some x \<Rightarrow> Some x)"
  by (induction xs) auto

lemma find_filter_same: "(\<And>x. P x \<Longrightarrow> Q x) \<Longrightarrow> find P (filter Q xs) = find P xs"
  by (induction xs) auto

lemma find_map_named:
  assumes "\<And>a. paUsername (f a) = paUsername a"
  shows "find (\<lambda>a. paUsername a = u) (map (\<lambda>a. if paUsername a = v then f a else a) xs)
       = (if u = v then map_option f (find (\<lambda>a. paUsername a = u) xs) else find (\<lambda>a. paUsername a = u) xs)"
  by (induction xs) (auto simp: assms)

lemma find_update:
  assumes "\<And>a. paUsername (f a) = paUsername a"
  shows "findAccount u (updateAccount v f t) = (if u = v then map_option f (findAccount u t) else findAccount u t)"
  using find_map_named[OF assms] by (simp add: findAccount_def updateAccount_def)

lemma names_kept [simp]:
  "paUsername (cleared a) = paUsername a" "paUsername (rehashed h a) = paUsername a" "paUsername (attempted p a) = paUsername a"
  by (simp_all add: cleared_def rehashed_def attempted_def Let_def)

lemma find_other_tables [simp]:
  "findAccount u (t\<lparr>tbUsers := x\<rparr>) = findAccount u t" "findAccount u (t\<lparr>tbRefresh := y\<rparr>) = findAccount u t"
  by (simp_all add: findAccount_def)

lemma find_signRun:
  "findAccount u (signRun E s t) =
     (case s of
        Begins v now \<Rightarrow> (case findAccount u t of
            None \<Rightarrow> None
          | Some a \<Rightarrow> Some (if v = u \<and> openTo (attemptNow now) a then attempted (attemptNow now) a else a))
      | Clears v \<Rightarrow> (if v = u then map_option cleared (findAccount u t) else findAccount u t)
      | SetsHash v h \<Rightarrow> (if v = u then map_option (rehashed h) (findAccount u t) else findAccount u t)
      | Resets who v h \<Rightarrow> (if v = u \<and> administersAccounts who t then map_option (rehashed h) (findAccount u t) else findAccount u t)
      | Removes who heir v \<Rightarrow> findAccount u (signRun E (Removes who heir v) t)
      | Adds who v userID h \<Rightarrow> findAccount u (signRun E (Adds who v userID h) t))"
  by (cases s) (auto simp: BeginSignIn_def SetPasswordHash_def ResetPassword_def find_update split: option.splits)

lemma find_removed:
  "findAccount u (signRun E (Removes who heir v) t) = findAccount u t
   \<or> (v = u \<and> findAccount u (signRun E (Removes who heir v) t) = None)"
proof -
  have other: "find (\<lambda>a. paUsername a = u) (filter (\<lambda>b. paUsername b \<noteq> v) xs) = find (\<lambda>a. paUsername a = u) xs" if "u \<noteq> v" for xs
    using that by (intro find_filter_same) auto
  have same: "find (\<lambda>a. paUsername a = v) (filter (\<lambda>b. paUsername b \<noteq> v) xs) = None" for xs
    by (induction xs) auto
  show ?thesis
  proof (cases "u = v")
    case True
    then show ?thesis by (auto simp: RemovePasswordAccount_def findAccount_def same simp del: not_None_eq split: option.splits)
  next
    case False
    then show ?thesis by (auto simp: RemovePasswordAccount_def findAccount_def other split: option.splits)
  qed
qed

lemma find_added:
  "findAccount u (signRun E (Adds who v userID h) t) = findAccount u t
   \<or> (findAccount u t = None \<and> (\<exists>a. findAccount u (signRun E (Adds who v userID h) t) = Some a
        \<and> paFailures a = 0 \<and> paLockedUntil a = None))"
  by (auto simp: AddPasswordAccount_def findAccount_def find_append split: option.splits)

subsection \<open>The throttle\<close>

text \<open>An unlocked account has fewer failures than the threshold.\<close>

definition counted :: "gostring \<Rightarrow> AuthTables \<Rightarrow> bool" where
  "counted u t = (\<forall>a. findAccount u t = Some a \<longrightarrow> paLockedUntil a = None \<longrightarrow> 0 \<le> paFailures a \<and> paFailures a < LockThreshold)"

definition sound :: "PasswordRow \<Rightarrow> bool" where
  "sound a = (paLockedUntil a = None \<longrightarrow> 0 \<le> paFailures a \<and> paFailures a < LockThreshold)"

lemma counted_sound: "counted u t = (\<forall>a. findAccount u t = Some a \<longrightarrow> sound a)"
  by (auto simp: counted_def sound_def)

lemma sound_changed [simp]: "sound (cleared a)" "sound (rehashed h a)"
  "sound a \<Longrightarrow> sound (attempted (attemptNow now) a)"
  by (simp_all add: sound_def cleared_def rehashed_def attempted_def attemptNow_def LockThreshold_def Let_def)

lemma counted_step:
  assumes "counted u t"
  shows "counted u (signRun E s t)"
proof (cases s)
  case (Removes who heir v)
  with assms find_removed[of u E who heir v t] show ?thesis by (auto simp: counted_sound simp del: signRun.simps)
next
  case (Adds who v userID h)
  with assms find_added[of u E who v userID h t] show ?thesis
    by (auto simp: counted_sound sound_def LockThreshold_def simp del: signRun.simps)
next
  case (Begins v now)
  with assms show ?thesis by (auto simp: counted_sound find_signRun simp del: signRun.simps split: option.splits)
qed (use assms in \<open>auto simp: counted_sound find_signRun simp del: signRun.simps\<close>)

lemma counted_run: "counted u t \<Longrightarrow> counted u (fold (signRun E) ss t)"
  by (induction ss arbitrary: t) (simp_all add: counted_step)

text \<open>How many attempts an account has left in a window that ends at \<open>bound\<close>.\<close>

definition attemptsLeft :: "int \<Rightarrow> gostring \<Rightarrow> AuthTables \<Rightarrow> nat" where
  "attemptsLeft bound u t =
     (case findAccount u t of
        None \<Rightarrow> nat LockThreshold
      | Some a \<Rightarrow> (case paLockedUntil a of
            None \<Rightarrow> nat (LockThreshold - paFailures a)
          | Some l \<Rightarrow> if l < bound then nat LockThreshold else 0))"

lemma attemptsLeft_cong: "findAccount u t' = findAccount u t \<Longrightarrow> attemptsLeft bound u t' = attemptsLeft bound u t"
  by (simp add: attemptsLeft_def)

lemma attempt_spent:
  assumes "counted u t" "inWindow opened u s" "\<not> lifts u s"
  shows "(if opens u s t then 1 else 0) + attemptsLeft (opened + LockDuration) u (signRun E s t) \<le> attemptsLeft (opened + LockDuration) u t"
proof (cases s)
  case (Begins v now)
  show ?thesis
  proof (cases "v = u \<and> findAccount u t \<noteq> None")
    case True
    then obtain a where a: "findAccount u t = Some a" "v = u" by auto
    with assms(1) have "paLockedUntil a = None \<Longrightarrow> 0 \<le> paFailures a \<and> paFailures a < 5"
      by (simp add: counted_def LockThreshold_def)
    with a assms(2) Begins show ?thesis
      by (cases "paLockedUntil a")
        (auto simp: attemptsLeft_def find_signRun BeginSignIn_def openTo_def attempted_def attemptNow_def
           LockThreshold_def LockDuration_def Let_def simp del: signRun.simps)
  next
    case False
    then have "findAccount u (signRun E s t) = findAccount u t" "\<not> opens u s t"
      by (auto simp: Begins find_signRun BeginSignIn_def simp del: signRun.simps split: option.splits)
    then show ?thesis using attemptsLeft_cong[of u "signRun E s t" t] by (simp del: signRun.simps)
  qed
next
  case (Adds who v userID h)
  with find_added[of u E who v userID h t] show ?thesis
    by (auto simp: attemptsLeft_def LockThreshold_def simp del: signRun.simps)
next
  case (Removes who heir v)
  with assms find_removed[of u E who heir v t] show ?thesis
    using attemptsLeft_cong[of u "signRun E s t" t] by (auto simp del: signRun.simps)
qed (use assms in \<open>simp_all add: attemptsLeft_def find_signRun del: signRun.simps\<close>)

lemma openings_le:
  "counted u t \<Longrightarrow> \<forall>s\<in>set ss. inWindow opened u s \<and> \<not> lifts u s
   \<Longrightarrow> openings E u ss t \<le> attemptsLeft (opened + LockDuration) u t"
proof (induction ss arbitrary: t)
  case (Cons s ss)
  then have "openings E u ss (signRun E s t) \<le> attemptsLeft (opened + LockDuration) u (signRun E s t)"
    by (simp add: counted_step)
  moreover have "(if opens u s t then 1 else 0) + attemptsLeft (opened + LockDuration) u (signRun E s t)
      \<le> attemptsLeft (opened + LockDuration) u t" using Cons.prems by (intro attempt_spent) auto
  ultimately show ?case by (simp only: openings.simps)
qed simp

lemma attemptsLeft_le: "counted u t \<Longrightarrow> attemptsLeft bound u t \<le> 5"
  by (auto simp: attemptsLeft_def counted_def LockThreshold_def split: option.splits)


definition someEnv :: AuthEnv where
  "someEnv = \<lparr>aeUnicode = \<lparr>uLetter = \<lambda>_. True, uNd = \<lambda>_. False, uNlNo = \<lambda>_. False, uPrint = \<lambda>_. True,
       uCased = \<lambda>_. False, uMarkLike = \<lambda>_. False, uToLower = \<lambda>r. r\<rparr>,
     aeRand = \<lambda>n. [97 + int n], aeSHA = \<lambda>s. s, aeCreateHash = \<lambda>n s. Inr s,
     aeCheckHash = \<lambda>s h. Inr (s = h, hashParams\<lparr>hpIterations := 1\<rparr>), aeStranded = \<lambda>_ _. None\<rparr>"

definition someOwner :: Caller where "someOwner = \<lparr>caUser = [], caOwnerRole = True\<rparr>"

definition someTables :: AuthTables where
  "someTables = \<lparr>tbUsers = [\<lparr>urID = [1], urIssuer = Some [7], urSubject = Some [1], urUsername = None, urAdmin = False\<rparr>],
     tbPasswords = [], tbClients = [], tbRequests = [], tbRefresh = [], tbKeys = []\<rparr>"


subsection \<open>What a sign-in answers\<close>

lemma found_name: "findAccount u t = Some a \<Longrightarrow> paUsername a = u"
  unfolding findAccount_def by (induction "tbPasswords t" arbitrary: t) (auto simp: find_Some_iff)

lemma found_rows: "findAccount u t = Some a \<Longrightarrow> filter (\<lambda>a. paUsername a = u) (tbPasswords t) \<noteq> []"
  by (auto simp: findAccount_def find_Some_iff filter_empty_conv)

lemma found_updated:
  assumes "findAccount u t = Some a"
  shows "filter (\<lambda>a. paUsername a = u) (tbPasswords (updateAccount v (attempted p) t)) \<noteq> []"
proof -
  from assms have "findAccount u (updateAccount v (attempted p) t) \<noteq> None" by (auto simp: find_update)
  then show ?thesis using found_rows by blast
qed

lemmas auth_defs = auth_bind_def auth_return_def auth_fail_def auth_wrap_def


definition signedUp :: AuthTables where
  "signedUp = signRun someEnv (Adds someOwner [2] [1] [9]) someTables"

definition signInDB :: AuthDB where
  "signInDB = \<lparr>adTables = signedUp, adFaults = [], adOthers = [], adClock = 0, adTick = 0, adCompared = 0\<rparr>"

definition noCtx :: AuthCtx where "noCtx = \<lparr>cxOwner = [], cxOwnerRole = True, cxCancelled = False\<rparr>"


text \<open>A password an administrator replaced comes back.  A sign-in reads the account, another session resets the
  password, and the sign-in, whose old password matched the hash it read under earlier costs, stores that password
  again and signs in with it.\<close>

lemma reset_undone:
  "let reset = signRun someEnv (Resets someOwner [2] [8]);
       (r, d') = Authenticate someEnv [] noCtx [2] [9] (signInDB\<lparr>adOthers := [\<lambda>t. t, \<lambda>t. t, reset]\<rparr>)
   in r = Inr [1] \<and> map_option paHash (findAccount [2] (adTables d')) = Some [9]"
  by code_simp

end
