(* ===== verification/Identity_Props.thy ===== *)
theory Identity_Props
  imports Identity Accounts_Props
begin

text \<open>
  An identity is one account and an account one identity, under every interleaving of sessions; what a token must
  carry to get in.
\<close>

subsection \<open>Identities are kept\<close>

text \<open>The unique constraints of \<^verbatim>\<open>users\<close>, and who owns an account.\<close>

definition accountsOK :: "AuthTables \<Rightarrow> bool" where
  "accountsOK t =
     (distinct (map urID (tbUsers t)) \<and> distinct (map (\<lambda>u. (urIssuer u, urSubject u)) (tbUsers t))
      \<and> (\<forall>u\<in>set (tbUsers t). urIssuer u = None \<longleftrightarrow> urSubject u = None))"

definition owned :: "AuthTables \<Rightarrow> Ident \<Rightarrow> gostring \<Rightarrow> bool" where
  "owned t i x = (\<exists>u\<in>set (tbUsers t). hasIdentity i u \<and> urID u = x)"

text \<open>What every session guarantees, and relies on: the constraints hold, and an identity keeps its account.\<close>

definition identities_kept :: "AuthTables \<Rightarrow> AuthTables \<Rightarrow> bool" where
  "identities_kept t t' = (accountsOK t \<longrightarrow> accountsOK t' \<and> (\<forall>i x. owned t i x \<longrightarrow> owned t' i x))"

lemma identities_kept_refl [intro, simp]: "identities_kept t t"
  by (simp add: identities_kept_def)

lemma identities_kept_trans [trans]: "identities_kept a b \<Longrightarrow> identities_kept b c \<Longrightarrow> identities_kept a c"
  by (auto simp: identities_kept_def)

lemma same_identity:
  "accountsOK t \<Longrightarrow> u \<in> set (tbUsers t) \<Longrightarrow> v \<in> set (tbUsers t) \<Longrightarrow> urIssuer u = urIssuer v \<Longrightarrow> urSubject u = urSubject v \<Longrightarrow> u = v"
  by (rule inj_onD[of "\<lambda>u. (urIssuer u, urSubject u)" "set (tbUsers t)"]) (auto simp: accountsOK_def distinct_map)

lemma owned_unique: "accountsOK t \<Longrightarrow> owned t i x \<Longrightarrow> owned t i y \<Longrightarrow> x = y"
  by (auto simp: accountsOK_def owned_def hasIdentity_def distinct_map inj_on_def)

lemma owned_one: "accountsOK t \<Longrightarrow> owned t i x \<Longrightarrow> owned t j x \<Longrightarrow> i = j"
  by (auto simp: accountsOK_def owned_def hasIdentity_def distinct_map inj_on_def)

text \<open>A change of the rows that leaves identity and number alone.\<close>

lemma kept_map:
  assumes "\<And>u. urID (f u) = urID u" "\<And>u. urIssuer (f u) = urIssuer u" "\<And>u. urSubject (f u) = urSubject u"
    and "tbUsers t' = map f (tbUsers t)"
  shows "identities_kept t t'"
  using assms by (auto simp: identities_kept_def accountsOK_def owned_def hasIdentity_def comp_def)

lemma kept_same: "tbUsers t' = tbUsers t \<Longrightarrow> identities_kept t t'"
  by (rule kept_map[where f = id]) auto

lemma namedRow_same [simp]:
  "urID (namedRow x n u) = urID u" "urIssuer (namedRow x n u) = urIssuer u" "urSubject (namedRow x n u) = urSubject u"
  by (simp_all add: namedRow_def)

lemma retiredRow_same [simp]:
  "urID (retiredRow x u) = urID u" "urIssuer (retiredRow x u) = urIssuer u" "urSubject (retiredRow x u) = urSubject u"
  by (simp_all add: retiredRow_def)

lemma kept_CreateUser: "identities_kept t (snd (CreateUser x iss sub t))"
  by (auto simp: CreateUser_def identities_kept_def accountsOK_def owned_def list_ex_iff)

lemma claimed_rows:
  assumes "accountsOK t" "find (\<lambda>u. urIssuer u = None) (tbUsers t) = Some b"
    "\<not> list_ex (\<lambda>u. urIssuer u = Some iss \<and> urSubject u = Some sub) (tbUsers t)"
  shows "accountsOK (t\<lparr>tbUsers := map (claimRow iss sub) (tbUsers t)\<rparr>)"
proof -
  have only: "u = v" if "u \<in> set (tbUsers t)" "v \<in> set (tbUsers t)" "urIssuer u = None" "urIssuer v = None" for u v
  proof -
    have "urSubject u = None" "urSubject v = None" using that assms(1) by (auto simp: accountsOK_def)
    with that have "urIssuer u = urIssuer v" "urSubject u = urSubject v" by simp_all
    with that same_identity[OF assms(1)] show ?thesis by simp
  qed
  have "inj_on (\<lambda>u. (urIssuer (claimRow iss sub u), urSubject (claimRow iss sub u))) (set (tbUsers t))"
  proof (rule inj_onI)
    fix u v assume uv: "u \<in> set (tbUsers t)" "v \<in> set (tbUsers t)"
      and eq: "(urIssuer (claimRow iss sub u), urSubject (claimRow iss sub u)) = (urIssuer (claimRow iss sub v), urSubject (claimRow iss sub v))"
    show "u = v"
    proof (cases "urIssuer u = None \<or> urIssuer v = None")
      case True
      with uv eq assms(3) have "urIssuer u = None \<and> urIssuer v = None"
        by (auto simp: claimRow_def list_ex_iff split: if_splits)
      with only uv show ?thesis by blast
    next
      case False
      with uv eq assms(1) show ?thesis by (auto simp: claimRow_def accountsOK_def distinct_map inj_on_def)
    qed
  qed
  moreover have "urID (claimRow iss sub u) = urID u" for u by (simp add: claimRow_def)
  ultimately show ?thesis
    using assms(1) by (auto simp: accountsOK_def distinct_map comp_def) (simp_all add: claimRow_def split: if_splits)
qed

lemma kept_Claim: "identities_kept t (snd (ClaimBuiltinRow iss sub t))"
proof (cases "find (\<lambda>u. urIssuer u = None) (tbUsers t)")
  case None
  then show ?thesis by (simp add: ClaimBuiltinRow_def)
next
  case (Some b)
  have "owned (t\<lparr>tbUsers := map (claimRow iss sub) (tbUsers t)\<rparr>) i x" if "owned t i x" for i x
    using that by (force simp: owned_def hasIdentity_def claimRow_def)
  with Some show ?thesis by (simp add: ClaimBuiltinRow_def identities_kept_def claimed_rows)
qed

lemma kept_signRun: "identities_kept t (signRun E s t)"
  by (cases s) (auto simp: BeginSignIn_def SetPasswordHash_def ResetPassword_def RemovePasswordAccount_def AddPasswordAccount_def
      updateAccount_def intro: kept_same kept_map[where f = "namedRow _ _"] kept_map[where f = "retiredRow _"] split: option.splits)

lemma kept_SetUsername: "identities_kept t (snd (SetUsername who x name t))"
  by (auto simp: SetUsername_def Let_def intro: kept_map[where f = "namedRow _ _"])

lemma kept_Find: "identities_kept t (snd (AccountByIdentity i t))"
  by (simp add: AccountByIdentity_def split: option.splits)

subsection \<open>Through the operations\<close>

interpretation identities: session_order identities_kept
  by unfold_locales (auto intro: identities_kept_trans)

lemma keeping_Find: "keeping identities_kept (accountFind i)"
proof -
  have "accountFind i = (\<lambda>d. case statement (AccountByIdentity i) d of
        (Inl e, d) \<Rightarrow> (if errors_Is e ErrNoRows then auth_return None else auth_fail (Errorf (lit ''find account'') e)) d
      | (Inr u, d) \<Rightarrow> auth_return (Some u) d)"
    by (rule ext) (auto simp: accountFind_def auth_return_def auth_fail_def split: prod.splits sum.splits)
  moreover have "keeping identities_kept \<dots>"
    by (intro identities.catch identities.statement kept_Find) (auto simp: identities.pure)
  ultimately show ?thesis by simp
qed

lemma keeping_Claim: "keeping identities_kept (accountClaim i)"
  unfolding accountClaim_def by (intro identities.wrap identities.statement kept_Claim)

lemma keeping_Create: "keeping identities_kept (accountCreate x i)"
  unfolding accountCreate_def by (intro identities.wrap identities.statement kept_CreateUser)

lemma keeping_newUserID: "keeping identities_kept (newUserID E)"
  unfolding newUserID_def by (intro identities.bind identities.pure)

lemma keeping_Name: "keeping identities_kept (accountName x name)"
  unfolding accountName_def
  by (auto intro!: identities.wrap identities.inTx identities.bind identities.statement identities.pure kept_SetUsername)

lemma find_owned:
  assumes "accountFind i d = (Inr (Some x), d')"
  shows "owned (adTables d') i x"
proof -
  from assms have "statement (AccountByIdentity i) d = (Inr x, d')"
    by (auto simp: accountFind_def split: prod.splits sum.splits if_splits)
  from statement_answer[OF this] show ?thesis
    by (auto simp: AccountByIdentity_def owned_def split: option.splits dest: find_SomeD)
qed

lemma claim_owned:
  assumes "accountClaim i d = (Inr x, d')" "x \<noteq> []"
  shows "owned (adTables d') i x"
proof -
  from assms have "statement (ClaimBuiltinRow (idIssuer i) (idSubject i)) d = (Inr x, d')"
    by (auto simp: accountClaim_def auth_wrap_def split: prod.splits sum.splits)
  from statement_answer[OF this] assms(2) obtain b where "b \<in> set (tbUsers (others d))" "urIssuer b = None" "x = urID b"
      "tbUsers (adTables d') = map (claimRow (idIssuer i) (idSubject i)) (tbUsers (others d))"
    by (auto simp: ClaimBuiltinRow_def split: option.splits if_splits dest!: find_SomeD dest: sym)
  moreover from this have "claimRow (idIssuer i) (idSubject i) b \<in> set (tbUsers (adTables d'))" by simp
  ultimately show ?thesis
    by (auto simp: owned_def hasIdentity_def claimRow_def simp del: set_map intro!: bexI[of _ "claimRow (idIssuer i) (idSubject i) b"])
qed

lemma create_owned:
  assumes "accountCreate x i d = (Inr (), d')"
  shows "owned (adTables d') i x"
proof -
  from assms have "statement (CreateUser x (idIssuer i) (idSubject i)) d = (Inr (), d')"
    by (auto simp: accountCreate_def auth_wrap_def split: prod.splits sum.splits)
  from statement_answer[OF this] show ?thesis
    by (force simp: CreateUser_def owned_def hasIdentity_def split: if_splits dest: sym)
qed

lemma createAccount_keeps: "keeping identities_kept (createAccount E i)"
  unfolding createAccount_def
proof (rule identities.bind[OF keeping_newUserID])
  fix user
  have fails: "(\<lambda>d. case accountCreate user i d of
       (Inr _, d) \<Rightarrow> (Inr user, d)
     | (Inl createErr, d) \<Rightarrow>
         (case accountFind i d of
            (Inl e, d) \<Rightarrow> (Inl (Join [createErr, e]), d)
          | (Inr None, d) \<Rightarrow> (Inl (Errorf (lit ''create account'') createErr), d)
          | (Inr (Some existing), d) \<Rightarrow> (Inr existing, d)))
    = (\<lambda>d. case accountCreate user i d of
       (Inl createErr, d) \<Rightarrow>
         (case accountFind i d of
            (Inl e, d) \<Rightarrow> auth_fail (Join [createErr, e]) d
          | (Inr existing, d) \<Rightarrow> (case existing of None \<Rightarrow> auth_fail (Errorf (lit ''create account'') createErr)
                                   | Some existing \<Rightarrow> auth_return existing) d)
       | (Inr _, d) \<Rightarrow> auth_return user d)"
    by (rule ext) (auto simp: auth_fail_def auth_return_def split: prod.splits sum.splits option.splits)
  show "keeping identities_kept (\<lambda>d. case accountCreate user i d of
       (Inr _, d) \<Rightarrow> (Inr user, d)
     | (Inl createErr, d) \<Rightarrow>
         (case accountFind i d of
            (Inl e, d) \<Rightarrow> (Inl (Join [createErr, e]), d)
          | (Inr None, d) \<Rightarrow> (Inl (Errorf (lit ''create account'') createErr), d)
          | (Inr (Some existing), d) \<Rightarrow> (Inr existing, d)))"
    unfolding fails
    by (intro identities.catch keeping_Create keeping_Find) (auto simp: identities.pure split: option.split)
qed

lemma createAccount_owned:
  assumes "createAccount E i d = (Inr x, d')"
  shows "owned (adTables d') i x"
  using assms unfolding createAccount_def
  by (elim bind_Inr) (auto dest: create_owned find_owned split: prod.splits sum.splits option.splits)

lemma keeping_signUp: "keeping identities_kept (signUp E P i)"
  by (simp add: signUp_def createAccount_keeps identities.pure)

lemma keeping_resolve: "keeping identities_kept (resolveIdentity E P i)"
  unfolding resolveIdentity_def
  by (intro identities.bind keeping_Find)
    (auto split: option.split intro!: identities.bind identities.pure keeping_Claim keeping_signUp)

lemma resolve_owned:
  assumes "resolveIdentity E P i d = (Inr x, d')"
  shows "owned (adTables d') i x"
  using assms unfolding resolveIdentity_def
proof (elim bind_Inr)
  fix found d0
  assume f: "accountFind i d = (Inr found, d0)"
    and k: "(case found of Some user \<Rightarrow> auth_return user
       | None \<Rightarrow> if idSubject (plDefaultOwner P) \<noteq> [] \<and> i = plDefaultOwner P
           then auth_bind (accountClaim i) (\<lambda>user. if user \<noteq> [] then auth_return user else signUp E P i)
           else signUp E P i) d0 = (Inr x, d')"
  show ?thesis
  proof (cases found)
    case None
    have up: "owned (adTables d') j x" if "signUp E P j d1 = (Inr x, d')" for d1 j
      using that createAccount_owned by (auto simp: signUp_def auth_fail_def split: if_splits)
    from None k show ?thesis
      by (auto simp: auth_return_def split: if_splits elim!: bind_Inr dest: up claim_owned)
  next
    case (Some user)
    with f k find_owned show ?thesis by (auto simp: auth_return_def)
  qed
qed

text \<open>C7: One identity, one account.  Take any two requests the server resolved, the second starting from tables
  that came from the first's by steps that keep identities, and any sessions interleaved with either: they act as
  the same user exactly when their tokens name the same issuer and subject.  The statements of every session keep
  identities, the creation and claim of accounts, sign-ins, resets and removals, so this is every history.\<close>

theorem resolve_one_account:
  assumes "accountsOK (adTables d1)" "peers identities_kept d1" "peers identities_kept d2" "identities_kept (adTables d1') (adTables d2)"
    "resolveIdentity E P i1 d1 = (Inr u1, d1')" "resolveIdentity E P i2 d2 = (Inr u2, d2')"
  shows "u1 = u2 \<longleftrightarrow> i1 = i2"
proof -
  have k: "identities_kept (adTables d1) (adTables d1')" "identities_kept (adTables d2) (adTables d2')"
    using keepingD[OF keeping_resolve] assms by blast+
  then have ok: "accountsOK (adTables d2')" "owned (adTables d2') i1 u1"
    using assms resolve_owned[OF assms(5)] by (auto simp: identities_kept_def)
  with resolve_owned[OF assms(6)] show ?thesis using owned_unique owned_one by metis
qed

definition somePolicy :: Policy where
  "somePolicy = \<lparr>plDefaultOwner = \<lparr>idIssuer = [], idSubject = []\<rparr>, plRequiredName = [], plRequiredValue = [],
     plUsernameClaim = [], plSignUp = True\<rparr>"

definition someDB :: AuthDB where
  "someDB = \<lparr>adTables = someTables, adFaults = [], adOthers = [\<lambda>t. t, signRun someEnv (Clears [2])], adClock = 0, adTick = 5, adCompared = 0\<rparr>"

theorem resolve_one_account_witness:
  "let r1 = resolveIdentity someEnv somePolicy \<lparr>idIssuer = [7], idSubject = [2]\<rparr> someDB;
       r2 = resolveIdentity someEnv somePolicy \<lparr>idIssuer = [7], idSubject = [1]\<rparr> (snd r1)
   in fst r1 = Inr [102] \<and> fst r2 = Inr [1] \<and> ([102] = [1 :: rune] \<longleftrightarrow> \<lparr>idIssuer = [7], idSubject = [2]\<rparr> = \<lparr>idIssuer = [7], idSubject = [1 :: rune]\<rparr>)"
proof -
  define d1' where "d1' = snd (resolveIdentity someEnv somePolicy \<lparr>idIssuer = [7], idSubject = [2]\<rparr> someDB)"
  define d2' where "d2' = snd (resolveIdentity someEnv somePolicy \<lparr>idIssuer = [7], idSubject = [1]\<rparr> d1')"
  have p: "peers identities_kept someDB" by (auto simp: peers_def someDB_def kept_signRun simp del: signRun.simps)
  have r1: "resolveIdentity someEnv somePolicy \<lparr>idIssuer = [7], idSubject = [2]\<rparr> someDB = (Inr [102], d1')"
    unfolding d1'_def by (rule prod_eqI) (code_simp, simp)
  have r2: "resolveIdentity someEnv somePolicy \<lparr>idIssuer = [7], idSubject = [1]\<rparr> d1' = (Inr [1], d2')"
    unfolding d2'_def d1'_def by (rule prod_eqI) (code_simp, simp)
  have "accountsOK (adTables someDB)" by (simp add: accountsOK_def someDB_def someTables_def)
  from resolve_one_account[OF this p _ identities_kept_refl r1 r2] keepingD[OF keeping_resolve p r1]
  show ?thesis by (simp add: r1 r2)
qed

text \<open>C35: A token gets in only for this deployment.  A request is served only for a token the reader of its form
  vouched for, with this issuer, a subject, an audience that matches this resource and the claim the policy
  requires; and then for the account of exactly the token's issuer and subject.\<close>

theorem served_only_for_own_token:
  assumes "Verify s token = Inr info" "Middleware E P (Some info) (seen, d) = (ServedFor user, seen', d')"
  shows "\<exists>claims d1. (if length (filter (\<lambda>r. r = 46) token) = 2 then rsSigned s token else rsOpaque s token) = Inr claims
     \<and> cmIssuer claims = rsIssuer s \<and> cmSubject claims \<noteq> [] \<and> rsMatches s (cmAudience claims) (rsAudience s)
     \<and> (plRequiredName P \<noteq> [] \<longrightarrow>
          map_of (cmStated claims) (plRequiredName P) = Some (CvString (plRequiredValue P))
          \<or> (\<exists>vs. map_of (cmStated claims) (plRequiredName P) = Some (CvList vs) \<and> CvString (plRequiredValue P) \<in> set vs))
     \<and> resolveIdentity E P \<lparr>idIssuer = rsIssuer s, idSubject = cmSubject claims\<rparr> d = (Inr user, d1)
     \<and> owned (adTables d1) \<lparr>idIssuer = rsIssuer s, idSubject = cmSubject claims\<rparr> user"
proof -
  from assms(1) obtain claims where c: "(if length (filter (\<lambda>r. r = 46) token) = 2 then rsSigned s token else rsOpaque s token) = Inr claims"
      "checkClaims s claims = Inr ()"
    and info: "info = \<lparr>tiScopes = cmScopes claims, tiExpiration = cmExpiry claims,
       tiIdentity = Some \<lparr>idIssuer = cmIssuer claims, idSubject = cmSubject claims\<rparr>, tiStated = Some (cmStated claims)\<rparr>"
    by (auto simp: Verify_def Let_def split: sum.splits if_splits)
  from c(2) have ok: "cmIssuer claims = rsIssuer s" "cmSubject claims \<noteq> []" "rsMatches s (cmAudience claims) (rsAudience s)"
    by (auto simp: checkClaims_def split: if_splits)
  from assms(2) obtain d1 where a: "allowed P (Some info)"
    and r: "resolveIdentity E P \<lparr>idIssuer = cmIssuer claims, idSubject = cmSubject claims\<rparr> d = (Inr user, d1)"
    by (auto simp: Middleware_def IdentityOf_def info split: if_splits prod.splits sum.splits)
  from a have "plRequiredName P \<noteq> [] \<longrightarrow>
          map_of (cmStated claims) (plRequiredName P) = Some (CvString (plRequiredValue P))
          \<or> (\<exists>vs. map_of (cmStated claims) (plRequiredName P) = Some (CvList vs) \<and> CvString (plRequiredValue P) \<in> set vs)"
    by (auto simp: allowed_def Stated_def info split: option.splits claimValue.splits if_splits)
  with c ok r resolve_owned[OF r] show ?thesis by auto
qed

definition someServer :: ResourceServer where
  "someServer = \<lparr>rsIssuer = [7], rsAudience = [8],
     rsSigned = (\<lambda>_. Inr \<lparr>cmExpiry = 0, cmStated = [([4], CvList [CvOther, CvString [3]])], cmIssuer = [7], cmSubject = [1],
        cmAudience = [[8]], cmScopes = []\<rparr>),
     rsOpaque = Unintrospected, rsMatches = (\<lambda>as a. a \<in> set as), rsUnicode = aeUnicode someEnv\<rparr>"

theorem served_only_for_own_token_witness:
  "\<exists>info seen' d'. Verify someServer [46, 46] = Inr info
     \<and> Middleware someEnv (somePolicy\<lparr>plRequiredName := [4], plRequiredValue := [3]\<rparr>) (Some info) (Map.empty, someDB) = (ServedFor [1], seen', d')
     \<and> (\<exists>claims (d1 :: AuthDB). rsSigned someServer [46, 46] = Inr claims \<and> owned (adTables d1) \<lparr>idIssuer = [7], idSubject = cmSubject claims\<rparr> [1])"
proof -
  obtain info where v: "Verify someServer [46, 46] = Inr info" and i: "tiIdentity info = Some \<lparr>idIssuer = [7], idSubject = [1]\<rparr>"
      and st: "tiStated info = Some [([4], CvList [CvOther, CvString [3]])]"
    by (simp add: Verify_def someServer_def checkClaims_def)
  let ?P = "somePolicy\<lparr>plRequiredName := [4], plRequiredValue := [3]\<rparr>"
  have a: "allowed ?P (Some info)" by (simp add: allowed_def Stated_def st)
  define d1 where "d1 = snd (resolveIdentity someEnv ?P \<lparr>idIssuer = [7], idSubject = [1]\<rparr> someDB)"
  have "resolveIdentity someEnv ?P \<lparr>idIssuer = [7], idSubject = [1]\<rparr> someDB = (Inr [1], d1)"
    unfolding d1_def by (rule prod_eqI) (code_simp, simp)
  with a i obtain seen' d' where m: "Middleware someEnv ?P (Some info) (Map.empty, someDB) = (ServedFor [1], seen', d')"
    by (cases "remember someEnv ?P [1] (Some info) (Map.empty, d1)") (simp add: Middleware_def IdentityOf_def)
  from served_only_for_own_token[OF v m] v m show ?thesis
    by (auto simp: someServer_def)
qed

end
