(* ===== verification/Authserver.thy ===== *)
theory Authserver
  imports Accounts Urlguard Nav
begin

text \<open>
  \<^verbatim>\<open>internal/authserver\<close> and \<^verbatim>\<open>pgauth\<close>: clients, authorization requests, refresh tokens and signing keys, over the
  tables of \<open>Accounts\<close>.  The OpenID provider that calls the storage, \<^verbatim>\<open>net/url\<close>, \<^verbatim>\<open>crypto/x509\<close> and the HTTP layer
  are outside: \<open>ServerEnv\<close> holds what the code reads of them.  A request's JSON and its row are one record, as are
  a refresh token's.
\<close>

subsection \<open>Statements of oauth.sql\<close>

definition foreignKey :: goerror where
  "foreignKey = ErrorNew (lit ''23503'')"

definition InsertOAuthClient :: "AuthClient \<Rightarrow> AuthTables \<Rightarrow> (goerror + unit) \<times> AuthTables" where
  "InsertOAuthClient c t =
     (if list_ex (\<lambda>x. clID x = clID c) (tbClients t) then (Inl rowExists, t)
      else (Inr (), t\<lparr>tbClients := tbClients t @ [c]\<rparr>))"

text \<open>A deleted client takes its requests and its tokens with it.\<close>

definition deleteClients :: "(AuthClient \<Rightarrow> bool) \<Rightarrow> AuthTables \<Rightarrow> AuthTables" where
  "deleteClients gone t =
     (let ids = map clID (filter gone (tbClients t))
      in t\<lparr>tbClients := filter (\<lambda>c. \<not> gone c) (tbClients t),
           tbRequests := filter (\<lambda>r. rqClientID (arRequest r) \<notin> set ids) (tbRequests t),
           tbRefresh := filter (\<lambda>r. rfClientID r \<notin> set ids) (tbRefresh t)\<rparr>)"

definition PruneOAuthClients :: "int \<Rightarrow> AuthTables \<Rightarrow> (goerror + unit) \<times> AuthTables" where
  "PruneOAuthClients before t =
     (Inr (), deleteClients (\<lambda>c. clSignedInAt c = None \<and> clCreatedAt c < before
                \<and> \<not> list_ex (\<lambda>r. rqClientID (arRequest r) = clID c) (tbRequests t)) t)"

definition OAuthClient :: "gostring \<Rightarrow> AuthTables \<Rightarrow> (goerror + AuthClient) \<times> AuthTables" where
  "OAuthClient i t =
     (case find (\<lambda>c. clID c = i) (tbClients t) of None \<Rightarrow> (Inl (Sentinel ErrNoRows), t) | Some c \<Rightarrow> (Inr c, t))"

definition PruneOAuthRequests :: "int \<Rightarrow> AuthTables \<Rightarrow> (goerror + unit) \<times> AuthTables" where
  "PruneOAuthRequests before t =
     (Inr (), t\<lparr>tbRequests := filter (\<lambda>r. \<not> rqCreatedAt (arRequest r) < before) (tbRequests t)\<rparr>)"

definition InsertOAuthRequest :: "AuthRequest \<Rightarrow> AuthTables \<Rightarrow> (goerror + unit) \<times> AuthTables" where
  "InsertOAuthRequest q t =
     (if list_ex (\<lambda>r. rqID (arRequest r) = rqID q) (tbRequests t) then (Inl rowExists, t)
      else if \<not> list_ex (\<lambda>c. clID c = rqClientID q) (tbClients t) then (Inl foreignKey, t)
      else (Inr (), t\<lparr>tbRequests := tbRequests t @ [\<lparr>arRequest = q, arUserID = None, arAuthTime = None, arCodeHash = None\<rparr>]\<rparr>))"

definition OAuthRequest :: "gostring \<Rightarrow> AuthTables \<Rightarrow> (goerror + AuthRequestRow) \<times> AuthTables" where
  "OAuthRequest i t =
     (case find (\<lambda>r. rqID (arRequest r) = i) (tbRequests t) of None \<Rightarrow> (Inl (Sentinel ErrNoRows), t) | Some r \<Rightarrow> (Inr r, t))"

definition OAuthRequestByCode :: "gostring \<Rightarrow> AuthTables \<Rightarrow> (goerror + AuthRequestRow) \<times> AuthTables" where
  "OAuthRequestByCode h t =
     (case find (\<lambda>r. arCodeHash r = Some h) (tbRequests t) of None \<Rightarrow> (Inl (Sentinel ErrNoRows), t) | Some r \<Rightarrow> (Inr r, t))"

definition updateRequest :: "gostring \<Rightarrow> (AuthRequestRow \<Rightarrow> AuthRequestRow) \<Rightarrow> AuthTables \<Rightarrow> AuthTables" where
  "updateRequest i f t = t\<lparr>tbRequests := map (\<lambda>r. if rqID (arRequest r) = i then f r else r) (tbRequests t)\<rparr>"

definition SetOAuthCode :: "gostring \<Rightarrow> gostring \<Rightarrow> AuthTables \<Rightarrow> (goerror + unit) \<times> AuthTables" where
  "SetOAuthCode i h t =
     (if list_ex (\<lambda>r. rqID (arRequest r) = i) (tbRequests t)
         \<and> list_ex (\<lambda>r. arCodeHash r = Some h \<and> rqID (arRequest r) \<noteq> i) (tbRequests t) then (Inl rowExists, t)
      else (Inr (), updateRequest i (\<lambda>r. r\<lparr>arCodeHash := Some h\<rparr>) t))"

definition CompleteOAuthRequest :: "gostring \<Rightarrow> gostring \<Rightarrow> int \<Rightarrow> AuthTables \<Rightarrow> (goerror + unit) \<times> AuthTables" where
  "CompleteOAuthRequest i user when t =
     (if list_ex (\<lambda>r. rqID (arRequest r) = i) (tbRequests t) \<and> \<not> list_ex (\<lambda>u. urID u = user) (tbUsers t)
      then (Inl foreignKey, t)
      else (Inr (), updateRequest i (\<lambda>r. r\<lparr>arUserID := Some user, arAuthTime := Some when\<rparr>) t))"

definition MarkOAuthClientSignedIn :: "gostring \<Rightarrow> int \<Rightarrow> AuthTables \<Rightarrow> (goerror + unit) \<times> AuthTables" where
  "MarkOAuthClientSignedIn requestID when t =
     (case find (\<lambda>r. rqID (arRequest r) = requestID) (tbRequests t) of
        None \<Rightarrow> (Inr (), t)
      | Some r \<Rightarrow>
          (Inr (), t\<lparr>tbClients := map (\<lambda>c. if clSignedInAt c = None \<and> clID c = rqClientID (arRequest r)
                                        then c\<lparr>clSignedInAt := Some when\<rparr> else c) (tbClients t)\<rparr>))"

definition DeleteOAuthRequest :: "gostring \<Rightarrow> AuthTables \<Rightarrow> (goerror + unit) \<times> AuthTables" where
  "DeleteOAuthRequest i t = (Inr (), t\<lparr>tbRequests := filter (\<lambda>r. rqID (arRequest r) \<noteq> i) (tbRequests t)\<rparr>)"

definition InsertRefreshToken :: "Refresh \<Rightarrow> AuthTables \<Rightarrow> (goerror + unit) \<times> AuthTables" where
  "InsertRefreshToken f t =
     (if list_ex (\<lambda>r. rfTokenHash r = rfTokenHash f) (tbRefresh t) then (Inl rowExists, t)
      else if \<not> list_ex (\<lambda>c. clID c = rfClientID f) (tbClients t) \<or> \<not> list_ex (\<lambda>u. urID u = rfUserID f) (tbUsers t)
      then (Inl foreignKey, t)
      else (Inr (), t\<lparr>tbRefresh := tbRefresh t @ [f]\<rparr>))"

definition RefreshToken :: "gostring \<Rightarrow> AuthTables \<Rightarrow> (goerror + Refresh) \<times> AuthTables" where
  "RefreshToken h t =
     (case find (\<lambda>r. rfTokenHash r = h) (tbRefresh t) of None \<Rightarrow> (Inl (Sentinel ErrNoRows), t) | Some r \<Rightarrow> (Inr r, t))"

definition DeleteRefreshToken :: "gostring \<Rightarrow> AuthTables \<Rightarrow> (goerror + unit) \<times> AuthTables" where
  "DeleteRefreshToken h t = (Inr (), t\<lparr>tbRefresh := filter (\<lambda>r. rfTokenHash r \<noteq> h) (tbRefresh t)\<rparr>)"

definition TakeRefreshToken :: "gostring \<Rightarrow> AuthTables \<Rightarrow> (goerror + Refresh) \<times> AuthTables" where
  "TakeRefreshToken h t =
     (case find (\<lambda>r. rfTokenHash r = h) (tbRefresh t) of
        None \<Rightarrow> (Inl (Sentinel ErrNoRows), t)
      | Some r \<Rightarrow> (Inr r, t\<lparr>tbRefresh := filter (\<lambda>r. rfTokenHash r \<noteq> h) (tbRefresh t)\<rparr>))"

definition DeleteRefreshTokensOf :: "gostring \<Rightarrow> gostring \<Rightarrow> AuthTables \<Rightarrow> (goerror + unit) \<times> AuthTables" where
  "DeleteRefreshTokensOf user client t =
     (Inr (), t\<lparr>tbRefresh := filter (\<lambda>r. \<not> (rfUserID r = user \<and> rfClientID r = client)) (tbRefresh t)\<rparr>)"

definition keyBefore :: "KeyRow \<Rightarrow> KeyRow \<Rightarrow> bool" where
  "keyBefore a b = (kyCreatedAt a < kyCreatedAt b \<or> (kyCreatedAt a = kyCreatedAt b \<and> text_le (kyID a) (kyID b)))"

fun insertKey :: "KeyRow \<Rightarrow> KeyRow list \<Rightarrow> KeyRow list" where
  "insertKey k [] = [k]"
| "insertKey k (x # xs) = (if keyBefore k x then k # x # xs else x # insertKey k xs)"

definition OAuthKeys :: "AuthTables \<Rightarrow> (goerror + KeyRow list) \<times> AuthTables" where
  "OAuthKeys t = (Inr (foldr insertKey (tbKeys t) []), t)"

definition InsertOAuthKey :: "KeyRow \<Rightarrow> AuthTables \<Rightarrow> (goerror + unit) \<times> AuthTables" where
  "InsertOAuthKey k t =
     (Inr (), if list_ex (\<lambda>x. kyID x = kyID k) (tbKeys t) then t else t\<lparr>tbKeys := tbKeys t @ [k]\<rparr>)"

subsection \<open>pgauth.go\<close>

definition pruneAfter :: int where "pruneAfter = 3600000"
definition pruneClientsAfter :: int where "pruneClientsAfter = 86400000"

definition RegisterClient :: "AuthClient \<Rightarrow> unit auth" where
  "RegisterClient c =
     auth_bind (auth_wrap (lit ''prune clients'') (statement (PruneOAuthClients (clCreatedAt c - pruneClientsAfter))))
       (\<lambda>_. auth_wrap (lit ''register client'') (statement (InsertOAuthClient c)))"

text \<open>A statement that may find no row.\<close>

definition optionally :: "gostring \<Rightarrow> 'a auth \<Rightarrow> 'a option auth" where
  "optionally what m d =
     (case m d of
        (Inl e, d) \<Rightarrow> if errors_Is e ErrNoRows then (Inr None, d) else (Inl (Errorf what e), d)
      | (Inr a, d) \<Rightarrow> (Inr (Some a), d))"

definition clientOf :: "gostring \<Rightarrow> AuthClient option auth" where
  "clientOf i = optionally (lit ''read client'') (statement (OAuthClient i))"

definition SaveRequest :: "AuthRequest \<Rightarrow> unit auth" where
  "SaveRequest q =
     auth_bind (auth_wrap (lit ''prune sign-in requests'') (statement (PruneOAuthRequests (rqCreatedAt q - pruneAfter))))
       (\<lambda>_. auth_wrap (lit ''save sign-in request'') (statement (InsertOAuthRequest q)))"

text \<open>\<^verbatim>\<open>requestOf\<close>: the stored request with the columns a sign-in sets.\<close>

definition requestOf :: "AuthRequestRow \<Rightarrow> AuthRequest" where
  "requestOf r =
     (let q = (arRequest r)\<lparr>rqUserID := (case arUserID r of None \<Rightarrow> [] | Some u \<Rightarrow> u)\<rparr>
      in case arAuthTime r of None \<Rightarrow> q | Some a \<Rightarrow> q\<lparr>rqAuthTime := a\<rparr>)"

definition requestRead :: "(AuthTables \<Rightarrow> (goerror + AuthRequestRow) \<times> AuthTables) \<Rightarrow> AuthRequest option auth" where
  "requestRead f =
     auth_bind (optionally (lit ''read sign-in request'') (statement f)) (\<lambda>r. auth_return (map_option requestOf r))"

definition requestByID :: "gostring \<Rightarrow> AuthRequest option auth" where
  "requestByID i = requestRead (OAuthRequest i)"

definition requestByCode :: "gostring \<Rightarrow> AuthRequest option auth" where
  "requestByCode h = requestRead (OAuthRequestByCode h)"

definition SaveCode :: "gostring \<Rightarrow> gostring \<Rightarrow> unit auth" where
  "SaveCode i h = auth_wrap (lit ''save code'') (statement (SetOAuthCode i h))"

text \<open>\<^verbatim>\<open>inTx\<close> of pgauth, which names what failed at each of its steps.\<close>

definition doingTx :: "gostring \<Rightarrow> 'a auth \<Rightarrow> 'a auth" where
  "doingTx doing m d =
     (case auth_wrap doing (statement (\<lambda>t. (Inr (), t))) d of
        (Inl e, d') \<Rightarrow> (Inl e, d')
      | (Inr _, d0) \<Rightarrow>
          (case m (d0\<lparr>adOthers := []\<rparr>) of
             (Inl e, d') \<Rightarrow> (Inl (Join [Errorf doing e]), d'\<lparr>adTables := adTables d0, adOthers := adOthers d0\<rparr>)
           | (Inr a, d') \<Rightarrow>
               (case auth_wrap doing (statement (\<lambda>t. (Inr (), t))) d' of
                  (Inl e, d'') \<Rightarrow> (Inl e, d''\<lparr>adTables := adTables d0, adOthers := adOthers d0\<rparr>)
                | (Inr _, d'') \<Rightarrow> (Inr a, d''\<lparr>adOthers := adOthers d0\<rparr>))))"

definition CompleteRequest :: "gostring \<Rightarrow> gostring \<Rightarrow> int \<Rightarrow> unit auth" where
  "CompleteRequest i user when =
     doingTx (lit ''complete sign-in'') (auth_bind (statement (CompleteOAuthRequest i user when))
       (\<lambda>_. statement (MarkOAuthClientSignedIn i when)))"

definition DeleteRequest :: "gostring \<Rightarrow> unit auth" where
  "DeleteRequest i = auth_wrap (lit ''delete sign-in request'') (statement (DeleteOAuthRequest i))"

definition SaveRefresh :: "Refresh \<Rightarrow> unit auth" where
  "SaveRefresh f = auth_wrap (lit ''save refresh token'') (statement (InsertRefreshToken f))"

definition refreshByHash :: "gostring \<Rightarrow> Refresh option auth" where
  "refreshByHash h = optionally (lit ''read refresh token'') (statement (RefreshToken h))"

definition takeToken :: "gostring \<Rightarrow> Refresh \<Rightarrow> bool auth" where
  "takeToken h new d =
     (case statement (TakeRefreshToken h) d of
        (Inl e, d) \<Rightarrow> if errors_Is e ErrNoRows then (Inr False, d) else (Inl e, d)
      | (Inr _, d) \<Rightarrow> auth_bind (statement (InsertRefreshToken new)) (\<lambda>_. auth_return True) d)"

definition RotateRefresh :: "gostring \<Rightarrow> Refresh \<Rightarrow> bool auth" where
  "RotateRefresh h new = doingTx (lit ''rotate refresh token'') (takeToken h new)"

definition DeleteRefresh :: "gostring \<Rightarrow> unit auth" where
  "DeleteRefresh h = auth_wrap (lit ''delete refresh token'') (statement (DeleteRefreshToken h))"

definition DeleteRefreshOf :: "gostring \<Rightarrow> gostring \<Rightarrow> unit auth" where
  "DeleteRefreshOf user client = auth_wrap (lit ''end sign-ins'') (statement (DeleteRefreshTokensOf user client))"

definition storedKeys :: "KeyRow list auth" where
  "storedKeys = auth_wrap (lit ''read signing keys'') (statement OAuthKeys)"

definition AddKey :: "KeyRow \<Rightarrow> unit auth" where
  "AddKey k = auth_wrap (lit ''add signing key'') (statement (InsertOAuthKey k))"

subsection \<open>storage.go\<close>

definition AccessTokenLifetime :: int where "AccessTokenLifetime = 3600000"
definition RefreshTokenLifetime :: int where "RefreshTokenLifetime = 30 * 24 * 3600000"
definition RequestLifetime :: int where "RequestLifetime = 600000"
definition scopeName :: gostring where "scopeName = lit ''docsearch''"
definition offlineAccess :: gostring where "offlineAccess = lit ''offline_access''"

text \<open>What \<^verbatim>\<open>url.Parse\<close> answers, as far as this package reads it.\<close>

record ParsedURL =
  puScheme :: gostring
  puHost :: gostring
  puHostname :: gostring
  puFragment :: gostring

record ServerEnv =
  seAuth :: AuthEnv
  seParse :: "gostring \<Rightarrow> ParsedURL option"
  seIssuer :: gostring
  seAudience :: "gostring list"
  seParseKey :: "gostring \<Rightarrow> goerror + bool"   \<comment> \<open>reads the DER; whether it is an ECDSA key\<close>
  seNewKey :: "nat \<Rightarrow> goerror + gostring"

text \<open>A request as it arrives is a record with no ID, no times and no user yet.\<close>

definition CreateAuthRequest :: "ServerEnv \<Rightarrow> AuthRequest \<Rightarrow> AuthRequest auth" where
  "CreateAuthRequest S req =
     auth_bind (randText (seAuth S)) (\<lambda>i d.
       let scopes = (if offlineAccess \<in> set (rqScopes req) then rqScopes req else rqScopes req @ [offlineAccess]);
           q = req\<lparr>rqCreatedAt := adClock d, rqAuthTime := 0, rqID := i, rqUserID := [], rqScopes := scopes,
                   rqAudience := seAudience S\<rparr>
       in auth_bind (SaveRequest q) (\<lambda>_. auth_return q) d)"

definition currentRequest :: "gostring \<Rightarrow> AuthRequest auth" where
  "currentRequest i =
     auth_bind (requestByID i) (\<lambda>found d.
       case found of
         None \<Rightarrow> (Inl (Sentinel ErrAuthNotFound), d)
       | Some q \<Rightarrow> if RequestLifetime < adClock d - rqCreatedAt q then (Inl (Sentinel ErrExpired), d) else (Inr q, d))"

definition AuthRequestByCode :: "ServerEnv \<Rightarrow> gostring \<Rightarrow> AuthRequest auth" where
  "AuthRequestByCode S code =
     auth_bind (requestByCode (aeSHA (seAuth S) code)) (\<lambda>found d.
       case found of
         None \<Rightarrow> (Inl (Sentinel ErrAuthNotFound), d)
       | Some q \<Rightarrow> if RequestLifetime < adClock d - rqCreatedAt q then (Inl (Sentinel ErrAuthNotFound), d) else (Inr q, d))"

definition SaveAuthCode :: "ServerEnv \<Rightarrow> gostring \<Rightarrow> gostring \<Rightarrow> unit auth" where
  "SaveAuthCode S i code = SaveCode i (aeSHA (seAuth S) code)"

definition CreateAccessToken :: "ServerEnv \<Rightarrow> (gostring \<times> int) auth" where
  "CreateAccessToken S = auth_bind (randText (seAuth S)) (\<lambda>i d. (Inr (i, adClock d + AccessTokenLifetime), d))"

text \<open>\<^verbatim>\<open>op.TokenRequest\<close>: a signed-in request, a refresh, or another of the provider's types.\<close>

datatype TokenRequest = FromAuth AuthRequest | FromRefresh Refresh | FromOther gostring

definition grantOf :: "TokenRequest \<Rightarrow> goerror + Refresh" where
  "grantOf r =
     (case r of
        FromAuth q \<Rightarrow> Inr \<lparr>rfAuthTime = rqAuthTime q, rfExpiresAt = 0, rfTokenHash = [], rfClientID = rqClientID q,
                       rfUserID = rqUserID q, rfScopes = rqScopes q, rfAudience = rqAudience q\<rparr>
      | FromRefresh f \<Rightarrow> Inr \<lparr>rfAuthTime = rfAuthTime f, rfExpiresAt = 0, rfTokenHash = [], rfClientID = rfClientID f,
                       rfUserID = rfUserID f, rfScopes = rfScopes f, rfAudience = rfAudience f\<rparr>
      | FromOther type \<Rightarrow> Inl (ErrorNew (lit ''no refresh token for a '' @ type)))"

definition saveGrant :: "ServerEnv \<Rightarrow> gostring \<Rightarrow> Refresh \<Rightarrow> unit auth" where
  "saveGrant S current grant =
     (if current = [] then SaveRefresh grant
      else auth_bind (RotateRefresh (aeSHA (seAuth S) current) grant)
             (\<lambda>found. if \<not> found then auth_fail (Sentinel ErrInvalidGrant) else auth_return ()))"

definition CreateAccessAndRefreshTokens :: "ServerEnv \<Rightarrow> TokenRequest \<Rightarrow> gostring \<Rightarrow> (gostring \<times> gostring \<times> int) auth" where
  "CreateAccessAndRefreshTokens S r current =
     (case grantOf r of
        Inl e \<Rightarrow> auth_fail e
      | Inr grant \<Rightarrow>
          auth_bind (randText (seAuth S)) (\<lambda>token d.
            auth_bind (saveGrant S current
                (grant\<lparr>rfTokenHash := aeSHA (seAuth S) token, rfExpiresAt := adClock d + RefreshTokenLifetime\<rparr>)) (\<lambda>_.
              auth_bind (randText (seAuth S)) (\<lambda>i d. (Inr (i, token, adClock d + AccessTokenLifetime), d))) d))"

definition TokenRequestByRefreshToken :: "ServerEnv \<Rightarrow> gostring \<Rightarrow> Refresh auth" where
  "TokenRequestByRefreshToken S token =
     auth_bind (refreshByHash (aeSHA (seAuth S) token)) (\<lambda>found d.
       case found of
         None \<Rightarrow> (Inl (Sentinel ErrInvalidRefresh), d)
       | Some f \<Rightarrow>
           if rfExpiresAt f < adClock d then (Inl (Sentinel ErrInvalidRefresh), d)
           else auth_bind (storeExists (rfUserID f))
                  (\<lambda>present. if \<not> present then auth_fail (Sentinel ErrInvalidRefresh) else auth_return f) d)"

definition TerminateSession :: "gostring \<Rightarrow> gostring \<Rightarrow> unit auth" where
  "TerminateSession user client = DeleteRefreshOf user client"

definition RevokeToken :: "gostring \<Rightarrow> unit auth" where
  "RevokeToken tokenOrID = auth_wrap (lit ''server_error'') (DeleteRefresh tokenOrID)"

definition GetRefreshTokenInfo :: "ServerEnv \<Rightarrow> gostring \<Rightarrow> gostring \<Rightarrow> (gostring \<times> gostring) auth" where
  "GetRefreshTokenInfo S client token =
     auth_bind (refreshByHash (aeSHA (seAuth S) token)) (\<lambda>found.
       case found of
         None \<Rightarrow> auth_fail (Sentinel ErrInvalidRefresh)
       | Some f \<Rightarrow> if rfClientID f \<noteq> client then auth_fail (Sentinel ErrInvalidRefresh)
                   else auth_return (rfUserID f, rfTokenHash f))"

definition GetClientByClientID :: "gostring \<Rightarrow> AuthClient auth" where
  "GetClientByClientID i = auth_bind (clientOf i)
     (\<lambda>found. case found of None \<Rightarrow> auth_fail (Sentinel ErrAuthNotFound) | Some c \<Rightarrow> auth_return c)"

text \<open>The keyring: what one process has loaded, empty until it has.\<close>

type_synonym keyring = "KeyRow list"

fun parseKeys :: "ServerEnv \<Rightarrow> KeyRow list \<Rightarrow> goerror + KeyRow list" where
  "parseKeys S [] = Inr []"
| "parseKeys S (k # ks) =
     (case seParseKey S (kyPrivateKey k) of
        Inl e \<Rightarrow> Inl (Errorf (lit ''signing key '' @ kyID k) e)
      | Inr ok \<Rightarrow>
          if \<not> ok then Inl (ErrorNew (lit ''signing key '' @ kyID k @ lit '' is not an ECDSA key''))
          else (case parseKeys S ks of Inl e \<Rightarrow> Inl e | Inr parsed \<Rightarrow> Inr (k # parsed)))"

text \<open>The key's \<^verbatim>\<open>created_at\<close> is the time its insert began.\<close>

definition createKey :: "ServerEnv \<Rightarrow> KeyRow list auth" where
  "createKey S d =
     (case seNewKey S (adTick d) of
        Inl e \<Rightarrow> (Inl (Errorf (lit ''generate signing key'') e), d)
      | Inr der \<Rightarrow>
          auth_bind (randText (seAuth S)) (\<lambda>i.
            auth_bind (\<lambda>d. AddKey \<lparr>kyCreatedAt = adClock d, kyID = i, kyPrivateKey = der\<rparr> d) (\<lambda>_. storedKeys)) d)"

definition loadKeys :: "ServerEnv \<Rightarrow> keyring \<Rightarrow> AuthDB \<Rightarrow> (goerror + KeyRow list) \<times> keyring \<times> AuthDB" where
  "loadKeys S loaded d =
     (if loaded \<noteq> [] then (Inr loaded, loaded, d)
      else case auth_bind storedKeys (\<lambda>stored. if stored = [] then createKey S else auth_return stored) d of
             (Inl e, d) \<Rightarrow> (Inl e, loaded, d)
           | (Inr stored, d) \<Rightarrow>
               (case parseKeys S stored of Inl e \<Rightarrow> (Inl e, loaded, d) | Inr parsed \<Rightarrow> (Inr parsed, parsed, d)))"

subsection \<open>register.go, limits.go, login.go, owner.go\<close>

definition maxRedirectURIs :: int where "maxRedirectURIs = 10"
definition maxClientName :: nat where "maxClientName = 100"

definition forbiddenSchemes :: "gostring list" where
  "forbiddenSchemes = [lit ''javascript'', lit ''data'', lit ''file'', lit ''vbscript'', lit ''about'', lit ''blob'']"

text \<open>\<^verbatim>\<open>net.ParseIP\<close> takes no zone and reads an IPv4 address in IPv6 as the IPv4 one.\<close>

definition isLoopbackHost :: "gostring \<Rightarrow> bool" where
  "isLoopbackHost host =
     (host = lit ''localhost''
      \<or> (case ParseAddr host of
           None \<Rightarrow> False
         | Some a \<Rightarrow> (case a of Addr6 w zone \<Rightarrow> zone = [] \<and> IsLoopback (Unmap a) | _ \<Rightarrow> IsLoopback a)))"

definition checkRedirectURI :: "ServerEnv \<Rightarrow> gostring \<Rightarrow> gostring" where
  "checkRedirectURI S uri =
     (case seParse S uri of
        None \<Rightarrow> uri @ lit '' is not an absolute URI''
      | Some p \<Rightarrow>
          if puScheme p = [] then uri @ lit '' is not an absolute URI''
          else if puFragment p \<noteq> [] then uri @ lit '' has a fragment, which a redirect URI may not''
          else let scheme = map (uToLower (aeUnicode (seAuth S))) (puScheme p)
               in if scheme = lit ''https'' then []
                  else if scheme = lit ''http'' then
                    (if isLoopbackHost (puHostname p) then [] else uri @ lit '' is http to another machine; use https'')
                  else if scheme \<in> set forbiddenSchemes then uri @ lit '' uses a scheme that cannot receive a code''
                  else [])"

fun firstReason :: "ServerEnv \<Rightarrow> gostring list \<Rightarrow> gostring" where
  "firstReason S [] = []"
| "firstReason S (u # us) = (let reason = checkRedirectURI S u in if reason \<noteq> [] then reason else firstReason S us)"

definition checkRedirectURIs :: "ServerEnv \<Rightarrow> gostring list \<Rightarrow> gostring" where
  "checkRedirectURIs S uris =
     (if uris = [] \<or> maxRedirectURIs < int (length uris) then lit ''register between 1 and 10 redirect_uris''
      else firstReason S uris)"

definition clientName :: "gostring \<Rightarrow> gostring" where
  "clientName name = (let name = TrimSpace name in if maxClientName < length name then take maxClientName name else name)"

text \<open>What a handler answers: a status with a text, or a redirect back through the provider.\<close>

datatype answered = Answered int gostring | Registered AuthClient | ProviderCallback gostring

definition register :: "ServerEnv \<Rightarrow> (gostring \<times> gostring list) option \<Rightarrow> AuthDB \<Rightarrow> answered \<times> AuthDB" where
  "register S body d =
     (case body of
        None \<Rightarrow> (Answered 400 (lit ''the body is not a registration request''), d)
      | Some (name, uris) \<Rightarrow>
          let reason = checkRedirectURIs S uris
          in if reason \<noteq> [] then (Answered 400 reason, d)
             else case randText (seAuth S) d of
               (Inl e, d) \<Rightarrow> (Answered 500 (errorText e), d)
             | (Inr i, d) \<Rightarrow>
                 let created = \<lparr>clID = i, clName = clientName name, clRedirectURIs = uris, clCreatedAt = adClock d, clSignedInAt = None\<rparr>
                 in case RegisterClient created d of
                      (Inl e, d) \<Rightarrow> (Answered 500 (lit ''the client could not be registered''), d)
                    | (Inr _, d) \<Rightarrow> (Registered created, d))"

definition maxAuthorizeQuery :: nat where "maxAuthorizeQuery = 8192"
definition maxStateBytes :: nat where "maxStateBytes = 1024"
definition challengeLength :: nat where "challengeLength = 43"

text \<open>A query is its raw bytes and what \<^verbatim>\<open>Get\<close> answers for a name; lengths are of bytes.\<close>

definition checkAuthorize :: "nat \<Rightarrow> (gostring \<Rightarrow> gostring) \<Rightarrow> gostring" where
  "checkAuthorize rawQuery get =
     (if maxAuthorizeQuery < rawQuery then lit ''the authorization request is too long''
      else if get (lit ''response_type'') \<noteq> lit ''code'' then lit ''docsearch issues codes only: send response_type=code''
      else if get (lit ''code_challenge_method'') \<noteq> lit ''S256'' \<or> byteLen (get (lit ''code_challenge'')) \<noteq> challengeLength
      then lit ''docsearch requires PKCE: send an S256 code_challenge''
      else if maxStateBytes < byteLen (get (lit ''state'')) \<or> maxStateBytes < byteLen (get (lit ''nonce''))
      then lit ''state and nonce may be at most 1024 bytes''
      else [])"

definition sameOrigin :: "ServerEnv \<Rightarrow> gostring \<Rightarrow> bool" where
  "sameOrigin S origin =
     (origin = [] \<or> (case seParse S (seIssuer S) of None \<Rightarrow> False | Some p \<Rightarrow> origin = puScheme p @ lit ''://'' @ puHost p))"

text \<open>The sign-in page: closed with the expiry message unless the request is current.\<close>

definition showLogin :: "gostring \<Rightarrow> gostring \<Rightarrow> int \<Rightarrow> AuthDB \<Rightarrow> answered \<times> AuthDB" where
  "showLogin i message status d =
     (case currentRequest i d of
        (Inl e, d) \<Rightarrow>
          if errors_Is e ErrExpired \<or> errors_Is e ErrAuthNotFound then (Answered 400 (sentinelText ErrExpired), d)
          else (Answered 500 (lit ''the sign-in page could not be shown''), d)
      | (Inr q, d) \<Rightarrow> (Answered status message, snd (clientOf (rqClientID q) d)))"

definition checkSignIn :: "ServerEnv \<Rightarrow> gostring \<Rightarrow> AuthCtx \<Rightarrow> gostring \<Rightarrow> gostring \<Rightarrow> gostring \<Rightarrow> gostring \<Rightarrow> AuthDB \<Rightarrow> answered \<times> AuthDB" where
  "checkSignIn S decoy ctx origin i username secret d =
     (if \<not> sameOrigin S origin then (Answered 403 (lit ''sign in from docsearch's own page''), d)
      else case currentRequest i d of
        (Inl e, d) \<Rightarrow> showLogin i [] 400 d
      | (Inr _, d) \<Rightarrow>
          (case Authenticate (seAuth S) decoy ctx username secret d of
             (Inl e, d) \<Rightarrow>
               if errors_Is e ErrSignInRefused then showLogin i (errorText e) 401 d
               else showLogin i (lit ''signing in failed on the server; try again'') 500 d
           | (Inr user, d) \<Rightarrow>
               (case CompleteRequest i user (adClock d) d of
                  (Inl e, d) \<Rightarrow> (Answered 500 (lit ''the sign-in could not be finished''), d)
                | (Inr _, d) \<Rightarrow> (ProviderCallback i, d))))"

end
