(* ===== verification/Authserver_Props.thy ===== *)
theory Authserver_Props
  imports Authserver Accounts_Props
begin

text \<open>
  Refresh tokens: every one stands for a sign-in, and each is spent once.  The server is a step relation over its
  operations, in any order and with any faults, and what the provider it serves holds from earlier answers.
\<close>

subsection \<open>Steps that grant nothing\<close>

text \<open>No new refresh token, no new sign-in recorded, no user without a name.\<close>

definition named_users :: "AuthTables \<Rightarrow> bool" where
  "named_users t = (\<forall>u\<in>set (tbUsers t). urID u \<noteq> [])"

definition signed :: "AuthTables \<Rightarrow> (gostring \<times> gostring \<times> gostring) set" where
  "signed t = {(rqID (arRequest r), rqClientID (arRequest r), u) | r u. r \<in> set (tbRequests t) \<and> arUserID r = Some u}"

definition quietly :: "AuthTables \<Rightarrow> AuthTables \<Rightarrow> bool" where
  "quietly t t' = (set (tbRefresh t') \<subseteq> set (tbRefresh t) \<and> signed t' \<subseteq> signed t \<and> (named_users t \<longrightarrow> named_users t'))"

interpretation quiet: session_order quietly
  by unfold_locales (auto simp: quietly_def)

lemma named_users_map: "named_users t = ([] \<notin> set (map urID (tbUsers t)))"
  by (force simp: named_users_def image_iff)

lemma quietly_same:
  "set (tbRefresh t') \<subseteq> set (tbRefresh t) \<Longrightarrow> set (tbRequests t') \<subseteq> set (tbRequests t) \<Longrightarrow> map urID (tbUsers t') = map urID (tbUsers t)
   \<Longrightarrow> quietly t t'"
  unfolding quietly_def named_users_map by (auto simp: signed_def)

lemma urID_map: "(\<And>u. urID (f u) = urID u) \<Longrightarrow> map urID (map f us) = map urID us"
  by simp

lemma quiet_users [simp]: "urID (claimRow iss sub u) = urID u" "urID (namedRow x n u) = urID u" "urID (retiredRow x u) = urID u"
  by (simp_all add: claimRow_def namedRow_def retiredRow_def)

lemma quiet_accounts:
  "quietly t (snd (CreateUser x iss sub t))" "quietly t (snd (ClaimBuiltinRow iss sub t))"
  "quietly t (snd (AddPasswordAccount who u x h t))" "quietly t (snd (BeginSignIn u p t))" "quietly t (updateAccount u f t)"
  "quietly t (snd (SetPasswordHash u h t))" "quietly t (snd (ResetPassword who u h t))"
  "quietly t (snd (RemovePasswordAccount E who heir u t))"
         apply (auto simp: CreateUser_def quietly_def named_users_def signed_def safeID_def; fail)
        apply (auto simp: ClaimBuiltinRow_def comp_def split: option.split intro!: quietly_same; fail)
       apply (auto simp: AddPasswordAccount_def comp_def intro!: quietly_same; fail)
      apply (auto simp: BeginSignIn_def updateAccount_def split: option.split intro!: quietly_same; fail)
     apply (auto simp: updateAccount_def intro!: quietly_same; fail)
    apply (auto simp: SetPasswordHash_def updateAccount_def intro!: quietly_same; fail)
   apply (auto simp: ResetPassword_def updateAccount_def split: option.split intro!: quietly_same; fail)
  apply (auto simp: RemovePasswordAccount_def comp_def split: option.split intro!: quietly_same; fail)
  done

lemma quiet_requests:
  "quietly t (snd (PruneOAuthClients n t))" "quietly t (snd (InsertOAuthClient c t))" "quietly t (snd (PruneOAuthRequests n t))"
  "quietly t (snd (InsertOAuthRequest q t))" "quietly t (snd (SetOAuthCode i h t))" "quietly t (snd (DeleteOAuthRequest i t))"
  "quietly t (snd (DeleteRefreshToken h t))" "quietly t (snd (DeleteRefreshTokensOf u x t))" "quietly t (snd (InsertOAuthKey k t))"
          apply (auto simp: PruneOAuthClients_def deleteClients_def Let_def intro!: quietly_same; fail)
         apply (auto simp: InsertOAuthClient_def intro!: quietly_same; fail)
        apply (auto simp: PruneOAuthRequests_def intro!: quietly_same; fail)
       apply (auto simp: InsertOAuthRequest_def quietly_def signed_def named_users_def; fail)
      apply (auto simp: SetOAuthCode_def updateRequest_def quietly_def signed_def named_users_def split: if_splits; fail)
     apply (auto simp: DeleteOAuthRequest_def intro!: quietly_same; fail)
    apply (auto simp: DeleteRefreshToken_def intro!: quietly_same; fail)
   apply (auto simp: DeleteRefreshTokensOf_def intro!: quietly_same; fail)
  apply (auto simp: InsertOAuthKey_def intro!: quietly_same; fail)
  done

text \<open>The server's operations that grant nothing, and what administrators do to accounts.\<close>

inductive grantless :: "ServerEnv \<Rightarrow> unit auth \<Rightarrow> bool" for S where
  "grantless S (RegisterClient c)"
| "grantless S (SaveRequest q)"
| "grantless S (SaveAuthCode S i code)"
| "grantless S (DeleteRequest i)"
| "grantless S (RevokeToken h)"
| "grantless S (TerminateSession user client)"
| "grantless S (AddKey k)"
| "grantless S (passwordAdd (seAuth S) ctx username secret builtin)"
| "grantless S (SetPassword (seAuth S) ctx username secret)"
| "grantless S (storeRemove (seAuth S) ctx username heir)"

lemma quiet_hash: "keeping quietly (hashOf E secret)"
proof -
  have "keeping quietly (createHash E secret)"
    by (auto simp: createHash_def keeping_def peers_def quiet.P_refl Let_def split: sum.split)
  then show ?thesis by (simp add: hashOf_def quiet.pure)
qed

lemma quiet_administer: "(\<And>who. keeping quietly (work who)) \<Longrightarrow> keeping quietly (administer ctx work)"
  by (auto simp: administer_def Let_def intro!: quiet.inTx quiet.bind quiet.wrap quiet.statement simp: quiet.P_refl)

lemma quiet_library: "keeping quietly (libraryFor x b)"
  by (auto simp: libraryFor_def intro!: quiet.wrap quiet.bind quiet.statement quiet_accounts quiet.pure)

lemma quiet_add: "keeping quietly (storeAdd ctx u x h b)"
  unfolding storeAdd_def
proof (intro quiet_administer quiet.bind quiet_library)
  fix who and n :: unit
  have "(\<lambda>d. case statement (AddPasswordAccount who u x h) d of (Inl e, d) \<Rightarrow> (Inl (addError u e), d) | (Inr _, d) \<Rightarrow> (Inr (), d))
    = (\<lambda>d. case statement (AddPasswordAccount who u x h) d of (Inl e, d) \<Rightarrow> auth_fail (addError u e) d | (Inr _, d) \<Rightarrow> auth_return () d)"
    by (rule ext) (auto simp: auth_fail_def auth_return_def split: prod.splits sum.splits)
  then show "keeping quietly (\<lambda>d. case statement (AddPasswordAccount who u x h) d of (Inl e, d) \<Rightarrow> (Inl (addError u e), d)
       | (Inr _, d) \<Rightarrow> (Inr (), d))"
    by (simp only:) (intro quiet.catch quiet.statement quiet_accounts quiet.pure)
qed

lemma quiet_remove: "keeping quietly (storeRemove E ctx u heir)"
  unfolding storeRemove_def
proof (intro quiet_administer quiet.bind quiet.wrap quiet.statement)
  fix who and n :: unit
  have "(\<lambda>d. case statement (RemovePasswordAccount E who heir u) d of (r, d) \<Rightarrow> (removal r, d))
    = (\<lambda>d. case statement (RemovePasswordAccount E who heir u) d of
         (Inl e, d) \<Rightarrow> (\<lambda>d. (removal (Inl e), d)) d | (Inr a, d) \<Rightarrow> (\<lambda>d. (removal (Inr a), d)) d)"
    by (rule ext) (auto split: prod.splits sum.splits)
  then show "keeping quietly (\<lambda>d. case statement (RemovePasswordAccount E who heir u) d of (r, d) \<Rightarrow> (removal r, d))"
    by (simp only:) (intro quiet.catch quiet.statement quiet_accounts; simp add: keeping_def quiet.P_refl)
qed (simp add: quiet.P_refl)

lemma grantless_quiet: "grantless S m \<Longrightarrow> keeping quietly m"
proof (induction rule: grantless.induct)
  case (8 ctx username secret builtin)
  then show ?case
    by (auto simp: passwordAdd_def intro!: quiet.bind quiet_hash quiet_add quiet.pure split: sum.split)
next
  case (9 ctx username secret)
  then show ?case
    unfolding SetPassword_def storeReset_def
    by (intro quiet.bind quiet_hash quiet_administer quiet.wrap quiet.statement quiet_accounts) (simp add: quiet.pure)
qed (auto simp: RegisterClient_def SaveRequest_def SaveAuthCode_def SaveCode_def DeleteRequest_def RevokeToken_def
    DeleteRefresh_def TerminateSession_def DeleteRefreshOf_def AddKey_def
    intro!: quiet.bind quiet.wrap quiet.statement quiet_requests quiet_remove)

lemma peers_alone: "adOthers d = [] \<Longrightarrow> peers P d"
  by (simp add: peers_def)

subsection \<open>Steps that grant\<close>

lemma alone:
  assumes "keeping quietly m" "adOthers d = []" "m d = (r, d')"
  shows "quietly (adTables d) (adTables d')"
  using keepingD[OF assms(1) _ assms(3)] assms(2) by (simp add: peers_def)

lemma statement_same: "adOthers d = [] \<Longrightarrow> statement (\<lambda>t. (Inr (), t)) d = (r, d') \<Longrightarrow> adTables d' = adTables d \<and> adOthers d' = []"
  by (auto simp: statement_def others_def Let_def split: if_splits)

lemma wrapped: "auth_wrap w m d = (r, d') \<Longrightarrow> \<exists>r'. m d = (r', d')"
  by (cases "m d"; cases "fst (m d)") (auto simp: auth_wrap_def)

text \<open>A transaction that succeeds did its work; one that fails did nothing.\<close>

lemma doingTx_alone:
  assumes "adOthers d = []" "doingTx doing m d = (r, d')"
  shows "(\<exists>e. r = Inl e) \<and> adTables d' = adTables d
    \<or> (\<exists>a d0 d1. r = Inr a \<and> adTables d0 = adTables d \<and> adOthers d0 = [] \<and> m d0 = (Inr a, d1)
         \<and> (adOthers d1 = [] \<longrightarrow> adTables d' = adTables d1))"
proof -
  obtain r0 d0 where b: "auth_wrap doing (statement (\<lambda>t. (Inr (), t))) d = (r0, d0)" by (metis surj_pair)
  then have d0: "adTables d0 = adTables d" "adOthers d0 = []"
    using wrapped[OF b] statement_same[OF assms(1)] by blast+
  show ?thesis
  proof (cases r0)
    case (Inl e)
    with assms(2) b d0 show ?thesis by (auto simp: doingTx_def)
  next
    case (Inr u)
    obtain r1 d1 where body: "m (d0\<lparr>adOthers := []\<rparr>) = (r1, d1)" by (metis surj_pair)
    show ?thesis
    proof (cases r1)
      case (Inl e)
      with assms(2) b Inr body d0 show ?thesis by (auto simp: doingTx_def)
    next
      case (Inr a)
      obtain r2 d2 where c: "auth_wrap doing (statement (\<lambda>t. (Inr (), t))) d1 = (r2, d2)" by (metis surj_pair)
      have same: "adOthers d1 = [] \<Longrightarrow> adTables d2 = adTables d1"
        using wrapped[OF c] statement_same by blast
      have run: "doingTx doing m d = (case r2 of Inl e \<Rightarrow> (Inl e, d2\<lparr>adTables := adTables d0, adOthers := adOthers d0\<rparr>)
            | Inr _ \<Rightarrow> (Inr a, d2\<lparr>adOthers := adOthers d0\<rparr>))"
        by (simp only: doingTx_def b \<open>r0 = Inr u\<close> body Inr c prod.case sum.case)
      show ?thesis
      proof (cases r2)
        case (Inr u')
        with same run assms(2) body \<open>r1 = Inr a\<close> d0 show ?thesis
          by (intro disjI2 exI[of _ a] exI[of _ "d0\<lparr>adOthers := []\<rparr>"] exI[of _ d1]) auto
      qed (use run assms(2) d0 in auto)
    qed
  qed
qed

lemma statement_done:
  assumes "statement f d = (Inr a, d')" "adOthers d = []"
  shows "f (adTables d) = (Inr a, adTables d')" "adOthers d' = []"
  using assms by (auto simp: statement_def others_def Let_def split: if_splits prod.splits sum.splits)

lemma signed_completed:
  "signed (updateRequest i (\<lambda>r. r\<lparr>arUserID := Some user, arAuthTime := Some n\<rparr>) t) \<subseteq> signed t \<union>
     {(i, rqClientID (arRequest q), user) | q. q \<in> set (tbRequests t) \<and> rqID (arRequest q) = i}"
proof
  fix x assume "x \<in> signed (updateRequest i (\<lambda>r. r\<lparr>arUserID := Some user, arAuthTime := Some n\<rparr>) t)"
  then obtain r u where r: "r \<in> set (tbRequests t)" and x: "x = (rqID (arRequest r), rqClientID (arRequest r), u)"
      and u: "(if rqID (arRequest r) = i then Some user else arUserID r) = Some u"
    by (auto simp: signed_def updateRequest_def split: if_splits)
  then show "x \<in> signed t \<union> {(i, rqClientID (arRequest q), user) | q. q \<in> set (tbRequests t) \<and> rqID (arRequest q) = i}"
    by (cases "rqID (arRequest r) = i") (auto simp: signed_def)
qed

lemma Mark_effect:
  assumes "MarkOAuthClientSignedIn i n t = (Inr a, t')"
  shows "tbRefresh t' = tbRefresh t" "tbUsers t' = tbUsers t" "signed t' = signed t"
  using assms by (auto simp: MarkOAuthClientSignedIn_def signed_def split: option.splits)

text \<open>Completing a request records one sign-in, for the request named.\<close>

lemma Complete_effect:
  assumes "CompleteRequest i user n d = (r, d')" "adOthers d = []"
  shows "tbRefresh (adTables d') = tbRefresh (adTables d) \<and> tbUsers (adTables d') = tbUsers (adTables d)
    \<and> signed (adTables d') \<subseteq> signed (adTables d) \<union>
        {(i, rqClientID (arRequest q), user) | q. q \<in> set (tbRequests (adTables d)) \<and> rqID (arRequest q) = i}"
  using doingTx_alone[OF assms(2) assms(1)[unfolded CompleteRequest_def]]
proof (elim disjE exE conjE)
  fix a d0 d1
  assume d0: "adTables d0 = adTables d" "adOthers d0 = []"
    and m: "auth_bind (statement (CompleteOAuthRequest i user n)) (\<lambda>_. statement (MarkOAuthClientSignedIn i n)) d0 = (Inr a, d1)"
    and d1: "adOthers d1 = [] \<longrightarrow> adTables d' = adTables d1"
  from m obtain x d2 where s1: "statement (CompleteOAuthRequest i user n) d0 = (Inr x, d2)"
    and s2: "statement (MarkOAuthClientSignedIn i n) d2 = (Inr a, d1)" by (elim bind_Inr)
  note e1 = statement_done[OF s1 d0(2)]
  note e2 = statement_done[OF s2 e1(2)]
  have "adTables d2 = updateRequest i (\<lambda>r. r\<lparr>arUserID := Some user, arAuthTime := Some n\<rparr>) (adTables d)"
    using e1(1) d0(1) by (auto simp: CompleteOAuthRequest_def split: if_splits)
  then have "tbRefresh (adTables d2) = tbRefresh (adTables d) \<and> tbUsers (adTables d2) = tbUsers (adTables d)
    \<and> signed (adTables d2) \<subseteq> signed (adTables d) \<union>
        {(i, rqClientID (arRequest q), user) | q. q \<in> set (tbRequests (adTables d)) \<and> rqID (arRequest q) = i}"
    using signed_completed[where i = i and user = user and n = n and t = "adTables d"] by (simp add: updateRequest_def)
  moreover note Mark_effect[OF e2(1)]
  ultimately show ?thesis using d1 e2(2) by simp
qed auto

text \<open>Issuing tokens adds the one grant, for a user, and takes the token it replaces.\<close>

lemma Insert_effect:
  assumes "InsertRefreshToken f t = (Inr u, t')"
  shows "tbRefresh t' = tbRefresh t @ [f]" "tbUsers t' = tbUsers t" "signed t' = signed t" "\<exists>u\<in>set (tbUsers t). urID u = rfUserID f"
  using assms by (auto simp: InsertRefreshToken_def list_ex_iff signed_def split: if_splits)

lemma Take_effect:
  assumes "TakeRefreshToken h t = (Inr f, t')"
  shows "tbRefresh t' = filter (\<lambda>r. rfTokenHash r \<noteq> h) (tbRefresh t)" "tbUsers t' = tbUsers t" "signed t' = signed t"
    "\<exists>r\<in>set (tbRefresh t). rfTokenHash r = h"
  using assms by (auto simp: TakeRefreshToken_def signed_def split: option.splits dest: find_SomeD)

definition issued_in :: "AuthTables \<Rightarrow> AuthTables \<Rightarrow> gostring option \<Rightarrow> Refresh \<Rightarrow> bool" where
  "issued_in t t' spent g =
     (tbRefresh t' = filter (\<lambda>r. Some (rfTokenHash r) \<noteq> spent) (tbRefresh t) @ [g] \<and> tbUsers t' = tbUsers t \<and> signed t' = signed t
      \<and> (\<exists>u\<in>set (tbUsers t). urID u = rfUserID g)
      \<and> (case spent of None \<Rightarrow> True | Some h \<Rightarrow> \<exists>r\<in>set (tbRefresh t). rfTokenHash r = h))"

lemma Save_effect:
  assumes "SaveRefresh g d = (r, d')" "adOthers d = []"
  shows "(\<exists>e. r = Inl e) \<and> adTables d' = adTables d \<or> r = Inr () \<and> issued_in (adTables d) (adTables d') None g"
proof (cases r)
  case (Inl e)
  with assms show ?thesis
    by (auto simp: SaveRefresh_def auth_wrap_def statement_def others_def Let_def split: if_splits prod.splits sum.splits)
next
  case (Inr u)
  with assms(1) have "statement (InsertRefreshToken g) d = (Inr u, d')" by (simp add: SaveRefresh_def wrap_Inr)
  from Insert_effect[OF statement_done(1)[OF this assms(2)]] Inr show ?thesis by (simp add: issued_in_def)
qed

lemma Rotate_effect:
  assumes "RotateRefresh h g d = (r, d')" "adOthers d = []"
  shows "r \<noteq> Inr True \<and> adTables d' = adTables d \<or> r = Inr True \<and> issued_in (adTables d) (adTables d') (Some h) g"
  using doingTx_alone[OF assms(2) assms(1)[unfolded RotateRefresh_def]]
proof (elim disjE exE conjE)
  fix a d0 d1
  assume d0: "adTables d0 = adTables d" "adOthers d0 = []" and m: "takeToken h g d0 = (Inr a, d1)"
    and d1: "adOthers d1 = [] \<longrightarrow> adTables d' = adTables d1" and r: "r = Inr a"
  obtain r2 d2 where s: "statement (TakeRefreshToken h) d0 = (r2, d2)" by (metis surj_pair)
  show ?thesis
  proof (cases r2)
    case (Inl e)
    have "adTables d2 = adTables d" "adOthers d2 = []"
      using s Inl d0 by (auto simp: statement_def others_def Let_def split: if_splits prod.splits sum.splits)
    moreover have "a = False" "d2 = d1" using m s Inl by (auto simp: takeToken_def split: if_splits)
    ultimately show ?thesis using r d1 by simp
  next
    case (Inr f)
    note e1 = statement_done[OF s[unfolded Inr] d0(2)]
    from m s Inr obtain x where s2: "statement (InsertRefreshToken g) d2 = (Inr x, d1)" and a: "a = True"
      by (auto simp: takeToken_def auth_return_def elim!: bind_Inr)
    note e2 = statement_done[OF s2 e1(2)]
    from Take_effect[OF e1(1)] Insert_effect[OF e2(1)] d1 e2(2) r a d0(1) show ?thesis
      by (simp add: issued_in_def)
  qed
qed auto

lemma Create_effect:
  assumes "CreateAccessAndRefreshTokens S q current d = (r, d')" "adOthers d = []"
  shows "(\<exists>e. r = Inl e) \<and> adTables d' = adTables d
    \<or> (\<exists>g n x. r = Inr x \<and> grantOf q = Inr g \<and> issued_in (adTables d) (adTables d')
          (if current = [] then None else Some (aeSHA (seAuth S) current))
          (g\<lparr>rfTokenHash := aeSHA (seAuth S) (aeRand (seAuth S) (adTick d)), rfExpiresAt := n\<rparr>))"
proof (cases "grantOf q")
  case (Inl e)
  with assms show ?thesis by (auto simp: CreateAccessAndRefreshTokens_def auth_fail_def)
next
  case (Inr g)
  let ?E = "seAuth S"
  let ?d = "d\<lparr>adTick := adTick d + 1\<rparr>"
  let ?g = "g\<lparr>rfTokenHash := aeSHA ?E (aeRand ?E (adTick d)), rfExpiresAt := adClock d + RefreshTokenLifetime\<rparr>"
  obtain r1 d1 where s: "saveGrant S current ?g ?d = (r1, d1)" by (metis surj_pair)
  have d: "adOthers ?d = []" using assms(2) by simp
  have e: "(\<exists>e. r1 = Inl e) \<and> adTables d1 = adTables d
     \<or> r1 = Inr () \<and> issued_in (adTables d) (adTables d1) (if current = [] then None else Some (aeSHA ?E current)) ?g"
  proof (cases "current = []")
    case True
    with s Save_effect[OF _ d, of ?g r1 d1] show ?thesis by (simp add: saveGrant_def)
  next
    case False
    obtain r2 d2 where "RotateRefresh (aeSHA ?E current) ?g ?d = (r2, d2)" by (metis surj_pair)
    with s False Rotate_effect[OF this d] show ?thesis
      by (cases r2) (auto simp: saveGrant_def auth_bind_def auth_fail_def auth_return_def split: if_splits)
  qed
  have failed: "(\<exists>e. r = Inl e) \<and> d' = d1" if "r1 = Inl e'" for e'
    using assms(1) s Inr that by (auto simp: CreateAccessAndRefreshTokens_def auth_bind_def randText_def)
  have saved: "\<exists>x. r = Inr x \<and> adTables d' = adTables d1" if "r1 = Inr u" for u
    using assms(1) s Inr that by (auto simp: CreateAccessAndRefreshTokens_def auth_bind_def randText_def)
  show ?thesis
  proof (cases r1)
    case (Inl e')
    with failed[OF Inl] e show ?thesis by simp
  next
    case (Inr u)
    with saved[OF Inr] obtain x where "r = Inr x" "adTables d' = adTables d1" by blast
    with e Inr \<open>grantOf q = Inr g\<close> show ?thesis by (intro disjI2 exI conjI) auto
  qed
qed

subsection \<open>Histories\<close>

text \<open>
  The tables, and what has happened: passwords accepted on the sign-in page for a request (\<open>igAccepted\<close>), requests
  completed with a client and a user (\<open>igSignIns\<close>), what the provider holds from the storage's answers, the hashes
  of tokens issued, and those spent by a rotation.
\<close>

record Issuing =
  igTables :: AuthTables
  igAccepted :: "(gostring \<times> gostring) set"
  igSignIns :: "(gostring \<times> gostring \<times> gostring) set"
  igHeld :: "TokenRequest set"
  igIssued :: "gostring set"
  igSpent :: "gostring list"

text \<open>
  One operation, by any server over the shared tables, with any faults.  The sign-in page completes a request for
  the user its password check named; the provider asks for tokens with what it was handed, narrowing a refresh's
  scopes; random text does not repeat.
\<close>

inductive issues :: "ServerEnv \<Rightarrow> Issuing \<Rightarrow> Issuing \<Rightarrow> bool" for S where
  grantless: "grantless S m \<Longrightarrow> adTables d = igTables g \<Longrightarrow> adOthers d = [] \<Longrightarrow> m d = (r, d') \<Longrightarrow>
    issues S g (g\<lparr>igTables := adTables d'\<rparr>)"
| accepts: "adTables d = igTables g \<Longrightarrow> adOthers d = [] \<Longrightarrow> Authenticate (seAuth S) decoy ctx name secret d = (Inr user, d') \<Longrightarrow>
    issues S g (g\<lparr>igTables := adTables d', igAccepted := insert (i, user) (igAccepted g)\<rparr>)"
| refuses: "adTables d = igTables g \<Longrightarrow> adOthers d = [] \<Longrightarrow> Authenticate (seAuth S) decoy ctx name secret d = (Inl e, d') \<Longrightarrow>
    issues S g (g\<lparr>igTables := adTables d'\<rparr>)"
| completes: "(i, user) \<in> igAccepted g \<Longrightarrow> adTables d = igTables g \<Longrightarrow> adOthers d = [] \<Longrightarrow> CompleteRequest i user n d = (r, d') \<Longrightarrow>
    issues S g (g\<lparr>igTables := adTables d', igSignIns := igSignIns g \<union>
      {(i, rqClientID (arRequest q), user) | q. q \<in> set (tbRequests (igTables g)) \<and> rqID (arRequest q) = i}\<rparr>)"
| hands_request: "adTables d = igTables g \<Longrightarrow> adOthers d = [] \<Longrightarrow> AuthRequestByCode S code d = (Inr q, d') \<Longrightarrow>
    issues S g (g\<lparr>igHeld := insert (FromAuth q) (igHeld g)\<rparr>)"
| hands_refresh: "adTables d = igTables g \<Longrightarrow> adOthers d = [] \<Longrightarrow> TokenRequestByRefreshToken S token d = (Inr f, d') \<Longrightarrow>
    issues S g (g\<lparr>igHeld := insert (FromRefresh (f\<lparr>rfScopes := scopes\<rparr>)) (igHeld g)\<rparr>)"
| tokens: "q \<in> igHeld g \<Longrightarrow> aeSHA (seAuth S) (aeRand (seAuth S) (adTick d)) \<notin> igIssued g \<Longrightarrow>
    adTables d = igTables g \<Longrightarrow> adOthers d = [] \<Longrightarrow> CreateAccessAndRefreshTokens S q current d = (r, d') \<Longrightarrow>
    issues S g (g\<lparr>igTables := adTables d', igIssued := insert (aeSHA (seAuth S) (aeRand (seAuth S) (adTick d))) (igIssued g),
      igSpent := (case r of Inr _ \<Rightarrow> (if current = [] then [] else [aeSHA (seAuth S) current]) | Inl _ \<Rightarrow> []) @ igSpent g\<rparr>)"

text \<open>A database on which nothing has been granted.\<close>

definition ungranted :: "Issuing \<Rightarrow> bool" where
  "ungranted g = (tbRefresh (igTables g) = [] \<and> signed (igTables g) = {} \<and> named_users (igTables g) \<and> igSignIns g = {}
     \<and> igHeld g = {} \<and> igIssued g = {} \<and> igSpent g = [] \<and> igAccepted g = {})"

definition stands :: "Issuing \<Rightarrow> Refresh \<Rightarrow> bool" where
  "stands g f = (\<exists>i. (i, rfClientID f, rfUserID f) \<in> igSignIns g)"

definition grants :: "TokenRequest \<Rightarrow> Refresh \<Rightarrow> bool" where
  "grants q f = (grantOf q = Inr f)"

definition issuing_ok :: "Issuing \<Rightarrow> bool" where
  "issuing_ok g =
     (named_users (igTables g) \<and> signed (igTables g) \<subseteq> igSignIns g \<and> (\<forall>(i, c, u)\<in>igSignIns g. (i, u) \<in> igAccepted g)
      \<and> (\<forall>q\<in>igHeld g. \<forall>f. grants q f \<longrightarrow> rfUserID f = [] \<or> stands g f)
      \<and> (\<forall>f\<in>set (tbRefresh (igTables g)). stands g f \<and> rfTokenHash f \<in> igIssued g \<and> rfTokenHash f \<notin> set (igSpent g))
      \<and> set (igSpent g) \<subseteq> igIssued g \<and> distinct (igSpent g))"

lemma issuing_quiet:
  assumes "issuing_ok g" "quietly (igTables g) t"
  shows "issuing_ok (g\<lparr>igTables := t\<rparr>)"
  using assms by (auto simp: issuing_ok_def quietly_def stands_def)

lemma Authenticate_quiet: "keeping quietly (Authenticate E decoy ctx u secret)"
proof -
  have check: "keeping quietly (checkHash E s h)" for s h
    by (auto simp: checkHash_def keeping_def peers_def quiet.P_refl Let_def split: sum.split)
  have refuse: "keeping quietly (refuse E decoy secret)"
    unfolding refuse_def by (intro quiet.bind check quiet.pure)
  have create: "keeping quietly (createHash E secret)"
    by (auto simp: createHash_def keeping_def peers_def quiet.P_refl Let_def split: sum.split)
  have signedIn: "keeping quietly (signedIn E x secret made)" for x made
    by (auto simp: signedIn_def storeSucceeded_def storeSetHash_def
        intro!: quiet.bind quiet.wrap quiet.statement quiet_accounts create quiet.pure)
  have match: "keeping quietly (checkPassword E a secret)" for a
    unfolding checkPassword_def
    by (intro quiet.bind check) (auto intro!: quiet.bind signedIn quiet.pure split: prod.split)
  have begun: "keeping quietly (storeBegin x p)" for x p
  proof -
    have "storeBegin x p = (\<lambda>d. case statement (BeginSignIn x p) d of
        (Inl e, d) \<Rightarrow> (if errors_Is e ErrNoRows then auth_return False else auth_fail (Errorf (lit ''count sign-in attempt'') e)) d
      | (Inr _, d) \<Rightarrow> auth_return True d)"
      by (rule ext) (auto simp: storeBegin_def auth_return_def auth_fail_def split: prod.splits sum.splits)
    moreover have "keeping quietly \<dots>"
      by (intro quiet.catch quiet.statement quiet_accounts) (auto simp: quiet.pure)
    ultimately show ?thesis by simp
  qed
  have attempt: "keeping quietly (\<lambda>d. auth_bind (storeBegin x (attemptNow (adClock d)))
     (\<lambda>opened. if \<not> opened then refuse E decoy secret else checkPassword E a secret) d)" for x a
  proof -
    have "keeping quietly (auth_bind (storeBegin x p) (\<lambda>opened. if \<not> opened then refuse E decoy secret else checkPassword E a secret))" for p
      by (intro quiet.bind begun) (simp add: refuse match)
    then show ?thesis by (simp add: keeping_def)
  qed
  show ?thesis
    unfolding Authenticate_def storeFind_def
    by (auto intro!: quiet.bind quiet.wrap quiet.statement quiet.pure refuse attempt simp: quiet.P_refl split: option.split)
qed

lemma handed_request:
  assumes "AuthRequestByCode S code d = (Inr q, d')" "adOthers d = []"
  shows "rqUserID q = [] \<or> (\<exists>i. (i, rqClientID q, rqUserID q) \<in> signed (adTables d))"
proof -
  from assms obtain d0 where "requestByCode (aeSHA (seAuth S) code) d = (Inr (Some q), d0)"
    unfolding AuthRequestByCode_def by (elim bind_Inr) (auto split: option.splits if_splits)
  then obtain row d1 where "optionally (lit ''read sign-in request'') (statement (OAuthRequestByCode (aeSHA (seAuth S) code))) d = (Inr (Some row), d1)"
      and q: "q = requestOf row"
    unfolding requestByCode_def requestRead_def by (elim bind_Inr) (auto simp: auth_return_def)
  then have "statement (OAuthRequestByCode (aeSHA (seAuth S) code)) d = (Inr row, d1)"
    by (auto simp: optionally_def split: prod.splits sum.splits if_splits)
  from statement_done(1)[OF this assms(2)] have "row \<in> set (tbRequests (adTables d))"
    by (auto simp: OAuthRequestByCode_def split: option.splits dest: find_SomeD)
  then show ?thesis
    by (cases "arUserID row") (auto simp: q requestOf_def Let_def signed_def split: option.splits)
qed

lemma handed_refresh:
  assumes "TokenRequestByRefreshToken S token d = (Inr f, d')" "adOthers d = []"
  shows "f \<in> set (tbRefresh (adTables d))"
proof -
  from assms obtain d0 where "refreshByHash (aeSHA (seAuth S) token) d = (Inr (Some f), d0)"
    unfolding TokenRequestByRefreshToken_def
    by (elim bind_Inr) (auto simp: auth_fail_def auth_return_def elim!: bind_Inr split: option.splits if_splits)
  then have "statement (RefreshToken (aeSHA (seAuth S) token)) d = (Inr f, d0)"
    by (auto simp: refreshByHash_def optionally_def split: prod.splits sum.splits if_splits)
  from statement_done(1)[OF this assms(2)] show ?thesis
    by (auto simp: RefreshToken_def split: option.splits dest: find_SomeD)
qed

lemma issuing_tokens:
  assumes ok: "issuing_ok g" and held: "q \<in> igHeld g" and fresh: "hash \<notin> igIssued g"
    and grant: "grantOf q = Inr f"
    and i: "issued_in (igTables g) t (if current = [] then None else Some spent) (f\<lparr>rfTokenHash := hash, rfExpiresAt := n\<rparr>)"
  shows "issuing_ok (g\<lparr>igTables := t, igIssued := insert hash (igIssued g),
     igSpent := (if current = [] then [] else [spent]) @ igSpent g\<rparr>)"
proof -
  note ok = ok[unfolded issuing_ok_def]
  have "rfUserID f \<noteq> []" using i ok by (auto simp: issued_in_def named_users_def)
  with ok held grant have st: "stands g f" by (auto simp: grants_def)
  have spent: "current \<noteq> [] \<Longrightarrow> \<exists>r\<in>set (tbRefresh (igTables g)). rfTokenHash r = spent" using i by (simp add: issued_in_def)
  then have sp: "current \<noteq> [] \<Longrightarrow> spent \<in> igIssued g \<and> spent \<notin> set (igSpent g) \<and> spent \<noteq> hash"
    using ok fresh by auto
  have rows: "r \<in> set (tbRefresh t) \<Longrightarrow> r \<in> set (tbRefresh (igTables g)) \<and> (current \<noteq> [] \<longrightarrow> rfTokenHash r \<noteq> spent)
      \<or> r = f\<lparr>rfTokenHash := hash, rfExpiresAt := n\<rparr>" for r
    using i by (auto simp: issued_in_def split: if_splits)
  have "\<forall>r\<in>set (tbRefresh t). stands g r \<and> rfTokenHash r \<in> insert hash (igIssued g)
     \<and> rfTokenHash r \<notin> set ((if current = [] then [] else [spent]) @ igSpent g)"
  proof
    fix r assume "r \<in> set (tbRefresh t)"
    from rows[OF this] show "stands g r \<and> rfTokenHash r \<in> insert hash (igIssued g)
     \<and> rfTokenHash r \<notin> set ((if current = [] then [] else [spent]) @ igSpent g)"
    proof
      assume "r = f\<lparr>rfTokenHash := hash, rfExpiresAt := n\<rparr>"
      with st sp fresh ok show ?thesis by (auto simp: stands_def)
    qed (use ok in auto)
  qed
  moreover have "named_users t" "signed t = signed (igTables g)" using i ok by (simp_all add: issued_in_def named_users_def)
  moreover have "set ((if current = [] then [] else [spent]) @ igSpent g) \<subseteq> insert hash (igIssued g)"
      "distinct ((if current = [] then [] else [spent]) @ igSpent g)" using ok sp by auto
  ultimately show ?thesis using ok by (simp add: issuing_ok_def stands_def)
qed

lemma issuing_step: "issues S g g' \<Longrightarrow> issuing_ok g \<Longrightarrow> issuing_ok g'"
proof (induction rule: issues.induct)
  case (grantless m d g r d')
  then show ?case using alone[OF grantless_quiet] issuing_quiet by metis
next
  case (accepts d g decoy ctx name secret user d' i)
  then have "issuing_ok (g\<lparr>igTables := adTables d'\<rparr>)"
    using alone[OF Authenticate_quiet] issuing_quiet by metis
  then show ?case by (auto simp: issuing_ok_def stands_def)
next
  case (refuses d g decoy ctx name secret e d')
  then show ?case using alone[OF Authenticate_quiet] issuing_quiet by metis
next
  case (completes i user g d n r d')
  from Complete_effect[OF completes(4,3)] completes(1,2,5) show ?case
    by (auto simp: issuing_ok_def stands_def named_users_def) blast
next
  case (hands_request d g code q d')
  from handed_request[OF hands_request(3,2)] hands_request(1,4) show ?case
    by (auto simp: issuing_ok_def stands_def grants_def grantOf_def)
next
  case (hands_refresh d g token f d' scopes)
  from handed_refresh[OF hands_refresh(3,2)] hands_refresh(1,4) show ?case
    by (auto simp: issuing_ok_def stands_def grants_def grantOf_def)
next
  case (tokens q g d current r d')
  from Create_effect[OF tokens(5,4)] show ?case
  proof (elim disjE exE conjE)
    fix e assume "r = Inl e" "adTables d' = adTables d"
    with tokens(3,6) show ?thesis by (auto simp: issuing_ok_def stands_def)
  next
    fix f n x
    assume "r = Inr x" "grantOf q = Inr f" and i: "issued_in (adTables d) (adTables d') (if current = [] then None else Some (aeSHA (seAuth S) current))
        (f\<lparr>rfTokenHash := aeSHA (seAuth S) (aeRand (seAuth S) (adTick d)), rfExpiresAt := n\<rparr>)"
    with issuing_tokens[OF tokens(6,1,2) _ i[unfolded tokens(3)]] show ?thesis by simp
  qed
qed

lemma issuing_reachable:
  assumes "ungranted g0" "rtranclp (issues S) g0 g"
  shows "issuing_ok g"
  using assms(2)
proof (induction rule: rtranclp_induct)
  case base
  with assms(1) show ?case by (auto simp: ungranted_def issuing_ok_def)
next
  case (step g g')
  then show ?case using issuing_step by blast
qed


text \<open>C6: A refresh token works exactly once.  In every such history no token is exchanged twice for a new one,
  however many requests hold it, and a token that was exchanged is no longer stored.\<close>

theorem refresh_tokens_spent_once:
  assumes "ungranted g0" "rtranclp (issues S) g0 g"
  shows "distinct (igSpent g) \<and> (\<forall>f\<in>set (tbRefresh (igTables g)). rfTokenHash f \<notin> set (igSpent g))"
  using issuing_reachable[OF assms] by (auto simp: issuing_ok_def)

subsection \<open>A history\<close>

definition someServerEnv :: ServerEnv where
  "someServerEnv = \<lparr>seAuth = someEnv, seParse = (\<lambda>_. None), seIssuer = [], seAudience = [[8]],
     seParseKey = (\<lambda>_. Inr True), seNewKey = (\<lambda>n. Inr [int n])\<rparr>"

definition someRequest :: AuthRequest where
  "someRequest = \<lparr>rqCreatedAt = 0, rqAuthTime = 0, rqID = [30], rqClientID = [20], rqRedirectURI = [], rqState = [], rqNonce = [],
     rqResponseType = [], rqResponseMode = [], rqCodeChallenge = [], rqCodeChallengeMethod = [], rqUserID = [], rqScopes = [],
     rqAudience = []\<rparr>"

definition someGranting :: AuthTables where
  "someGranting = signedUp\<lparr>tbClients := [\<lparr>clID = [20], clName = [], clRedirectURIs = [], clCreatedAt = 0, clSignedInAt = None\<rparr>],
     tbRequests := [\<lparr>arRequest = someRequest, arUserID = None, arAuthTime = None, arCodeHash = None\<rparr>]\<rparr>"

definition onTables :: "nat \<Rightarrow> AuthTables \<Rightarrow> AuthDB" where
  "onTables tick t = \<lparr>adTables = t, adFaults = [], adOthers = [], adClock = 0, adTick = tick, adCompared = 0\<rparr>"

definition startIssuing :: Issuing where
  "startIssuing = \<lparr>igTables = someGranting, igAccepted = {}, igSignIns = {}, igHeld = {}, igIssued = {}, igSpent = []\<rparr>"

definition afterAccept :: AuthTables where
  "afterAccept = adTables (snd (Authenticate someEnv [] noCtx [2] [9] (onTables 0 someGranting)))"

definition afterComplete :: AuthTables where
  "afterComplete = adTables (snd (CompleteRequest [30] [1] 0 (onTables 0 afterAccept)))"

definition afterCode :: AuthTables where
  "afterCode = adTables (snd (SaveAuthCode someServerEnv [30] [50] (onTables 0 afterComplete)))"

definition exchanged :: "AuthTables \<Rightarrow> (goerror + AuthRequest) \<times> AuthDB" where
  "exchanged t = AuthRequestByCode someServerEnv [50] (onTables 0 t)"

definition handedRequest :: AuthRequest where
  "handedRequest = someRequest\<lparr>rqUserID := [1]\<rparr>"

definition afterTokens :: AuthTables where
  "afterTokens = adTables (snd (CreateAccessAndRefreshTokens someServerEnv (FromAuth handedRequest) [] (onTables 0 afterCode)))"

definition afterRotation :: AuthTables where
  "afterRotation = adTables (snd (CreateAccessAndRefreshTokens someServerEnv (FromAuth handedRequest) [97] (onTables 2 afterTokens)))"

lemmas history_defs = afterAccept_def afterComplete_def afterCode_def afterTokens_def afterRotation_def exchanged_def

lemma issued_history:
  "\<exists>(g :: Issuing) f. rtranclp (issues someServerEnv) startIssuing g \<and> f \<in> set (tbRefresh (igTables g)) \<and> rfUserID f = [1] \<and> igSpent g = [[97]]"
proof -
  let ?S = "someServerEnv"
  have E: "seAuth ?S = someEnv" by (simp add: someServerEnv_def)
  have d [simp]: "adTables (onTables n t) = t" "adOthers (onTables n t) = []" "adTick (onTables n t) = n" for n t
    by (simp_all add: onTables_def)
  define g1 where "g1 = startIssuing\<lparr>igTables := afterAccept, igAccepted := {([30], [1])}\<rparr>"
  define g2 where "g2 = g1\<lparr>igTables := afterComplete, igSignIns := {([30], rqClientID (arRequest q), [1]) | q.
      q \<in> set (tbRequests afterAccept) \<and> rqID (arRequest q) = [30]}\<rparr>"
  define g3 where "g3 = g2\<lparr>igTables := afterCode\<rparr>"
  define g4 where "g4 = g3\<lparr>igHeld := {FromAuth handedRequest}\<rparr>"
  define g5 where "g5 = g4\<lparr>igTables := afterTokens, igIssued := {[97]}, igSpent := []\<rparr>"
  define g6 where "g6 = g5\<lparr>igTables := afterRotation, igIssued := {[99], [97]}, igSpent := [[97]]\<rparr>"
  have a: "fst (Authenticate someEnv [] noCtx [2] [9] (onTables 0 someGranting)) = Inr [1]" by code_simp
  then have "Authenticate (seAuth ?S) [] noCtx [2] [9] (onTables 0 someGranting) = (Inr [1], snd (Authenticate someEnv [] noCtx [2] [9] (onTables 0 someGranting)))"
    by (simp add: E prod_eq_iff)
  from issues.accepts[where g = startIssuing and i = "[30]", OF _ _ this] have s1: "issues ?S startIssuing g1"
    by (simp add: startIssuing_def g1_def afterAccept_def)
  have "issues ?S g1 g2"
    using issues.completes[where S = ?S and g = g1 and i = "[30]" and user = "[1]" and d = "onTables 0 afterAccept" and n = 0, OF _ _ _ surjective_pairing]
    by (simp add: g2_def g1_def afterComplete_def startIssuing_def)
  moreover have "issues ?S g2 g3"
    using issues.grantless[where g = g2 and d = "onTables 0 afterComplete", OF grantless.intros(3)[where i = "[30]" and code = "[50]"] _ _ surjective_pairing]
    by (simp add: g3_def g2_def afterCode_def)
  moreover have "fst (exchanged afterCode) = Inr handedRequest" by code_simp
  then have "AuthRequestByCode ?S [50] (onTables 0 afterCode) = (Inr handedRequest, snd (exchanged afterCode))"
    by (simp add: exchanged_def prod_eq_iff)
  from issues.hands_request[where g = g3, OF _ _ this] have "issues ?S g3 g4"
    by (simp add: g4_def g3_def g2_def g1_def startIssuing_def)
  moreover have "issues ?S g4 g5"
  proof -
    have "\<exists>x. CreateAccessAndRefreshTokens ?S (FromAuth handedRequest) [] (onTables 0 afterCode) = (Inr x, d') \<and> True"
      if "d' = snd (CreateAccessAndRefreshTokens ?S (FromAuth handedRequest) [] (onTables 0 afterCode))" for d'
    proof -
      have "fst (CreateAccessAndRefreshTokens ?S (FromAuth handedRequest) [] (onTables 0 afterCode)) = Inr ([98], [97], AccessTokenLifetime)"
        by code_simp
      with that show ?thesis by (auto simp: prod_eq_iff)
    qed
    then obtain x where "CreateAccessAndRefreshTokens ?S (FromAuth handedRequest) [] (onTables 0 afterCode)
       = (Inr x, snd (CreateAccessAndRefreshTokens ?S (FromAuth handedRequest) [] (onTables 0 afterCode)))" by blast
    from issues.tokens[where g = g4, OF _ _ _ _ this] show ?thesis
      by (simp add: g5_def g4_def g3_def g2_def g1_def startIssuing_def afterTokens_def E someEnv_def)
  qed
  moreover have "issues ?S g5 g6"
  proof -
    have "fst (CreateAccessAndRefreshTokens ?S (FromAuth handedRequest) [97] (onTables 2 afterTokens)) = Inr ([100], [99], AccessTokenLifetime)"
      by code_simp
    then have "CreateAccessAndRefreshTokens ?S (FromAuth handedRequest) [97] (onTables 2 afterTokens)
       = (Inr ([100], [99], AccessTokenLifetime), snd (CreateAccessAndRefreshTokens ?S (FromAuth handedRequest) [97] (onTables 2 afterTokens)))"
      by (simp add: prod_eq_iff)
    from issues.tokens[where g = g5, OF _ _ _ _ this] show ?thesis
      by (simp add: g6_def g5_def g4_def g3_def g2_def g1_def startIssuing_def afterRotation_def E someEnv_def)
  qed
  ultimately have "rtranclp (issues ?S) startIssuing g6" using s1 by (meson converse_rtranclp_into_rtranclp rtranclp.rtrancl_refl)
  moreover have "map rfUserID (tbRefresh afterRotation) = [[1]]" by code_simp
  then have "\<exists>f\<in>set (tbRefresh (igTables g6)). rfUserID f = [1]" by (auto simp: g6_def)
  moreover have "igSpent g6 = [[97]]" by (simp add: g6_def)
  ultimately show ?thesis by blast
qed

lemma start_ungranted: "ungranted startIssuing"
proof -
  have "tbRefresh someGranting = []" "map arUserID (tbRequests someGranting) = [None]" "map urID (tbUsers someGranting) = [[1]]" by code_simp+
  then show ?thesis by (auto simp: ungranted_def startIssuing_def signed_def named_users_def)
qed


theorem refresh_tokens_spent_once_witness:
  "\<exists>(g :: Issuing) f. f \<in> set (tbRefresh (igTables g)) \<and> igSpent g = [[97]] \<and> rfTokenHash f \<notin> set (igSpent g)"
  using issued_history refresh_tokens_spent_once[OF start_ungranted] by blast

text \<open>A code outlives a password reset.  A person signed in on a request and its code is with the client; an
  administrator resets the password, which ends every sign-in the account holds; the code still buys a refresh
  token for the account.\<close>

lemma code_survives_reset:
  "(case exchanged (signRun someEnv (Resets someOwner [2] [8]) afterCode) of
      (Inl e, d) \<Rightarrow> False
    | (Inr q, d) \<Rightarrow> map rfUserID (tbRefresh (adTables (snd (CreateAccessAndRefreshTokens someServerEnv (FromAuth q) [] d)))) = [[1]])"
  by code_simp

text \<open>Two servers on an empty database can sign with different keys.  The second's key is stamped after the first's
  began to be inserted, and read back before it is there: each has loaded its keys for good.\<close>

definition otherKey :: KeyRow where "otherKey = \<lparr>kyCreatedAt = 1, kyID = [40], kyPrivateKey = [41]\<rparr>"

lemma signers_disagree:
  "let (second, ring2, d2) = loadKeys someServerEnv [] ((onTables 5 someTables)\<lparr>adClock := 1\<rparr>);
       (first, ring1, d1) = loadKeys someServerEnv [] ((onTables 0 someTables)\<lparr>adOthers := [\<lambda>t. t, \<lambda>t. adTables d2]\<rparr>)
   in map kyID (take 1 ring1) = [[97]] \<and> map kyID (take 1 ring2) = [[102]] \<and> map kyID ring2 = [[102]]"
  by code_simp

end
