(* ===== verification/Adapters.thy ===== *)
theory Adapters
  imports Document Pystr GoErrors
begin

text \<open>
  \<^verbatim>\<open>internal/adapter\<close>: the adapter a file's suffix names, and the two adapters whose whole reading is the
  repository's, Markdown and plain text.  The PDF engine, the HTML and Word parsers and the file system are the
  record \<open>Formats\<close>.
\<close>

subsection \<open>adapter.go\<close>

datatype adapterFormat = formatPDF | formatMarkdown | formatHTML | formatDocx | formatText

definition formats :: "(gostring \<times> adapterFormat) list" where
  "formats = [(lit ''.pdf'', formatPDF), (lit ''.md'', formatMarkdown), (lit ''.markdown'', formatMarkdown),
     (lit ''.html'', formatHTML), (lit ''.htm'', formatHTML), (lit ''.docx'', formatDocx), (lit ''.txt'', formatText),
     (lit ''.text'', formatText)]"

record Formats =
  foUnicode :: unicode
  foRead :: "gostring \<Rightarrow> goerror + byte list"
  foPDF :: "gostring \<Rightarrow> goerror + Extraction"
  foHTML :: "gostring \<Rightarrow> goerror + Extraction"
  foDocx :: "gostring \<Rightarrow> goerror + Extraction"

text \<open>\<^verbatim>\<open>filepath.Base\<close>: the last element, without trailing slashes.\<close>

definition fileBase :: "gostring \<Rightarrow> gostring" where
  "fileBase path =
     (if path = [] then lit ''.''
      else let p = rev (dropWhile (\<lambda>r. r = 47) (rev path))
           in if p = [] then lit ''/'' else rev (takeWhile (\<lambda>r. r \<noteq> 47) (rev p)))"

definition SupportedSuffixes :: "gostring list" where
  "SupportedSuffixes = sort_texts (map fst formats)"

definition formatOf :: "unicode \<Rightarrow> gostring \<Rightarrow> goerror + adapterFormat" where
  "formatOf U path =
     (let name = fileBase path; suffix = Suffix name
      in case map_of formats (map (uToLower U) suffix) of
           Some f \<Rightarrow> Inr f
         | None \<Rightarrow>
             let suffix = (if suffix = [] then name else suffix)
             in Inl (ErrorfPrefix (Sentinel ErrUnsupportedFormat)
                  (lit '': no adapter for '' @ [39] @ suffix @ [39] @ lit ''; supported: '' @ join (lit '', '') SupportedSuffixes)))"

definition IsSupported :: "unicode \<Rightarrow> gostring \<Rightarrow> bool" where
  "IsSupported U path = (case formatOf U path of Inl _ \<Rightarrow> False | Inr _ \<Rightarrow> True)"

text \<open>\<^verbatim>\<open>pystr.ReadFile\<close>.\<close>

definition ReadFile :: "Formats \<Rightarrow> gostring \<Rightarrow> goerror + gostring" where
  "ReadFile F path =
     (case foRead F path of Inl e \<Rightarrow> Inl (Errorf (lit ''read '' @ path) e) | Inr raw \<Rightarrow> Inr (ReadText raw))"

subsection \<open>text.go\<close>

definition paragraphBreak :: gostring where "paragraphBreak = [10, 10]"

fun textBlocks :: "gostring list \<Rightarrow> int \<Rightarrow> Block list" where
  "textBlocks [] offset = []"
| "textBlocks (para # paras) offset =
     (let body = Strip para
      in (if body \<noteq> [] then [NewOffsetBlock [] offset body] else [])
         @ textBlocks paras (offset + int (length para) + int (length paragraphBreak)))"

definition textExtract :: "Formats \<Rightarrow> gostring \<Rightarrow> goerror + Extraction" where
  "textExtract F path =
     (case ReadFile F path of
        Inl e \<Rightarrow> Inl e
      | Inr raw \<Rightarrow> Inr (NewExtraction (Stem (fileBase path)) (lit ''text'') SourceBlankLines
                         (textBlocks (split paragraphBreak raw) 0)))"

subsection \<open>markdown.go\<close>

text \<open>\<^verbatim>\<open>codeFence\<close>: three backticks or tildes after any space.\<close>

definition codeFence :: "gostring \<Rightarrow> bool" where
  "codeFence line =
     (let s = dropWhile IsSpace line in has_prefix s [96, 96, 96] \<or> has_prefix s [126, 126, 126])"

text \<open>\<^verbatim>\<open>atxHeading\<close>: one to six hashes, space, the heading, then the longest tail of spaces and hashes.\<close>

definition atxHeading :: "gostring \<Rightarrow> (int \<times> gostring) option" where
  "atxHeading line =
     (let hashes = length (takeWhile (\<lambda>r. r = 35) line); rest = drop hashes line
      in if hashes = 0 \<or> 6 < hashes \<or> rest = [] \<or> \<not> IsSpace (hd rest) then None
         else let body = dropWhile IsSpace rest;
                  text = rev (dropWhile IsSpace (dropWhile (\<lambda>r. r = 35) (rev body)))
              in Some (int hashes, text))"

record mdReader =
  mdStack :: HeadingStack
  mdBlocks :: "Block list"
  mdPara :: "gostring list"
  mdParaOffset :: int
  mdOffset :: int
  mdInFence :: bool

definition mdFlush :: "mdReader \<Rightarrow> mdReader" where
  "mdFlush r =
     (let body = Strip (join [10] (mdPara r));
          r = (if body \<noteq> [] then r\<lparr>mdBlocks := mdBlocks r @ [NewOffsetBlock (Path (mdStack r)) (mdParaOffset r) body]\<rparr> else r)
      in r\<lparr>mdPara := []\<rparr>)"

text \<open>One line without its width, which is added to the offset when it has been read.\<close>

definition mdContent :: "gostring \<Rightarrow> int \<Rightarrow> mdReader \<Rightarrow> mdReader" where
  "mdContent stripped width r =
     (if codeFence stripped then r\<lparr>mdInFence := \<not> mdInFence r, mdPara := mdPara r @ [stripped]\<rparr>
      else case (if mdInFence r then None else atxHeading stripped) of
        Some (level, heading) \<Rightarrow> (let r = mdFlush r in r\<lparr>mdStack := Push level (Strip heading) (mdStack r)\<rparr>)
      | None \<Rightarrow>
          if Strip stripped = [] then (let r = mdFlush r in r\<lparr>mdParaOffset := mdOffset r + width\<rparr>)
          else (let r = (if mdPara r = [] then r\<lparr>mdParaOffset := mdOffset r\<rparr> else r)
                in r\<lparr>mdPara := mdPara r @ [stripped]\<rparr>))"

definition mdLine :: "gostring \<Rightarrow> mdReader \<Rightarrow> mdReader" where
  "mdLine line r =
     (let width = int (length line);
          stripped = rev (dropWhile (\<lambda>c. c = 10) (rev line));
          r = mdContent stripped width r
      in r\<lparr>mdOffset := mdOffset r + width\<rparr>)"

definition newMdReader :: mdReader where
  "newMdReader = \<lparr>mdStack = \<lparr>stkPath = []\<rparr>, mdBlocks = [], mdPara = [], mdParaOffset = 0, mdOffset = 0, mdInFence = False\<rparr>"

definition mdBlocksOf :: "gostring \<Rightarrow> Block list" where
  "mdBlocksOf raw = mdBlocks (mdFlush (fold mdLine (SplitLinesKeepEnds raw) newMdReader))"

definition mdTitle :: "gostring \<Rightarrow> Block list \<Rightarrow> gostring" where
  "mdTitle path blocks =
     (let title = (case find (\<lambda>b. blkHeadingPath b \<noteq> []) blocks of None \<Rightarrow> [] | Some b \<Rightarrow> hd (blkHeadingPath b))
      in if title = [] then Stem (fileBase path) else title)"

definition markdownExtract :: "Formats \<Rightarrow> gostring \<Rightarrow> goerror + Extraction" where
  "markdownExtract F path =
     (case ReadFile F path of
        Inl e \<Rightarrow> Inl e
      | Inr raw \<Rightarrow> let blocks = mdBlocksOf raw
                   in Inr (NewExtraction (mdTitle path blocks) (lit ''markdown'') SourceATXHeadings blocks))"

subsection \<open>The registry\<close>

definition adapterExtract :: "Formats \<Rightarrow> gostring \<Rightarrow> goerror + Extraction" where
  "adapterExtract F path =
     (case formatOf (foUnicode F) path of
        Inl e \<Rightarrow> Inl e
      | Inr f \<Rightarrow>
          (case f of
             formatPDF \<Rightarrow> foPDF F path
           | formatMarkdown \<Rightarrow> markdownExtract F path
           | formatHTML \<Rightarrow> foHTML F path
           | formatDocx \<Rightarrow> foDocx F path
           | formatText \<Rightarrow> textExtract F path))"

end
