(* ===== verification/Adapters_Props.thy ===== *)
theory Adapters_Props
  imports Adapters Chunking_Props
begin

text \<open>
  What the text and Markdown adapters keep of a file, and where they say it stands.
\<close>

subsection \<open>Plain text\<close>

lemma NewOffsetBlock_fields [simp]:
  "blkText (NewOffsetBlock p n t) = t" "blkHeadingPath (NewOffsetBlock p n t) = p" "Locator (NewOffsetBlock p n t) = [(''offset'', n)]"
  by (simp_all add: NewOffsetBlock_def)

lemma textBlocks_visible: "visibleBlocks (textBlocks paras n) = concat (map visible paras)"
  by (induction paras arbitrary: n) (auto simp: Let_def visibleBlocks_def Strip_empty_iff)

text \<open>A block stands where it says: at its offset in the text begins a paragraph, whose stripped text it is.\<close>

definition stands_in :: "gostring \<Rightarrow> Block \<Rightarrow> bool" where
  "stands_in raw b =
     (\<exists>pre para post. raw = pre @ para @ post \<and> Locator b = [(''offset'', int (length pre))] \<and> blkText b = Strip para \<and> blkText b \<noteq> [])"

lemma textBlocks_stand:
  "raw = pre @ join paragraphBreak paras \<Longrightarrow> b \<in> set (textBlocks paras (int (length pre))) \<Longrightarrow> stands_in raw b"
proof (induction paras arbitrary: pre)
  case (Cons para paras)
  show ?case
  proof (cases "b \<in> set (textBlocks paras (int (length (pre @ para @ paragraphBreak))))")
    case True
    then have "paras \<noteq> []" by auto
    then have "raw = (pre @ para @ paragraphBreak) @ join paragraphBreak paras" using Cons.prems(1) by (cases paras) auto
    from Cons.IH[OF this True] show ?thesis .
  next
    case False
    obtain post where "raw = pre @ para @ post" using Cons.prems(1) by (cases paras) auto
    moreover have "b = NewOffsetBlock [] (int (length pre)) (Strip para)" "Strip para \<noteq> []"
      using Cons.prems(2) False by (auto simp: Let_def add.assoc split: if_splits)
    ultimately show ?thesis unfolding stands_in_def by auto
  qed
qed simp

text \<open>C39: A text file is kept whole and in place.  Its blocks hold every visible character of the file in order, and
  each is the stripped paragraph that begins at its offset.\<close>

theorem textExtract_faithful:
  assumes "textExtract F path = Inr ext" "ReadFile F path = Inr raw"
  shows "visibleBlocks (Blocks ext) = visible raw \<and> (\<forall>b\<in>set (Blocks ext). stands_in raw b)"
proof -
  have ext: "Blocks ext = textBlocks (split paragraphBreak raw) 0"
    using assms by (auto simp: textExtract_def NewExtraction_def)
  have "visible raw = visible (join paragraphBreak (split paragraphBreak raw))" by (simp add: join_split)
  also have "\<dots> = concat (map visible (split paragraphBreak raw))"
    by (intro visible_join) (simp add: paragraphBreak_def)
  finally have "visibleBlocks (Blocks ext) = visible raw" by (simp add: ext textBlocks_visible)
  moreover have "stands_in raw b" if "b \<in> set (Blocks ext)" for b
    using textBlocks_stand[of raw "[]" "split paragraphBreak raw" b] that by (simp add: ext join_split)
  ultimately show ?thesis by blast
qed

definition someFormats :: "gostring \<Rightarrow> Formats" where
  "someFormats content = \<lparr>foUnicode = \<lparr>uLetter = \<lambda>_. True, uNd = \<lambda>_. False, uNlNo = \<lambda>_. False, uPrint = \<lambda>_. True,
       uCased = \<lambda>_. False, uMarkLike = \<lambda>_. False, uToLower = \<lambda>r. r\<rparr>, foRead = \<lambda>_. Inr content, foPDF = \<lambda>_. Inl (ErrorNew []),
     foHTML = \<lambda>_. Inl (ErrorNew []), foDocx = \<lambda>_. Inl (ErrorNew [])\<rparr>"

theorem textExtract_faithful_witness:
  "\<exists>ext. textExtract (someFormats [97, 10, 10, 98]) (lit ''a.txt'') = Inr ext \<and> visibleBlocks (Blocks ext) = [97, 98]"
proof -
  have raw: "ReadFile (someFormats [97, 10, 10, 98]) (lit ''a.txt'') = Inr [97, 10, 10, 98]" by code_simp
  then obtain ext where ext: "textExtract (someFormats [97, 10, 10, 98]) (lit ''a.txt'') = Inr ext" by (simp add: textExtract_def)
  have "visible [97, 10, 10, 98] = [97, 98]" by code_simp
  with textExtract_faithful[OF ext raw] ext show ?thesis by simp
qed

subsection \<open>Markdown\<close>

text \<open>The visible characters of the text with the headings they stand under, read off the lines.\<close>

definition under :: "HeadingStack \<Rightarrow> gostring \<Rightarrow> (gostring list \<times> rune) list" where
  "under stack s = map (Pair (Path stack)) (visible s)"

definition unterminated :: "gostring \<Rightarrow> gostring" where
  "unterminated line = rev (dropWhile (\<lambda>c. c = 10) (rev line))"

fun headed :: "gostring list \<Rightarrow> bool \<Rightarrow> HeadingStack \<Rightarrow> (gostring list \<times> rune) list" where
  "headed [] inFence stack = []"
| "headed (line # lines) inFence stack =
     (let s = unterminated line
      in if codeFence s then under stack s @ headed lines (\<not> inFence) stack
         else case (if inFence then None else atxHeading s) of
           Some (level, heading) \<Rightarrow> headed lines inFence (Push level (Strip heading) stack)
         | None \<Rightarrow> under stack s @ headed lines inFence stack)"

definition filed :: "Block list \<Rightarrow> (gostring list \<times> rune) list" where
  "filed bs = concat (map (\<lambda>b. map (Pair (blkHeadingPath b)) (visible (blkText b))) bs)"

lemma filed_append [simp]: "filed (bs @ cs) = filed bs @ filed cs"
  by (simp add: filed_def)

definition filedSoFar :: "mdReader \<Rightarrow> (gostring list \<times> rune) list" where
  "filedSoFar r = filed (mdBlocks r) @ under (mdStack r) (join [10] (mdPara r))"

lemma visible_lines: "visible (join [10] ls) = concat (map visible ls)"
  by (intro visible_join) simp

lemma under_lines: "under st (join [10] (ls @ [l])) = under st (join [10] ls) @ under st l"
  by (simp add: under_def visible_lines)

lemma flush_views [simp]:
  "mdStack (mdFlush r) = mdStack r" "mdInFence (mdFlush r) = mdInFence r" "mdPara (mdFlush r) = []" "mdOffset (mdFlush r) = mdOffset r"
  by (simp_all add: mdFlush_def Let_def)

lemma flush_filed: "filed (mdBlocks (mdFlush r)) = filedSoFar r"
  by (auto simp: mdFlush_def Let_def filedSoFar_def filed_def under_def Strip_empty_iff)

lemma line_filed:
  "filedSoFar (mdLine line r) @ headed ls (mdInFence (mdLine line r)) (mdStack (mdLine line r)) =
   filedSoFar r @ headed (line # ls) (mdInFence r) (mdStack r)"
proof (cases "codeFence (unterminated line)")
  case True
  then show ?thesis
    by (simp add: mdLine_def mdContent_def Let_def unterminated_def[symmetric] filedSoFar_def under_lines)
next
  case fence: False
  show ?thesis
  proof (cases "if mdInFence r then None else atxHeading (unterminated line)")
    case None
    have blank: "Strip (unterminated line) = [] \<Longrightarrow> under st (unterminated line) = []" for st
      by (simp add: under_def Strip_empty_iff)
    from fence None flush_filed[of r] blank show ?thesis
      by (simp add: mdLine_def mdContent_def Let_def unterminated_def[symmetric] under_lines)
        (simp add: filedSoFar_def under_def visible_lines)
  next
    case (Some lh)
    obtain level heading where "lh = (level, heading)" by (cases lh)
    with fence Some flush_filed[of r] show ?thesis
      by (simp add: mdLine_def mdContent_def Let_def unterminated_def[symmetric])
        (simp add: filedSoFar_def under_def)
  qed
qed

lemma lines_filed:
  "filed (mdBlocks (mdFlush (fold mdLine ls r))) = filedSoFar r @ headed ls (mdInFence r) (mdStack r)"
proof (induction ls arbitrary: r)
  case Nil
  show ?case by (simp add: flush_filed)
next
  case (Cons line ls)
  from Cons[of "mdLine line r"] line_filed[of line r ls] show ?case by simp
qed

text \<open>C40: Markdown keeps its text under its headings.  Every visible character of every line that is not a heading is
  in a block, in order and once, and the block's path is the headings read before that line; a line inside a code
  fence is never a heading.\<close>

theorem mdBlocksOf_headed:
  "filed (mdBlocksOf raw) = headed (SplitLinesKeepEnds raw) False \<lparr>stkPath = []\<rparr>"
  unfolding mdBlocksOf_def lines_filed by (simp add: filedSoFar_def newMdReader_def filed_def under_def)

text \<open>The offset of a code block that follows a heading at once is stale: it is the offset the paragraph before the
  heading had.\<close>

lemma fence_offset_stale:
  "map Locator (mdBlocksOf (lit ''text'' @ [10] @ lit ''# H'' @ [10] @ [96, 96, 96, 10] @ lit ''code'' @ [10, 96, 96, 96, 10]))
   = [[(''offset'', 0)], [(''offset'', 0)]]"
  by code_simp

end
