(* ===== verification/SiteBuild.thy ===== *)
theory SiteBuild
  imports Crawl Structure Inspect
begin

text \<open>
  \<^verbatim>\<open>internal/site\<close>: a crawl as one extraction, a page to a section, and the dry run that reports on one.  The HTML
  parser and the measuring of a page's script and text are the record \<open>PageParser\<close>.
\<close>

subsection \<open>site.go\<close>

text \<open>\<^verbatim>\<open>html.Item\<close>.\<close>

record Item =
  itFragment :: "gostring option"
  itText :: gostring
  itHeadingPath :: "gostring list"

record PageParser =
  ppUnicode :: unicode
  ppParse :: "byte list \<Rightarrow> goerror + gostring \<times> Item list"
  ppURL :: "gostring \<Rightarrow> URL option"
  ppMeasure :: "byte list \<Rightarrow> goerror + int \<times> int"  \<comment> \<open>script characters, text characters\<close>

definition chromePageFraction :: rat where "chromePageFraction = 1 / 2"
definition chromeMinPages :: int where "chromeMinPages = 5"
definition chromeMaxChars :: int where "chromeMaxChars = 200"

definition normalizeText :: "unicode \<Rightarrow> gostring \<Rightarrow> gostring" where
  "normalizeText U text = Lower U (join [32] (find_runs (\<lambda>r. \<not> IsSpace r) text))"

fun firstNonEmpty :: "gostring list \<Rightarrow> gostring" where
  "firstNonEmpty [] = []"
| "firstNonEmpty (v # vs) = (if v \<noteq> [] then v else firstNonEmpty vs)"

fun keyOf :: "unicode \<Rightarrow> gostring list \<Rightarrow> int list \<Rightarrow> int list" where
  "keyOf U [] key = key"
| "keyOf U (p # ps) key = (case Atoi U p of Inl _ \<Rightarrow> [] | Inr n \<Rightarrow> keyOf U ps (key @ [n]))"

definition sectionKey :: "unicode \<Rightarrow> gostring \<Rightarrow> int list" where
  "sectionKey U section = keyOf U (split [46] section) []"

text \<open>The zero \<^verbatim>\<open>Placement\<close> a map answers for a URL it does not hold.\<close>

definition placementAt :: "Hierarchy \<Rightarrow> gostring \<Rightarrow> Placement" where
  "placementAt h u = (case ByURL h u of Some p \<Rightarrow> p | None \<Rightarrow> \<lparr>plURL = [], plSection = [], plTitle = [], plAncestry = []\<rparr>)"

record ParsedPage =
  psURL :: gostring
  psTitle :: gostring
  psItems :: "Item list"

text \<open>\<^verbatim>\<open>slices.SortStableFunc\<close> by section key; \<^verbatim>\<open>slices.Compare\<close> is the order of lists \<open>text_le\<close> is.\<close>

fun insertPage :: "(Page \<Rightarrow> int list) \<Rightarrow> Page \<Rightarrow> Page list \<Rightarrow> Page list" where
  "insertPage key p [] = [p]"
| "insertPage key p (q # qs) = (if text_le (key p) (key q) then p # q # qs else q # insertPage key p qs)"

definition sortPages :: "(Page \<Rightarrow> int list) \<Rightarrow> Page list \<Rightarrow> Page list" where
  "sortPages key ps = foldr (insertPage key) ps []"

text \<open>The order and the pages hold the same URLs; a URL with no page is a nil pointer.\<close>

definition nilPage :: Page where
  "nilPage = \<lparr>pgURL = [], pgFinalURL = [], pgDeclaredTitle = [], pgBody = []\<rparr>"

definition pageAt :: "Result \<Rightarrow> gostring \<Rightarrow> Page" where
  "pageAt r u = (case map_of (crPages r) u of Some p \<Rightarrow> p | None \<Rightarrow> nilPage)"

definition orderedPages :: "unicode \<Rightarrow> Result \<Rightarrow> Page list \<times> gostring list" where
  "orderedPages U r =
     (let h = crHierarchy r; placed = filter (\<lambda>u. ByURL h u \<noteq> None) (crOrder r)
      in (sortPages (\<lambda>p. sectionKey U (plSection (placementAt h (pgURL p)))) (map (pageAt r) placed),
          filter (\<lambda>u. ByURL h u = None) (crOrder r)))"

definition parsePage :: "PageParser \<Rightarrow> Page \<Rightarrow> Placement \<Rightarrow> goerror + ParsedPage" where
  "parsePage H page placement =
     (case ppParse H (pgBody page) of
        Inl e \<Rightarrow> Inl (Errorf (pgURL page) e)
      | Inr (htmlTitle, items) \<Rightarrow>
          Inr \<lparr>psURL = pgURL page,
               psTitle = firstNonEmpty [plTitle placement, pgDeclaredTitle page, htmlTitle, pgURL page],
               psItems = items\<rparr>)"

fun parsePages :: "PageParser \<Rightarrow> (Page \<times> Placement) list \<Rightarrow> goerror + ParsedPage list" where
  "parsePages H [] = Inr []"
| "parsePages H ((p, placement) # ps) =
     (case parsePage H p placement of
        Inl e \<Rightarrow> Inl e
      | Inr x \<Rightarrow> (case parsePages H ps of Inl e \<Rightarrow> Inl e | Inr xs \<Rightarrow> Inr (x # xs)))"

text \<open>The pages each short block is on.\<close>

type_synonym onPages = "(gostring \<times> gostring list) list"

fun addPage :: "gostring \<Rightarrow> gostring \<Rightarrow> onPages \<Rightarrow> onPages" where
  "addPage key u [] = [(key, [u])]"
| "addPage key u ((k, us) # rest) =
     (if k = key then (k, if u \<in> set us then us else us @ [u]) # rest else (k, us) # addPage key u rest)"

definition addCandidate :: "unicode \<Rightarrow> onPages \<Rightarrow> gostring \<Rightarrow> gostring \<Rightarrow> onPages" where
  "addCandidate U pages text u =
     (let text = Strip text
      in if text = [] \<or> chromeMaxChars < int (length text) then pages else addPage (normalizeText U text) u pages)"

definition pagesPerBlock :: "unicode \<Rightarrow> ParsedPage list \<Rightarrow> onPages" where
  "pagesPerBlock U parsed =
     fold (\<lambda>page pages. fold (\<lambda>item pages. addCandidate U pages (itText item) (psURL page)) (psItems page) pages) parsed []"

definition chromeThreshold :: "nat \<Rightarrow> int" where
  "chromeThreshold n = max chromeMinPages (int_of_float (rnd (of_nat n * chromePageFraction)))"

definition chromeTexts :: "unicode \<Rightarrow> ParsedPage list \<Rightarrow> gostring list" where
  "chromeTexts U parsed =
     (if int (length parsed) < chromeMinPages then []
      else map fst (filter (\<lambda>(key, pages). chromeThreshold (length parsed) \<le> int (length pages)) (pagesPerBlock U parsed)))"

definition pagePath :: "unicode \<Rightarrow> gostring list \<Rightarrow> gostring list \<Rightarrow> gostring \<Rightarrow> gostring list" where
  "pagePath U base itemPath pageTitle =
     (let inner = filter (\<lambda>p. p \<noteq> []) itemPath;
          inner = (if inner \<noteq> [] \<and> normalizeText U (hd inner) = normalizeText U pageTitle then tl inner else inner)
      in base @ inner)"

definition blockOf ::
  "unicode \<Rightarrow> Item \<Rightarrow> gostring list \<Rightarrow> ParsedPage \<Rightarrow> Placement \<Rightarrow> gostring list \<Rightarrow> int \<Rightarrow> Block option" where
  "blockOf U item base page placement chrome offset =
     (let text = Strip (itText item)
      in if text = [] \<or> normalizeText U text \<in> set chrome then None
         else Some ((NewOffsetBlock (pagePath U base (itHeadingPath item) (psTitle page)) offset text)
                \<lparr>Section := Some (plSection placement), blkURL := Some (psURL page), blkFragment := itFragment item\<rparr>))"

fun itemBlocks ::
  "unicode \<Rightarrow> gostring list \<Rightarrow> ParsedPage \<Rightarrow> Placement \<Rightarrow> gostring list \<Rightarrow> Item list \<Rightarrow> int \<Rightarrow> Block list \<times> nat" where
  "itemBlocks U base page placement chrome [] offset = ([], 0)"
| "itemBlocks U base page placement chrome (item # items) offset =
     (case blockOf U item base page placement chrome offset of
        None \<Rightarrow>
          (let (bs, dropped) = itemBlocks U base page placement chrome items offset
           in (bs, (if normalizeText U (Strip (itText item)) \<in> set chrome then 1 else 0) + dropped))
      | Some b \<Rightarrow>
          (let (bs, dropped) = itemBlocks U base page placement chrome items (offset + int (length (blkText b)) + 1)
           in (b # bs, dropped)))"

definition pageBlocksOf :: "unicode \<Rightarrow> ParsedPage \<Rightarrow> Placement \<Rightarrow> gostring list \<Rightarrow> int \<Rightarrow> Block list \<times> nat" where
  "pageBlocksOf U page placement chrome offset =
     itemBlocks U (plAncestry placement @ [psTitle page]) page placement chrome (psItems page) offset"

fun blocksOf :: "unicode \<Rightarrow> ParsedPage list \<Rightarrow> Hierarchy \<Rightarrow> gostring list \<Rightarrow> int \<Rightarrow> Block list \<times> nat" where
  "blocksOf U [] h chrome offset = ([], 0)"
| "blocksOf U (page # pages) h chrome offset =
     (let (bs, dropped) = pageBlocksOf U page (placementAt h (psURL page)) chrome offset;
          (rest, more) = blocksOf U pages h chrome (offset + sum_list (map (\<lambda>b. int (length (blkText b)) + 1) bs))
      in (bs @ rest, dropped + more))"

definition siteTitle :: "PageParser \<Rightarrow> Result \<Rightarrow> gostring \<Rightarrow> goerror + gostring" where
  "siteTitle H r override =
     (let fallback = (case ppURL H (crSeed r) of
                        None \<Rightarrow> crSeed r | Some u \<Rightarrow> if uHostname u = [] then crSeed r else uHostname u)
      in if override \<noteq> [] then Inr (Strip override)
         else case map_of (crPages r) (crSeed r) of
           None \<Rightarrow> Inr fallback
         | Some seed \<Rightarrow>
             (case ppParse H (pgBody seed) of
                Inl e \<Rightarrow> Inl (Errorf (crSeed r) e)
              | Inr (title, _) \<Rightarrow> Inr (if Strip title \<noteq> [] then Strip title else fallback)))"

definition siteDiagnostics :: "Result \<Rightarrow> Block list \<Rightarrow> gostring list \<Rightarrow> nat \<Rightarrow> nat \<Rightarrow> (string \<times> any) list" where
  "siteDiagnostics r blocks unplaced dropped distinctBlocks =
     [(''seed'', AnyString (crSeed r)),
      (''pages_declared'', AnyInt (Declared r)),
      (''pages_fetched'', AnyInt (int (length (crPages r)))),
      (''pages_with_blocks'', AnyInt (int (length (remdups (List.map_filter blkURL blocks))))),
      (''unreachable'', AnyStrings (map fst (crUnreachable r))),
      (''unreachable_reasons'', AnyStrings (map (\<lambda>(u, reason). u @ lit '': '' @ reason) (crUnreachable r))),
      (''placed_by_path'', AnyStrings (hiPlacedByPath (crHierarchy r))),
      (''hierarchy_inferred'', AnyBool (hiInferred (crHierarchy r))),
      (''canonical_merges'', AnyInt (int (length (crMerges r)))),
      (''unplaced_pages'', AnyStrings unplaced),
      (''chrome_blocks_dropped'', AnyInt (int dropped)),
      (''chrome_distinct_blocks'', AnyInt (int distinctBlocks))]"

definition BuildExtraction :: "PageParser \<Rightarrow> Result \<Rightarrow> gostring \<Rightarrow> goerror + Extraction" where
  "BuildExtraction H r title =
     (let U = ppUnicode H; h = crHierarchy r; (pages, unplaced) = orderedPages U r
      in case parsePages H (map (\<lambda>p. (p, placementAt h (pgURL p))) pages) of
           Inl e \<Rightarrow> Inl e
         | Inr parsed \<Rightarrow>
             let chrome = chromeTexts U parsed; (blocks, dropped) = blocksOf U parsed h chrome 0
             in case siteTitle H r title of
                  Inl e \<Rightarrow> Inl e
                | Inr name \<Rightarrow>
                    let ext = NewExtraction name (lit ''site'') (hiSource h) blocks
                    in Inr (ext\<lparr>Diagnostics := Diagnostics ext @
                         [(''site'', AnyMap (siteDiagnostics r blocks unplaced dropped (length chrome))),
                          (''notes'', AnyStrings (crNotes r))]\<rparr>))"

subsection \<open>inspect.go\<close>

definition clientRenderedMaxTextChars :: int where "clientRenderedMaxTextChars = 200"
definition clientRenderedScriptRatio :: rat where "clientRenderedScriptRatio = 4"

definition isShell :: "PageParser \<Rightarrow> byte list \<Rightarrow> goerror + bool" where
  "isShell H body =
     (case ppMeasure H body of
        Inl e \<Rightarrow> Inl (Errorf (lit ''parse a page'') e)
      | Inr (scriptChars, textChars) \<Rightarrow>
          if clientRenderedMaxTextChars < textChars then Inr False
          else Inr (rnd (of_int (max 1 textChars) * clientRenderedScriptRatio) \<le> rnd (of_int scriptChars)))"

fun shellsOf :: "PageParser \<Rightarrow> Result \<Rightarrow> gostring list \<Rightarrow> goerror + gostring list" where
  "shellsOf H r [] = Inr []"
| "shellsOf H r (u # us) =
     (case map_of (crPages r) u of
        None \<Rightarrow> shellsOf H r us
      | Some page \<Rightarrow>
          (case isShell H (pgBody page) of
             Inl e \<Rightarrow> Inl e
           | Inr shell \<Rightarrow>
               (case shellsOf H r us of Inl e \<Rightarrow> Inl e | Inr shells \<Rightarrow> Inr (if shell then u # shells else shells))))"

definition clientRendered :: "PageParser \<Rightarrow> Result \<Rightarrow> goerror + gostring list" where
  "clientRendered H r = shellsOf H r (crOrder r)"

definition coverageFinding :: "Result \<Rightarrow> InspectReport \<Rightarrow> InspectReport" where
  "coverageFinding r report' =
     (let sources = Sources (crCoverage r);
          (level, named) = (if sources = [] then (LevelWarn, lit ''none; the page set came from following links'')
                            else (LevelOK, join (lit '', '') sources))
      in AddFinding level (lit ''coverage'') (show_int (int (length (crPages r))) @ lit '' page(s) fetched. Sources that answered: '' @ named @ lit ''.'') report')"

definition reachability :: "Result \<Rightarrow> InspectReport \<Rightarrow> InspectReport" where
  "reachability r report' =
     (if crUnreachable r = [] then report'
      else let share = Crawl.UnreachableShare r;
               level = (if SiteIncompleteFatalShare \<le> share then LevelBlocked else LevelWarn);
               why = map (\<lambda>(u, reason). u @ lit '' ('' @ reason @ lit '')'') (take 3 (crUnreachable r))
           in AddFinding level (lit ''reachability'')
                (show_int (int (length (crUnreachable r))) @ lit '' of '' @ show_int (Declared r) @ lit '' known page(s) ('' @ Nav.percent share @
                 lit '') could not be fetched. At or above '' @ Nav.percent SiteIncompleteFatalShare @
                 lit '' the ingest is refused rather than producing an index over part of a site. First few: '' @ join (lit ''; '') why) report')"

definition hierarchyFinding :: "Result \<Rightarrow> InspectReport \<Rightarrow> InspectReport" where
  "hierarchyFinding r report' =
     (let h = crHierarchy r;
          report' = report'\<lparr>PredictedSource := StructureSource_String (hiSource h)\<rparr>;
          report' = (if hiInferred h
            then AddFinding LevelWarn (lit ''hierarchy'')
              (lit ''no navigation source placed enough of the page set to be believed, so pages will be nested by URL path. That is inference: it keeps a command reference together, but nothing corroborates it.'')
              (report'\<lparr>PredictedTier := TierInferred\<rparr>)
            else AddFinding LevelOK (lit ''hierarchy'')
              ([39] @ StructureSource_String (hiSource h) @ [39] @ lit '' places the page set and will supply each page'' @ [39] @ lit ''s section number and ancestry.'')
              (report'\<lparr>PredictedTier := TierDeclared\<rparr>))
      in if 0 < length (hiPlacedByPath h)
         then AddFinding LevelWarn (lit ''unplaced pages'')
           (show_int (int (length (hiPlacedByPath h))) @ lit '' page(s) are named by no navigation source and will be nested by URL path instead. They are placed, never dropped -- dropping them is how a command reference goes missing from an index that reports success.'') report'
         else report')"

definition furniture :: "PageParser \<Rightarrow> Result \<Rightarrow> InspectReport \<Rightarrow> goerror + InspectReport" where
  "furniture H r report' =
     (case parsePages H (List.map_filter (\<lambda>u. map_option (\<lambda>p. (p, placementAt (crHierarchy r) u)) (map_of (crPages r) u)) (crOrder r)) of
        Inl e \<Rightarrow> Inl e
      | Inr parsed \<Rightarrow>
          let chrome = chromeTexts (ppUnicode H) parsed
          in Inr (if chrome = [] then report'
                  else AddFinding LevelOK (lit ''page furniture'')
                    (show_int (int (length chrome)) @ lit '' block(s) repeat across at least half the site and will be stripped as navigation before chunking.'') report'))"

definition siteInspect :: "PageParser \<Rightarrow> Result \<Rightarrow> InspectReport \<Rightarrow> goerror + InspectReport" where
  "siteInspect H r report' =
     (let pages = length (crPages r); report' = report'\<lparr>irPageCount := Some (int pages)\<rparr>
      in if pages = 0 then
           Inr (AddFinding LevelBlocked (lit ''coverage'')
             (lit ''no page of this site could be fetched. '' @
              (let notes' = join (lit ''; '') (crNotes r) in if notes' = [] then lit ''nothing answered at the seed URL.'' else notes')) report')
         else let report' = hierarchyFinding r (reachability r (coverageFinding r report'))
              in case clientRendered H r of
                   Inl e \<Rightarrow> Inl e
                 | Inr shells \<Rightarrow>
                     furniture H r (if shells = [] then report'
                       else AddFinding LevelWarn (lit ''client-rendered'')
                         (show_int (int (length shells)) @ lit '' page(s) carry far more script than text and are rendered in the browser. Ingesting them stores an empty shell that looks like a successful page. First few: ''
                          @ join (lit '', '') (take 3 shells)) report'))"

end
