(* ===== verification/SiteBuild_Props.thy ===== *)
theory SiteBuild_Props
  imports SiteBuild Frontier Structure_Props
begin

text \<open>
  What an ingested site owes its reader: every fetched page in navigation order, every passage under the
  section and the ancestry the hierarchy gave its page, only furniture dropped, and the report the ingest
  grades by saying what the crawl found.
\<close>

subsection \<open>The order of the pages\<close>

lemma mset_insertPage: "mset (insertPage key p ps) = {#p#} + mset ps"
  by (induction ps) auto

lemma mset_sortPages [simp]: "mset (sortPages key ps) = mset ps"
  by (induction ps) (auto simp: sortPages_def mset_insertPage)

lemma set_sortPages [simp]: "set (sortPages key ps) = set ps"
  by (metis mset_sortPages set_mset_mset)

lemma sorted_insertPage:
  "sorted_wrt (\<lambda>p q. text_le (key p) (key q)) ps \<Longrightarrow> sorted_wrt (\<lambda>p q. text_le (key p) (key q)) (insertPage key p ps)"
proof (induction ps)
  case (Cons q qs)
  have "set (insertPage key p qs) = insert p (set qs)" by (metis mset_insertPage set_mset_mset set_mset_add_mset_insert add_mset_add_single union_commute)
  then show ?case using Cons text_le_total[of "key p" "key q"] text_le_trans[of "key p" "key q"] by auto
qed simp

lemma sorted_sortPages: "sorted_wrt (\<lambda>p q. text_le (key p) (key q)) (sortPages key ps)"
  by (induction ps) (auto simp: sortPages_def sorted_insertPage)

lemma wellPlaced_placed:
  assumes "wellPlaced r" "u \<in> set (crOrder r)"
  shows "\<exists>p. ByURL (crHierarchy r) u = Some p \<and> plURL p = u"
proof -
  obtain p where p: "p \<in> set (hiPlacements (crHierarchy r))" "plURL p = u"
    using assms unfolding wellPlaced_def by (metis imageE list.set_map)
  let ?ps = "rev (map (\<lambda>p. (plURL p, p)) (hiPlacements (crHierarchy r)))"
  have "distinct (map fst ?ps)" using assms(1) by (simp add: wellPlaced_def rev_map[symmetric] comp_def)
  then have "map_of ?ps u = Some p" using p by (auto simp: map_of_eq_Some_iff)
  then show ?thesis using p by (simp add: ByURL_def)
qed

lemma wellPlaced_page:
  assumes "wellPlaced r" "u \<in> set (crOrder r)"
  shows "pgURL (pageAt r u) = u" "(u, pageAt r u) \<in> set (crPages r)"
proof -
  from assms have "u \<in> fst ` set (crPages r)" by (metis wellPlaced_def list.set_map)
  then obtain p where p: "map_of (crPages r) u = Some p" by (cases "map_of (crPages r) u") (auto simp: map_of_eq_None_iff)
  then show "(u, pageAt r u) \<in> set (crPages r)" by (simp add: pageAt_def map_of_SomeD)
  then show "pgURL (pageAt r u) = u" using assms by (auto simp: wellPlaced_def)
qed

text \<open>The pages of a crawl in navigation order.\<close>

definition navigation :: "unicode \<Rightarrow> Result \<Rightarrow> Page list" where
  "navigation U r = sortPages (\<lambda>p. sectionKey U (plSection (placementAt (crHierarchy r) (pgURL p)))) (map (pageAt r) (crOrder r))"

lemma orderedPages_wellPlaced: "wellPlaced r \<Longrightarrow> orderedPages U r = (navigation U r, [])"
proof -
  assume "wellPlaced r"
  then have "ByURL (crHierarchy r) u \<noteq> None" if "u \<in> set (crOrder r)" for u using wellPlaced_placed[of r u] that by auto
  then have "filter (\<lambda>u. ByURL (crHierarchy r) u \<noteq> None) (crOrder r) = crOrder r" "filter (\<lambda>u. ByURL (crHierarchy r) u = None) (crOrder r) = []"
    by (auto simp: filter_id_conv filter_empty_conv)
  then show ?thesis by (simp add: orderedPages_def navigation_def Let_def)
qed

lemma navigation_urls:
  assumes "wellPlaced r"
  shows "mset (map pgURL (navigation U r)) = mset (crOrder r)"
proof -
  have "mset (map pgURL (navigation U r)) = mset (map (\<lambda>u. pgURL (pageAt r u)) (crOrder r))"
    unfolding navigation_def mset_map mset_sortPages by (simp add: comp_def image_mset.compositionality)
  also have "map (\<lambda>u. pgURL (pageAt r u)) (crOrder r) = crOrder r" using wellPlaced_page(1)[OF assms] by (simp add: map_idI)
  finally show ?thesis .
qed

subsection \<open>Parsing the pages\<close>

lemma parsePages_Inr:
  "parsePages H ps = Inr xs \<Longrightarrow> list_all2 (\<lambda>(p, placement) x. parsePage H p placement = Inr x) ps xs"
  by (induction ps arbitrary: xs) (auto split: sum.splits)

lemma parsePage_url: "parsePage H p placement = Inr x \<Longrightarrow> psURL x = pgURL p"
  by (auto simp: parsePage_def split: sum.splits)

subsection \<open>The furniture\<close>

text \<open>The pages a short block of text is on.\<close>

definition onPagesOf :: "unicode \<Rightarrow> ParsedPage list \<Rightarrow> gostring \<Rightarrow> gostring set" where
  "onPagesOf U parsed t =
     {psURL p |p item. p \<in> set parsed \<and> item \<in> set (psItems p) \<and> Strip (itText item) \<noteq> []
        \<and> int (length (Strip (itText item))) \<le> chromeMaxChars \<and> normalizeText U (Strip (itText item)) = t}"

definition pagesOf :: "onPages \<Rightarrow> gostring \<Rightarrow> gostring set" where
  "pagesOf pages t = (case map_of pages t of Some us \<Rightarrow> set us | None \<Rightarrow> {})"

definition counted :: "onPages \<Rightarrow> bool" where
  "counted pages = (distinct (map fst pages) \<and> (\<forall>kus\<in>set pages. distinct (snd kus) \<and> snd kus \<noteq> []))"

lemma addPage_keys: "fst ` set (addPage key u pages) = insert key (fst ` set pages)"
  by (induction pages) (force split: if_splits)+

lemma counted_addPage: "counted pages \<Longrightarrow> counted (addPage key u pages)"
proof (induction pages)
  case (Cons kus pages)
  obtain k us where kus: "kus = (k, us)" by (cases kus)
  show ?case
  proof (cases "k = key")
    case True
    then show ?thesis using Cons.prems by (simp add: counted_def kus)
  next
    case False
    have c: "counted pages" "k \<notin> fst ` set pages" "distinct us" "us \<noteq> []" using Cons.prems by (auto simp: counted_def kus)
    have "counted (addPage key u pages)" "k \<notin> fst ` set (addPage key u pages)"
      using Cons.IH[OF c(1)] c(2) False by (simp_all add: addPage_keys)
    then show ?thesis using False c(3,4) unfolding counted_def kus by simp
  qed
qed (simp add: counted_def)

lemma pagesOf_simps [simp]:
  "pagesOf [] t = {}" "pagesOf ((k, us) # pages) t = (if t = k then set us else pagesOf pages t)"
  by (simp_all add: pagesOf_def)

lemma pagesOf_addPage: "pagesOf (addPage key u pages) t = pagesOf pages t \<union> (if t = key then {u} else {})"
proof (induction key u pages rule: addPage.induct)
  case (2 key u k us rest)
  then show ?case by (cases "k = key"; cases "t = k"; cases "u \<in> set us") (simp_all add: insert_absorb)
qed simp

definition candidate :: "unicode \<Rightarrow> gostring \<Rightarrow> Item \<Rightarrow> bool" where
  "candidate U t item = (Strip (itText item) \<noteq> [] \<and> int (length (Strip (itText item))) \<le> chromeMaxChars
     \<and> normalizeText U (Strip (itText item)) = t)"

lemma addCandidate_pages:
  "pagesOf (addCandidate U pages (itText item) u) t = pagesOf pages t \<union> (if candidate U t item then {u} else {})"
  "counted pages \<Longrightarrow> counted (addCandidate U pages (itText item) u)"
  by (auto simp: addCandidate_def Let_def pagesOf_addPage candidate_def counted_addPage)

lemma page_candidates:
  "pagesOf (fold (\<lambda>item pages. addCandidate U pages (itText item) u) items pages) t
     = pagesOf pages t \<union> (if \<exists>item\<in>set items. candidate U t item then {u} else {})"
  "counted pages \<Longrightarrow> counted (fold (\<lambda>item pages. addCandidate U pages (itText item) u) items pages)"
  by (induction items arbitrary: pages) (auto simp: addCandidate_pages)

lemma site_candidates:
  "pagesOf (fold (\<lambda>page pages. fold (\<lambda>item pages. addCandidate U pages (itText item) (psURL page)) (psItems page) pages) parsed pages) t
     = pagesOf pages t \<union> onPagesOf U parsed t"
  "counted pages \<Longrightarrow> counted (fold (\<lambda>page pages. fold (\<lambda>item pages. addCandidate U pages (itText item) (psURL page)) (psItems page) pages) parsed pages)"
proof (induction parsed arbitrary: pages)
  case (Cons p parsed)
  { case 1 show ?case by (simp add: Cons page_candidates) (auto simp: onPagesOf_def candidate_def) }
  { case 2 then show ?case by (simp add: Cons page_candidates) }
qed (auto simp: onPagesOf_def)

lemma pagesPerBlock_counts:
  shows "counted (pagesPerBlock U parsed)" "pagesOf (pagesPerBlock U parsed) t = onPagesOf U parsed t"
  using site_candidates[where pages = "[]"] by (auto simp: pagesPerBlock_def counted_def pagesOf_def)

lemma half_floor:
  assumes "n < 2 ^ 53"
  shows "int_of_float (rnd (of_nat n * chromePageFraction)) = int (n div 2)"
proof (cases "even n")
  case True
  then obtain k where k: "n = 2 * k" by (auto elim: evenE)
  have "rnd (of_nat n * chromePageFraction) = of_nat k" using rnd_of_nat[of k] assms by (simp add: k chromePageFraction_def)
  then show ?thesis using assms by (simp add: k int_of_float_nonneg)
next
  case False
  then obtain k where k: "n = 2 * k + 1" by (auto elim: oddE)
  let ?x = "of_nat n * chromePageFraction :: rat"
  have x: "?x = of_nat k + 1 / 2" by (simp add: k chromePageFraction_def field_simps)
  have "\<bar>rnd ?x - ?x\<bar> \<le> ?x / 2 ^ 53" by (rule rnd_error) (simp add: x)
  moreover have "of_nat n < (of_nat (2 ^ 53) :: rat)" using assms by (simp only: of_nat_less_iff)
  then have "?x / 2 ^ 53 < 1 / 2" by (simp add: chromePageFraction_def)
  ultimately have r: "of_nat k \<le> rnd ?x" "rnd ?x < of_nat k + 1" using x by linarith+
  then have "\<lfloor>rnd ?x\<rfloor> = int k" by (simp add: floor_unique)
  moreover have "k + 1 < 2 ^ 63" using assms k by simp
  then have "(of_nat (k + 1) :: rat) < of_nat (2 ^ 63)" by (simp only: of_nat_less_iff)
  then have "of_nat k + 1 < (2 ^ 63 :: rat)" by simp
  then have "rnd ?x < 2 ^ 63" "0 \<le> rnd ?x" using r of_nat_0_le_iff[of k, where 'a = rat] by linarith+
  ultimately show ?thesis by (simp add: int_of_float_nonneg k)
qed

text \<open>C37: Furniture is told from content by reach alone: a text is stripped exactly where the site has five
  pages or more, and the text is a block of at most two hundred characters on at least five of them and on
  at least half of them, rounded down; a page counts once however often it repeats the text.\<close>

theorem chromeTexts_exact:
  assumes "length parsed < 2 ^ 53"
  shows "t \<in> set (chromeTexts U parsed) \<longleftrightarrow>
    5 \<le> length parsed \<and> max 5 (length parsed div 2) \<le> card (onPagesOf U parsed t)"
proof -
  let ?p = "pagesPerBlock U parsed" and ?n = "length parsed"
  have th: "chromeThreshold ?n = int (max 5 (?n div 2))" using half_floor[OF assms] by (simp add: chromeThreshold_def chromeMinPages_def)
  have key: "(\<exists>us. (t, us) \<in> set ?p \<and> int (max 5 (?n div 2)) \<le> int (length us)) \<longleftrightarrow> max 5 (?n div 2) \<le> card (onPagesOf U parsed t)"
    (is "?l \<longleftrightarrow> ?r")
  proof
    assume ?l
    then obtain us where us: "(t, us) \<in> set ?p" "max 5 (?n div 2) \<le> length us" by auto
    then have "distinct us" "map_of ?p t = Some us" using pagesPerBlock_counts(1)[of U parsed] by (auto simp: counted_def)
    then show ?r using us pagesPerBlock_counts(2)[of U parsed t] by (simp add: pagesOf_def distinct_card flip: distinct_card)
  next
    assume r: ?r
    then have "onPagesOf U parsed t \<noteq> {}" by auto
    then obtain us where us: "map_of ?p t = Some us" using pagesPerBlock_counts(2)[of U parsed t] by (auto simp: pagesOf_def split: option.splits)
    then have "set us = onPagesOf U parsed t" using pagesPerBlock_counts(2)[of U parsed t] by (simp add: pagesOf_def)
    then have "card (onPagesOf U parsed t) \<le> length us" using card_length[of us] by simp
    then show ?l using r map_of_SomeD[OF us] by fastforce
  qed
  show ?thesis using key by (force simp: chromeTexts_def th chromeMinPages_def)
qed

text \<open>Five pages under one banner.\<close>

definition ex_banner :: "ParsedPage list" where
  "ex_banner = map (\<lambda>u. \<lparr>psURL = [u], psTitle = [u], psItems =
     [\<lparr>itFragment = None, itText = lit '' Home  page'', itHeadingPath = []\<rparr>, \<lparr>itFragment = None, itText = [u], itHeadingPath = []\<rparr>]\<rparr>) [97, 98, 99, 100, 101]"

theorem chromeTexts_exact_witness: "5 \<le> card (onPagesOf ascii_unicode ex_banner (lit ''home page''))"
proof -
  have "length ex_banner < 2 ^ 53" by (simp add: ex_banner_def)
  from chromeTexts_exact[OF this, of "lit ''home page''" ascii_unicode]
  have "lit ''home page'' \<in> set (chromeTexts ascii_unicode ex_banner) \<longrightarrow> 5 \<le> card (onPagesOf ascii_unicode ex_banner (lit ''home page''))"
    by simp
  moreover have "lit ''home page'' \<in> set (chromeTexts ascii_unicode ex_banner)" by code_simp
  ultimately show ?thesis by blast
qed

subsection \<open>The passages\<close>

text \<open>The items of the parsed pages that are passages: they say something, and are no furniture.\<close>

definition kept :: "unicode \<Rightarrow> gostring list \<Rightarrow> Item \<Rightarrow> bool" where
  "kept U chrome item = (Strip (itText item) \<noteq> [] \<and> normalizeText U (Strip (itText item)) \<notin> set chrome)"

definition pieces :: "unicode \<Rightarrow> gostring list \<Rightarrow> ParsedPage list \<Rightarrow> (ParsedPage \<times> Item) list" where
  "pieces U chrome parsed = concat (map (\<lambda>p. map (Pair p) (filter (kept U chrome) (psItems p))) parsed)"

text \<open>A block that is this item of this page, where the hierarchy put the page.\<close>

definition passage :: "Hierarchy \<Rightarrow> ParsedPage \<Rightarrow> Item \<Rightarrow> Block \<Rightarrow> bool" where
  "passage h p item b =
     (blkText b = Strip (itText item) \<and> blkURL b = Some (psURL p) \<and> blkFragment b = itFragment item
      \<and> Section b = Some (plSection (placementAt h (psURL p)))
      \<and> take (Suc (length (plAncestry (placementAt h (psURL p))))) (blkHeadingPath b) = plAncestry (placementAt h (psURL p)) @ [psTitle p])"

text \<open>Blocks that stand end to end from an offset, a separator apart.\<close>

fun endToEnd :: "int \<Rightarrow> Block list \<Rightarrow> bool" where
  "endToEnd offset [] = True"
| "endToEnd offset (b # bs) = (Locator b = [(''offset'', offset)] \<and> endToEnd (offset + int (length (blkText b)) + 1) bs)"

definition span :: "Block list \<Rightarrow> int" where "span bs = sum_list (map (\<lambda>b. int (length (blkText b)) + 1) bs)"

lemma endToEnd_append: "endToEnd offset (bs @ cs) \<longleftrightarrow> endToEnd offset bs \<and> endToEnd (offset + span bs) cs"
  by (induction bs arbitrary: offset) (auto simp: span_def algebra_simps)

lemma blockOf_kept: "blockOf U item base p pl chrome offset = None \<longleftrightarrow> \<not> kept U chrome item"
  by (auto simp: blockOf_def kept_def Let_def)

lemma blockOf_Some:
  assumes "blockOf U item (plAncestry (placementAt h (psURL p)) @ [psTitle p]) p (placementAt h (psURL p)) chrome offset = Some b"
  shows "passage h p item b \<and> Locator b = [(''offset'', offset)]"
  using assms by (auto simp: blockOf_def passage_def NewOffsetBlock_def pagePath_def Let_def split: if_splits)

lemma pageBlocks:
  assumes "pageBlocksOf U p (placementAt h (psURL p)) chrome offset = (bs, dropped)"
  shows "list_all2 (passage h p) (filter (kept U chrome) (psItems p)) bs \<and> endToEnd offset bs"
proof -
  let ?pl = "placementAt h (psURL p)" and ?base = "plAncestry (placementAt h (psURL p)) @ [psTitle p]"
  have "itemBlocks U ?base p ?pl chrome items offset = (bs, dropped) \<Longrightarrow>
      list_all2 (passage h p) (filter (kept U chrome) items) bs \<and> endToEnd offset bs" for items
  proof (induction items arbitrary: offset bs dropped)
    case (Cons item items)
    then show ?case
    proof (cases "blockOf U item ?base p ?pl chrome offset")
      case None
      then have "\<not> kept U chrome item" by (simp add: blockOf_kept)
      then show ?thesis using None Cons by (auto simp: Let_def split: prod.splits)
    next
      case (Some b)
      then have "kept U chrome item" using blockOf_kept by (metis option.distinct(1))
      then show ?thesis using Some Cons blockOf_Some[OF Some] by (auto simp: Let_def split: prod.splits)
    qed
  qed simp
  then show ?thesis using assms unfolding pageBlocksOf_def by blast
qed

lemma siteBlocks:
  "blocksOf U parsed h chrome offset = (bs, dropped) \<Longrightarrow>
    list_all2 (\<lambda>(p, item) b. passage h p item b) (pieces U chrome parsed) bs \<and> endToEnd offset bs"
proof (induction parsed arbitrary: offset bs dropped)
  case (Cons p parsed)
  obtain b d where b: "pageBlocksOf U p (placementAt h (psURL p)) chrome offset = (b, d)" by (cases "pageBlocksOf U p (placementAt h (psURL p)) chrome offset")
  obtain c e where c: "blocksOf U parsed h chrome (offset + span b) = (c, e)" by (cases "blocksOf U parsed h chrome (offset + span b)")
  have bs: "bs = b @ c" using Cons.prems b c by (simp add: span_def)
  have "list_all2 (\<lambda>(p, item) b. passage h p item b) (map (Pair p) (filter (kept U chrome) (psItems p))) b"
    using pageBlocks[OF b] by (simp add: list_all2_map1)
  then show ?case using pageBlocks[OF b] Cons.IH[OF c] by (simp add: bs pieces_def endToEnd_append list_all2_appendI)
qed (simp add: pieces_def)

lemma BuildExtraction_ok:
  assumes "wellPlaced r" "BuildExtraction H r title = Inr ext"
  obtains parsed dropped where
    "parsePages H (map (\<lambda>p. (p, placementAt (crHierarchy r) (pgURL p))) (navigation (ppUnicode H) r)) = Inr parsed"
    "blocksOf (ppUnicode H) parsed (crHierarchy r) (chromeTexts (ppUnicode H) parsed) 0 = (Blocks ext, dropped)"
    "Diagnostics ext = [(''structure_source'', AnyString (StructureSource_String (hiSource (crHierarchy r)))),
       (''site'', AnyMap (siteDiagnostics r (Blocks ext) [] dropped (length (chromeTexts (ppUnicode H) parsed)))),
       (''notes'', AnyStrings (crNotes r))]"
proof -
  let ?U = "ppUnicode H" and ?h = "crHierarchy r"
  define placedPages where "placedPages = map (\<lambda>p. (p, placementAt ?h (pgURL p))) (navigation ?U r)"
  have ext: "(case parsePages H placedPages of Inl e \<Rightarrow> Inl e | Inr parsed \<Rightarrow>
      (case blocksOf ?U parsed ?h (chromeTexts ?U parsed) 0 of (blocks, dropped) \<Rightarrow>
       (case siteTitle H r title of Inl e \<Rightarrow> Inl e | Inr name \<Rightarrow>
         Inr ((NewExtraction name (lit ''site'') (hiSource ?h) blocks)\<lparr>Diagnostics :=
           Diagnostics (NewExtraction name (lit ''site'') (hiSource ?h) blocks) @
             [(''site'', AnyMap (siteDiagnostics r blocks [] dropped (length (chromeTexts ?U parsed)))), (''notes'', AnyStrings (crNotes r))]\<rparr>)))) = Inr ext"
    using assms(2) unfolding BuildExtraction_def orderedPages_wellPlaced[OF assms(1)] Let_def placedPages_def by simp
  then obtain parsed where p: "parsePages H placedPages = Inr parsed" by (cases "parsePages H placedPages") simp_all
  obtain blocks dropped where b: "blocksOf ?U parsed ?h (chromeTexts ?U parsed) 0 = (blocks, dropped)"
    by (cases "blocksOf ?U parsed ?h (chromeTexts ?U parsed) 0")
  obtain name where t: "siteTitle H r title = Inr name" using ext p b by (cases "siteTitle H r title") simp_all
  have e: "ext = (NewExtraction name (lit ''site'') (hiSource ?h) blocks)\<lparr>Diagnostics :=
      Diagnostics (NewExtraction name (lit ''site'') (hiSource ?h) blocks) @
        [(''site'', AnyMap (siteDiagnostics r blocks [] dropped (length (chromeTexts ?U parsed)))), (''notes'', AnyStrings (crNotes r))]\<rparr>"
    using ext by (simp add: p b t)
  have blocks: "Blocks ext = blocks" unfolding e by (simp add: NewExtraction_def)
  show thesis
  proof (rule that)
    show "parsePages H (map (\<lambda>p. (p, placementAt ?h (pgURL p))) (navigation ?U r)) = Inr parsed" using p unfolding placedPages_def .
    show "blocksOf ?U parsed ?h (chromeTexts ?U parsed) 0 = (Blocks ext, dropped)" unfolding blocks by (rule b)
    show "Diagnostics ext = [(''structure_source'', AnyString (StructureSource_String (hiSource ?h))),
       (''site'', AnyMap (siteDiagnostics r (Blocks ext) [] dropped (length (chromeTexts ?U parsed)))), (''notes'', AnyStrings (crNotes r))]"
      unfolding blocks unfolding e by (simp add: NewExtraction_def)
  qed
qed



subsection \<open>A site of one page\<close>

definition ex_parser :: PageParser where
  "ex_parser = \<lparr>ppUnicode = ascii_unicode,
     ppParse = (\<lambda>body. Inr (lit ''Home'', [\<lparr>itFragment = Some (lit ''top''), itText = body, itHeadingPath = [lit ''Home'', lit ''Use'']\<rparr>])),
     ppURL = (\<lambda>_. None), ppMeasure = (\<lambda>_. Inr (0, 0))\<rparr>"

lemma ex_small_extraction:
  obtains r s' ext where "crawlSite ex_small () = (Inr r, s')" "BuildExtraction ex_parser r [] = Inr ext"
    "crOrder r = [lit ''https://d.org/b'']" "Declared r = 1" "map blkText (Blocks ext) = [lit ''hi'']"
proof -
  have "(case fst (crawlSite ex_small ()) of Inl e \<Rightarrow> None
      | Inr r \<Rightarrow> (case BuildExtraction ex_parser r [] of Inl e \<Rightarrow> None | Inr ext \<Rightarrow> Some (crOrder r, Declared r, map blkText (Blocks ext))))
      = Some ([lit ''https://d.org/b''], 1, [lit ''hi''])"
    by code_simp
  then show thesis using that by (cases "crawlSite ex_small ()") (auto split: sum.splits)
qed



end
