(* ===== verification/Spec2Isabelle.thy ===== *)
theory Spec2Isabelle
  imports Chunking_Props Grade_Props Measure Inspect Worker_Props JobService Context_Props Libraries Frontier Identity_Props
    Authserver_Props Adapters_Props SiteBuild_Props
begin

text \<open>
  docsearch: an index of books, manuals and documentation sites that agents search.  A worker takes jobs
  from a queue, extracts a document or crawls a site, cuts it into chunks, grades the result and publishes
  it; a server answers searches over what is published.  The parts, from the ground up, and the theories
  that model them (paths are under \<^verbatim>\<open>internal/\<close>):

  \<^item> \<^verbatim>\<open>pystr\<close>: \<open>Pystr\<close>, the Python string functions the Go code reproduces; \<open>Gofmt\<close>, \<^verbatim>\<open>fmt\<close> and \<^verbatim>\<open>strconv\<close>; \<open>Float64\<close>,
    correctly rounded binary64 over the rationals.  Text is a list of code points (\<open>gostring\<close>), bytes where
    the code reads bytes; what a Unicode table says of a code point is the record \<open>unicode\<close>, an argument.
  \<^item> \<^verbatim>\<open>domain\<close>: \<open>Enums\<close>, \<open>Document\<close> (blocks, heading stack), \<open>Tokens\<close>, \<open>Chunking\<close>, \<open>Structure\<close> (the quality
    report and its stored readers), \<open>Measure\<close>, \<open>GradeModel\<close>, \<open>Inspect\<close>.
  \<^item> \<^verbatim>\<open>pgstore\<close>, \<^verbatim>\<open>repository/postgres\<close>, \<^verbatim>\<open>pgsession\<close>: \<open>Store\<close> (the library's rows as a record of lists, statements as
    transactions, the ingest repository), \<open>JobStore\<close> (the queue), \<open>Search\<close>, \<open>ReadStore\<close>, \<open>Libraries\<close>.
  \<^item> \<^verbatim>\<open>service\<close>: \<open>Ingest\<close>, \<open>Worker\<close> (a job from claim to end, the watcher, the rotation over queues), \<open>JobService\<close>.
  \<^item> \<^verbatim>\<open>urlguard\<close>, \<^verbatim>\<open>site/fetch\<close>, \<^verbatim>\<open>site/nav\<close>, \<^verbatim>\<open>site/discover\<close>, \<^verbatim>\<open>site/crawl\<close>: \<open>Urlguard\<close>, \<open>Webfetch\<close>, \<open>Nav\<close>, \<open>Discover\<close>,
    \<open>Crawl\<close>; \<^verbatim>\<open>site\<close> itself, a crawl as one extraction and the dry run, is \<open>SiteBuild\<close>.
  \<^item> \<^verbatim>\<open>adapter\<close>: \<open>Adapters\<close>, the registry of formats and the text and Markdown adapters.
  \<^item> \<^verbatim>\<open>password\<close>, \<^verbatim>\<open>account\<close>, \<^verbatim>\<open>resource\<close>, \<^verbatim>\<open>owner\<close>, \<^verbatim>\<open>authserver\<close>: \<open>Accounts\<close> (password accounts, the lockout and the definer
    functions of the migrations), \<open>Identity\<close> (access tokens to identities to accounts), \<open>Authserver\<close> (clients,
    requests, refresh tokens, signing keys, sign-in).  All work on the tables of \<open>AuthDB\<close>; between any two
    statements of one session the model lets other sessions act, as \<open>Sessions\<close> says.
  A definition has the name of the function it models, changed where HOL has the name.  State is passed and
  returned; errors are \<open>goerror\<close>, a value of \<open>GoErrors\<close> with the wrapping \<^verbatim>\<open>errors.Is\<close> sees, in a sum.  A
  transaction (\<open>tx\<close>) returns the new rows or an error and no rows; \<open>Run\<close> installs them, so a failed
  transaction leaves the library as it was.  Statements run over the rows the session's scope may see.
  Database failures, cancellation and the clock are read off lists and counters of the state: a theorem over
  all states covers every schedule of them.

  What each group of theorems shows.
  \<^item> \<open>Chunking_Props\<close>: the chunks hold the visible text of the blocks in order, are numbered, stay within the
    token cap unless one paragraph cannot be divided, and keep to their sections.
  \<^item> \<open>Structure_Props\<close>, \<open>Grade_Props\<close>, \<open>Measure\<close>: each decision of the report and of the grader, made in float64
    arithmetic, as a comparison of integers; the stored report reads back.
  \<^item> \<open>Store_Props\<close>, \<open>Ingest_Props\<close>: keys hold after every write; a failed or cancelled ingest leaves every
    searchable document as it was, a successful one publishes exactly what was extracted.
  \<^item> \<open>Job_Props\<close>, \<open>Worker_Props\<close>: the queue as a step relation over histories of several workers: one owner per
    job, claims bounded by the attempts, a write through a lost claim refused, and what a failed job leaves.
  \<^item> \<open>Search_Props\<close>, \<open>Context_Props\<close>, \<open>Libraries\<close>: one walk of the index answers as a search of each document would;
    results are of published documents; the context kept around an anchor; identifiers across libraries.
  \<^item> \<open>Urlguard_Props\<close>, \<open>Webfetch_Props\<close>, \<open>Nav_Props\<close>, \<open>Crawl_Props\<close>, \<open>Frontier\<close>: the addresses that may be fetched as a
    table; every request of a crawl is approved, spaced out and allowed by robots.txt; every declared URL is
    accounted for, every page placed, link-following bounded.  \<open>kept_by_requests\<close> and \<open>kept_by_fetcher\<close> are the
    interfaces that carry an invariant of one request to a fetch and to a whole crawl.
  \<^item> \<open>Accounts_Props\<close>, \<open>Identity_Props\<close>, \<open>Authserver_Props\<close>: guesses of a password are bounded and refusals alike
    under any interleaving of sessions, one account per identity, a request is served for its own token only,
    a refresh token stands for a sign-in and is spent once.  The interface is \<open>session_order\<close>: a relation of
    table states that every statement and every other session keeps holds of a whole operation; each
    theory interprets it at its own relation.
  \<^item> \<open>Adapters_Props\<close>, \<open>SiteBuild_Props\<close>: the blocks of a text or Markdown file hold its visible text in place; the
    extraction of a crawl holds every page once, in section order, and all its text but the furniture; what the
    report reads back is what the crawl found.
  Bounds.  Loops end: structural recursion, or \<open>function\<close> with its measure (the frontier of a crawl, the queue
  of sitemaps by a multiset of depths).  A loop over a fixed count (redirects) carries the count it has left,
  which is the code's own.  Go's \<^verbatim>\<open>int\<close> is \<open>int\<close> where no input reaches 64 bits and 32-bit columns are narrowed
  where the code narrows (\<open>Narrow\<close>).

  Parameters.  The PDF, Word and HTML adapters, argon2id, token verification, compression, hashing, the BM25 score of the index, \<^verbatim>\<open>net/url\<close>, DNS, the
  HTTP exchange, goquery's selections, the XML decoder and the robots.txt matcher are arguments: nothing is
  assumed of them but what a theorem states.

  Not modelled.  The PDF, Word and HTML adapters, whose decisions rest on third-party parsers; generated code
  (sqlc beyond the statements named, buf); HTTP and MCP handlers, commands, configuration, templates and
  mocks, which translate between a protocol and the services.
\<close>

end
